theory Spec2Isabelle
  imports Complex_Main "HOL-Library.Char_ord" "HOL-Library.List_Lexorder"
begin

section \<open>The scheduling engine of solver.py and its caller in app.py\<close>

text \<open>
  \<^verbatim>\<open>find_optimal_schedule(scenarios, personnel, start_date_str)\<close> builds a CP-SAT model,
  hands it to the solver of the OR-tools library and formats the solved values.  The
  embedding follows the function statement by statement.  The library is not part of the
  repository: the model it receives is kept as data (variables with their domains, and
  constraints), the meaning of each constraint kind is written down once in \<open>sat\<close>, and
  the solver itself is a parameter of \<open>find_optimal_schedule\<close>.  What a theorem needs to
  know about the solver's answer is stated as a hypothesis on that answer.
\<close>

subsection \<open>Input and output records\<close>

text \<open>A person is a dict with the keys \<^verbatim>\<open>name\<close> and \<^verbatim>\<open>workstream\<close>.\<close>

record person =
  name :: string
  workstream :: string

text \<open>A scenario is a dict with the keys \<^verbatim>\<open>name\<close>, \<^verbatim>\<open>duration_hours\<close> and
  \<^verbatim>\<open>required_workstreams\<close>; \<^verbatim>\<open>int(scenario['duration_hours'])\<close> is the identity on an
  integer.\<close>

record scenario =
  sc_name :: string
  duration_hours :: int
  required_workstreams :: "string list"

text \<open>
  \<^verbatim>\<open>start_date + timedelta(hours=h)\<close>, printed with \<^verbatim>\<open>'%Y-%m-%d %H:%M'\<close>: kept as the
  reference date together with the hour offset \<open>h\<close>, which determines the printed text.
\<close>

datatype timestamp = Timestamp (reference_date: string) (hour_offset: int)

text \<open>
  One entry of \<^verbatim>\<open>scenario_results\<close>.  The two last fields hold lists while the
  sub-tasks are collected and the joined strings in the rows that are returned.
\<close>

record 'a result_row =
  Scenario :: string
  Duration_Hours :: int
  Start_Time :: timestamp
  End_Time :: timestamp
  Assigned_Persons :: 'a
  Workstreams :: 'a

subsection \<open>The CP-SAT model as data\<close>

text \<open>
  A CP-SAT variable is an object; its name is only a label (two scenarios of the same
  name get two start variables of the same label).  Each variable is identified here by
  the call that creates it and the loop indices of that call: the scenario index for a
  start or end variable, the scenario and workstream index for a person variable, the
  position of the sub-task in \<^verbatim>\<open>all_subtasks\<close> and the person index for an indicator.
\<close>

datatype var =
    StartVar nat
  | EndVar nat
  | PersonVar nat nat
  | IsAssignedVar nat nat
  | MaxEndTime

text \<open>An interval variable: start, fixed size, end, and the presence literal of an
  optional interval.\<close>

datatype interval_var =
  IntervalVar (iv_start: var) (iv_size: int) (iv_end: var) (iv_presence: "var option")

datatype constr =
    EqualPlus var var int
  | AllowedAssignments var "int list"
  | IntervalCt interval_var
  | EqualIf var int var
  | NotEqualIfNot var int var
  | NoOverlap "interval_var list"
  | MaxEquality var "var list"

record cp_model =
  variables :: "(var \<times> int \<times> int) list"
  constraints :: "constr list"
  objective :: "var option"

definition CpModel :: cp_model where
  "CpModel = \<lparr>variables = [], constraints = [], objective = None\<rparr>"

definition NewIntVar :: "int \<Rightarrow> int \<Rightarrow> var \<Rightarrow> cp_model \<Rightarrow> cp_model" where
  "NewIntVar lb ub v m = m\<lparr>variables := variables m @ [(v, lb, ub)]\<rparr>"

definition NewBoolVar :: "var \<Rightarrow> cp_model \<Rightarrow> cp_model" where
  "NewBoolVar v m = NewIntVar 0 1 v m"

definition Add :: "constr \<Rightarrow> cp_model \<Rightarrow> cp_model" where
  "Add c m = m\<lparr>constraints := constraints m @ [c]\<rparr>"

definition Minimize :: "var \<Rightarrow> cp_model \<Rightarrow> cp_model" where
  "Minimize v m = m\<lparr>objective := Some v\<rparr>"

subsection \<open>What the constraints mean\<close>

text \<open>
  The documented meaning of the constraints the function uses, over an assignment of
  integers to the variables:
  \<^item> \<^verbatim>\<open>Add(x == y + c)\<close>;
  \<^item> \<^verbatim>\<open>AddAllowedAssignments([x], tuples)\<close>: the value of \<open>x\<close> is one of the listed ones;
  \<^item> an interval that is present has \<open>start + size = end\<close> and a size that is not
    negative; an interval without presence literal is always present;
  \<^item> \<^verbatim>\<open>Add(x == c).OnlyEnforceIf(b)\<close> and \<^verbatim>\<open>Add(x != c).OnlyEnforceIf(b.Not())\<close>;
  \<^item> \<^verbatim>\<open>AddNoOverlap\<close>: any two present intervals of the list are disjoint, one ending
    no later than the other starts;
  \<^item> \<^verbatim>\<open>AddMaxEquality(t, xs)\<close>: \<open>t\<close> is the greatest of the \<open>xs\<close>, which no value is
    when \<open>xs\<close> is empty.
\<close>

type_synonym assignment = "var \<Rightarrow> int"

fun present :: "assignment \<Rightarrow> interval_var \<Rightarrow> bool" where
  "present \<sigma> (IntervalVar s d e None) = True"
| "present \<sigma> (IntervalVar s d e (Some b)) = (\<sigma> b = 1)"

fun interval_ok :: "assignment \<Rightarrow> interval_var \<Rightarrow> bool" where
  "interval_ok \<sigma> (IntervalVar s d e p) =
     (present \<sigma> (IntervalVar s d e p) \<longrightarrow> \<sigma> s + d = \<sigma> e \<and> 0 \<le> d)"

definition disjoint_pair :: "assignment \<Rightarrow> interval_var \<Rightarrow> interval_var \<Rightarrow> bool" where
  "disjoint_pair \<sigma> i1 i2 =
     (present \<sigma> i1 \<and> present \<sigma> i2 \<longrightarrow>
        \<sigma> (iv_end i1) \<le> \<sigma> (iv_start i2) \<or> \<sigma> (iv_end i2) \<le> \<sigma> (iv_start i1))"

fun no_overlap :: "assignment \<Rightarrow> interval_var list \<Rightarrow> bool" where
  "no_overlap \<sigma> [] = True"
| "no_overlap \<sigma> (i # is) = (list_all (disjoint_pair \<sigma> i) is \<and> no_overlap \<sigma> is)"

fun sat :: "assignment \<Rightarrow> constr \<Rightarrow> bool" where
  "sat \<sigma> (EqualPlus x y c) = (\<sigma> x = \<sigma> y + c)"
| "sat \<sigma> (AllowedAssignments x vs) = (\<sigma> x \<in> set vs)"
| "sat \<sigma> (IntervalCt i) = interval_ok \<sigma> i"
| "sat \<sigma> (EqualIf x c b) = (\<sigma> b = 1 \<longrightarrow> \<sigma> x = c)"
| "sat \<sigma> (NotEqualIfNot x c b) = (\<sigma> b \<noteq> 1 \<longrightarrow> \<sigma> x \<noteq> c)"
| "sat \<sigma> (NoOverlap is) = no_overlap \<sigma> is"
| "sat \<sigma> (MaxEquality t xs) =
     (list_all (\<lambda>x. \<sigma> x \<le> \<sigma> t) xs \<and> list_ex (\<lambda>x. \<sigma> x = \<sigma> t) xs)"

definition in_domain :: "assignment \<Rightarrow> var \<times> int \<times> int \<Rightarrow> bool" where
  "in_domain \<sigma> = (\<lambda>(v, lb, ub). lb \<le> \<sigma> v \<and> \<sigma> v \<le> ub)"

definition feasible :: "cp_model \<Rightarrow> assignment \<Rightarrow> bool" where
  "feasible m \<sigma> = (list_all (in_domain \<sigma>) (variables m) \<and> list_all (sat \<sigma>) (constraints m))"

subsection \<open>The solver's answer\<close>

datatype cp_status = UNKNOWN | MODEL_INVALID | FEASIBLE | INFEASIBLE | OPTIMAL

text \<open>\<^verbatim>\<open>solver.Value(v)\<close> and \<^verbatim>\<open>solver.ObjectiveValue()\<close> read the answer.\<close>

record cp_solver =
  status :: cp_status
  Value :: assignment
  ObjectiveValue :: int

text \<open>
  The contract of the search engine: with status OPTIMAL or FEASIBLE the values satisfy
  every constraint of the model and the objective value is the value of the minimised
  variable; OPTIMAL moreover means that no assignment satisfying the model has a smaller
  objective; INFEASIBLE means that no assignment satisfies the model.
\<close>

definition is_solution :: "cp_model \<Rightarrow> cp_solver \<Rightarrow> bool" where
  "is_solution m r =
     (feasible m (Value r) \<and>
      (case objective m of None \<Rightarrow> True | Some v \<Rightarrow> ObjectiveValue r = Value r v))"

definition cp_sat_contract :: "cp_model \<Rightarrow> cp_solver \<Rightarrow> bool" where
  "cp_sat_contract m r =
     ((status r = OPTIMAL \<or> status r = FEASIBLE \<longrightarrow> is_solution m r) \<and>
      (status r = OPTIMAL \<longrightarrow>
         (\<forall>\<sigma> v. feasible m \<sigma> \<and> objective m = Some v \<longrightarrow> ObjectiveValue r \<le> \<sigma> v)) \<and>
      (status r = INFEASIBLE \<longrightarrow> (\<forall>\<sigma>. \<not> feasible m \<sigma>)))"

subsection \<open>Building the model\<close>

definition earliest_start :: int where
  "earliest_start = 0"

definition horizon :: int where
  "horizon = 60 * 24"

text \<open>\<^verbatim>\<open>people_map = {p['name']: i for i, p in enumerate(personnel)}\<close>: a later person of
  the same name replaces the index of an earlier one.\<close>

definition people_map :: "person list \<Rightarrow> (string \<rightharpoonup> int)" where
  "people_map personnel =
     fold (\<lambda>(i, p) mp. mp(name p \<mapsto> int i)) (enumerate 0 personnel) Map.empty"

text \<open>The key looked up is the name of a person of the list, so it is in the map
  (\<open>people_map_defined\<close> below) and the KeyError of a missing key cannot arise.\<close>

definition valid_people_indices :: "person list \<Rightarrow> string \<Rightarrow> int list" where
  "valid_people_indices personnel required_workstream =
     map (\<lambda>p. the (people_map personnel (name p)))
       (filter (\<lambda>p. workstream p = required_workstream) personnel)"

text \<open>A sub-task: the dict appended to \<^verbatim>\<open>all_subtasks\<close>.\<close>

record subtask =
  scenario_name :: string
  sub_workstream :: string
  duration :: int
  start_var :: var
  end_var :: var
  person_var :: var
  interval :: interval_var

text \<open>The body of the loop over \<^verbatim>\<open>enumerate(scenario['required_workstreams'])\<close>.  When
  no person has the required workstream the source prints a message and adds no
  constraint.\<close>

definition subtask_step ::
  "person list \<Rightarrow> nat \<Rightarrow> scenario \<Rightarrow> nat \<times> string \<Rightarrow> cp_model \<times> subtask list
     \<Rightarrow> cp_model \<times> subtask list" where
  "subtask_step personnel scenario_idx sc = (\<lambda>(ws_idx, required_workstream) (m, all_subtasks).
     let assigned_person_var = PersonVar scenario_idx ws_idx;
         m = NewIntVar 0 (int (length personnel) - 1) assigned_person_var m;
         valid = valid_people_indices personnel required_workstream;
         m = (if valid \<noteq> [] then Add (AllowedAssignments assigned_person_var valid) m else m);
         iv = IntervalVar (StartVar scenario_idx) (duration_hours sc) (EndVar scenario_idx) None;
         m = Add (IntervalCt iv) m
     in (m, all_subtasks @
           [\<lparr>scenario_name = sc_name sc,
             sub_workstream = required_workstream,
             duration = duration_hours sc,
             start_var = StartVar scenario_idx,
             end_var = EndVar scenario_idx,
             person_var = assigned_person_var,
             interval = iv\<rparr>]))"

text \<open>The body of the loop over \<^verbatim>\<open>enumerate(scenarios)\<close>.\<close>

definition scenario_step ::
  "person list \<Rightarrow> nat \<times> scenario \<Rightarrow> cp_model \<times> subtask list \<Rightarrow> cp_model \<times> subtask list" where
  "scenario_step personnel = (\<lambda>(scenario_idx, sc) (m, all_subtasks).
     let m = NewIntVar earliest_start horizon (StartVar scenario_idx) m;
         m = NewIntVar earliest_start horizon (EndVar scenario_idx) m;
         m = Add (EqualPlus (EndVar scenario_idx) (StartVar scenario_idx) (duration_hours sc)) m
     in fold (subtask_step personnel scenario_idx sc)
          (enumerate 0 (required_workstreams sc)) (m, all_subtasks))"

text \<open>The body of the loop over \<^verbatim>\<open>range(len(personnel))\<close>, for the sub-task at position
  \<open>n\<close> of \<^verbatim>\<open>all_subtasks\<close>.\<close>

definition person_step ::
  "nat \<Rightarrow> subtask \<Rightarrow> nat \<Rightarrow> cp_model \<times> interval_var list list
     \<Rightarrow> cp_model \<times> interval_var list list" where
  "person_step n st person_index = (\<lambda>(m, person_to_intervals).
     let is_assigned_to_person = IsAssignedVar n person_index;
         m = NewBoolVar is_assigned_to_person m;
         m = Add (EqualIf (person_var st) (int person_index) is_assigned_to_person) m;
         m = Add (NotEqualIfNot (person_var st) (int person_index) is_assigned_to_person) m;
         optional_interval =
           IntervalVar (start_var st) (duration st) (end_var st) (Some is_assigned_to_person);
         m = Add (IntervalCt optional_interval) m
     in (m, person_to_intervals
              [person_index := person_to_intervals ! person_index @ [optional_interval]]))"

definition link_step ::
  "person list \<Rightarrow> nat \<times> subtask \<Rightarrow> cp_model \<times> interval_var list list
     \<Rightarrow> cp_model \<times> interval_var list list" where
  "link_step personnel = (\<lambda>(n, st). fold (person_step n st) [0..<length personnel])"

text \<open>The model as it stands when the solver is called, with \<^verbatim>\<open>all_subtasks\<close>.
  \<^verbatim>\<open>list(set(...))\<close> keeps one copy of each end variable, in some order; the
  maximum does not depend on the order.\<close>

definition build_model :: "scenario list \<Rightarrow> person list \<Rightarrow> cp_model \<times> subtask list" where
  "build_model scenarios personnel =
     (let (m, all_subtasks) = fold (scenario_step personnel) (enumerate 0 scenarios) (CpModel, []);
          (m, person_to_intervals) =
             fold (link_step personnel) (enumerate 0 all_subtasks)
               (m, map (\<lambda>_. []) personnel);
          m = fold (\<lambda>person_intervals. Add (NoOverlap person_intervals)) person_to_intervals m;
          all_end_vars = remdups (map end_var all_subtasks);
          m = NewIntVar 0 horizon MaxEndTime m;
          m = Add (MaxEquality MaxEndTime all_end_vars) m;
          m = Minimize MaxEndTime m
      in (m, all_subtasks))"

subsection \<open>Reading the answer\<close>

datatype py_error = IndexError

text \<open>\<^verbatim>\<open>personnel[person_index]\<close>: an index from \<open>0\<close> reads from the front, one from
  \<open>-1\<close> down to minus the length reads from the back, any other raises.\<close>

definition py_index :: "'a list \<Rightarrow> int \<Rightarrow> py_error + 'a" where
  "py_index xs i =
     (if 0 \<le> i \<and> i < int (length xs) then Inr (xs ! nat i)
      else if i < 0 \<and> - int (length xs) \<le> i then Inr (xs ! nat (int (length xs) + i))
      else Inl IndexError)"

text \<open>\<^verbatim>\<open>scenario_results\<close> is a dict, which keeps its keys in the order of their first
  insertion: an association list.\<close>

type_synonym results = "(string \<times> string list result_row) list"

fun append_to :: "string \<Rightarrow> string \<Rightarrow> string \<Rightarrow> results \<Rightarrow> results" where
  "append_to k p w [] = []"
| "append_to k p w ((k', res) # rest) =
     (if k' = k
      then (k', res\<lparr>Assigned_Persons := Assigned_Persons res @ [p],
                    Workstreams := Workstreams res @ [w]\<rparr>) # rest
      else (k', res) # append_to k p w rest)"

text \<open>The body of the loop over \<^verbatim>\<open>all_subtasks\<close> in the result extraction.\<close>

definition extract_step ::
  "cp_solver \<Rightarrow> person list \<Rightarrow> string \<Rightarrow> subtask \<Rightarrow> results \<Rightarrow> py_error + results" where
  "extract_step solver personnel start_date st scenario_results =
     (let start_hour_offset = Value solver (start_var st);
          end_hour_offset = Value solver (end_var st);
          person_index = Value solver (person_var st)
      in case py_index personnel person_index of
           Inl e \<Rightarrow> Inl e
         | Inr p \<Rightarrow>
             let assigned_person = name p;
                 assigned_workstream = workstream p;
                 scenario_results =
                   (if scenario_name st \<notin> fst ` set scenario_results
                    then scenario_results @
                      [(scenario_name st,
                        \<lparr>Scenario = scenario_name st,
                         Duration_Hours = duration st,
                         Start_Time = Timestamp start_date start_hour_offset,
                         End_Time = Timestamp start_date end_hour_offset,
                         Assigned_Persons = [],
                         Workstreams = []\<rparr>)]
                    else scenario_results)
             in Inr (append_to (scenario_name st) assigned_person assigned_workstream
                       scenario_results))"

fun extract_loop ::
  "cp_solver \<Rightarrow> person list \<Rightarrow> string \<Rightarrow> subtask list \<Rightarrow> results \<Rightarrow> py_error + results" where
  "extract_loop solver personnel start_date [] scenario_results = Inr scenario_results"
| "extract_loop solver personnel start_date (st # sts) scenario_results =
     (case extract_step solver personnel start_date st scenario_results of
        Inl e \<Rightarrow> Inl e
      | Inr scenario_results' \<Rightarrow> extract_loop solver personnel start_date sts scenario_results')"

text \<open>\<^verbatim>\<open>", ".join(xs)\<close>\<close>

fun join :: "string \<Rightarrow> string list \<Rightarrow> string" where
  "join sep [] = []"
| "join sep [x] = x"
| "join sep (x # y # ys) = x @ sep @ join sep (y # ys)"

text \<open>\<^verbatim>\<open>sorted\<close> on strings is the lexicographic order of the characters, which is
  the order of \<open>string\<close>.\<close>

definition format_row :: "string list result_row \<Rightarrow> string result_row" where
  "format_row res =
     \<lparr>Scenario = Scenario res,
      Duration_Hours = Duration_Hours res,
      Start_Time = Start_Time res,
      End_Time = End_Time res,
      Assigned_Persons = join '', '' (sort (Assigned_Persons res)),
      Workstreams = join '', '' (sort (Workstreams res))\<rparr>"

text \<open>
  \<^verbatim>\<open>find_optimal_schedule\<close>.  The data frame is the list of its rows, the empty data
  frame the empty list, \<^verbatim>\<open>None\<close> the value \<open>None\<close>; the division by \<^verbatim>\<open>24.0\<close> is taken
  exact.  The start date is a date in the form \<^verbatim>\<open>'%Y-%m-%d'\<close>, as the caller produces it
  with \<^verbatim>\<open>strftime\<close>, so that parsing it does not raise.
\<close>

definition find_optimal_schedule ::
  "(cp_model \<Rightarrow> cp_solver) \<Rightarrow> scenario list \<Rightarrow> person list \<Rightarrow> string
     \<Rightarrow> py_error + (string result_row list \<times> real option)" where
  "find_optimal_schedule Solve scenarios personnel start_date_str =
     (let (model, all_subtasks) = build_model scenarios personnel;
          solver = Solve model
      in if status solver = OPTIMAL \<or> status solver = FEASIBLE then
           (case extract_loop solver personnel start_date_str all_subtasks [] of
              Inl e \<Rightarrow> Inl e
            | Inr scenario_results \<Rightarrow>
                Inr (map (format_row \<circ> snd) scenario_results,
                     Some (real_of_int (ObjectiveValue solver) / 24)))
         else Inr ([], None))"

subsection \<open>The caller in app.py\<close>

text \<open>What the handler of the button shows: the message of the emptiness check, the
  message for an empty data frame, or the schedule with its total.\<close>

datatype app_view =
    Tables_Empty_Message
  | No_Schedule_Message
  | Schedule_View "string result_row list" "real option"

definition app ::
  "(cp_model \<Rightarrow> cp_solver) \<Rightarrow> scenario list \<Rightarrow> person list \<Rightarrow> string
     \<Rightarrow> py_error + app_view" where
  "app Solve scenario_data personnel_data start_date_str =
     (if personnel_data = [] \<or> scenario_data = [] \<or>
         length personnel_data = 0 \<or> length scenario_data = 0
      then Inr Tables_Empty_Message
      else case find_optimal_schedule Solve scenario_data personnel_data start_date_str of
             Inl e \<Rightarrow> Inl e
           | Inr (schedule_df, total_days) \<Rightarrow>
               if schedule_df = [] then Inr No_Schedule_Message
               else Inr (Schedule_View schedule_df total_days))"

subsection \<open>Closed forms of the loops, concrete inputs and renamings\<close>

text \<open>
  What each loop body adds to the model does not depend on the model built so far, so
  every loop has a closed form: the lists below.  The concrete inputs and answers that
  the witnesses and counterexamples evaluate follow (the calibration input of the
  specification among them), then the closed form of the result extraction, and the
  renaming of variables that relates the model of a scenario list to the model of the
  list with one scenario more.
\<close>

text \<open>For scenario \<open>i\<close>: the sub-task of one required workstream, and the constraints,
  sub-tasks and variables the loop body adds.\<close>

definition the_subtask :: "nat \<Rightarrow> scenario \<Rightarrow> nat \<times> string \<Rightarrow> subtask" where
  "the_subtask i sc = (\<lambda>(k, w).
     \<lparr>scenario_name = sc_name sc, sub_workstream = w, duration = duration_hours sc,
      start_var = StartVar i, end_var = EndVar i, person_var = PersonVar i k,
      interval = IntervalVar (StartVar i) (duration_hours sc) (EndVar i) None\<rparr>)"

definition subtask_constrs :: "person list \<Rightarrow> nat \<Rightarrow> scenario \<Rightarrow> nat \<times> string \<Rightarrow> constr list" where
  "subtask_constrs P i sc = (\<lambda>(k, w).
     (if valid_people_indices P w \<noteq> []
      then [AllowedAssignments (PersonVar i k) (valid_people_indices P w)] else []) @
     [IntervalCt (IntervalVar (StartVar i) (duration_hours sc) (EndVar i) None)])"

definition scenario_subtasks :: "nat \<times> scenario \<Rightarrow> subtask list" where
  "scenario_subtasks = (\<lambda>(i, sc). map (the_subtask i sc) (enumerate 0 (required_workstreams sc)))"

definition scenario_vars :: "person list \<Rightarrow> nat \<times> scenario \<Rightarrow> (var \<times> int \<times> int) list" where
  "scenario_vars P = (\<lambda>(i, sc).
     [(StartVar i, 0, horizon), (EndVar i, 0, horizon)] @
     map (\<lambda>(k, w). (PersonVar i k, 0, int (length P) - 1)) (enumerate 0 (required_workstreams sc)))"

definition scenario_constrs :: "person list \<Rightarrow> nat \<times> scenario \<Rightarrow> constr list" where
  "scenario_constrs P = (\<lambda>(i, sc).
     EqualPlus (EndVar i) (StartVar i) (duration_hours sc) #
     concat (map (subtask_constrs P i sc) (enumerate 0 (required_workstreams sc))))"

text \<open>For the sub-task at position \<open>n\<close> and person \<open>j\<close>: the optional interval and the
  constraints added; then the list of intervals of person \<open>j\<close> and the list of all
  sub-tasks.\<close>

definition optional_interval_of :: "nat \<times> subtask \<Rightarrow> nat \<Rightarrow> interval_var" where
  "optional_interval_of = (\<lambda>(n, st) j.
     IntervalVar (start_var st) (duration st) (end_var st) (Some (IsAssignedVar n j)))"

definition person_constrs :: "nat \<times> subtask \<Rightarrow> nat \<Rightarrow> constr list" where
  "person_constrs nst j =
     [EqualIf (person_var (snd nst)) (int j) (IsAssignedVar (fst nst) j),
      NotEqualIfNot (person_var (snd nst)) (int j) (IsAssignedVar (fst nst) j),
      IntervalCt (optional_interval_of nst j)]"

definition intervals_of_person :: "subtask list \<Rightarrow> nat \<Rightarrow> interval_var list" where
  "intervals_of_person subs j = map (\<lambda>nt. optional_interval_of nt j) (enumerate 0 subs)"

definition all_subtasks_of :: "scenario list \<Rightarrow> subtask list" where
  "all_subtasks_of S = concat (map scenario_subtasks (enumerate 0 S))"

text \<open>The calibration input of the specification, an optimal answer for it, and the
  schedule returned when the first scenario starts at hour \<open>s0\<close> and the second at
  \<open>s1\<close>.\<close>

definition calibration_personnel :: "person list" where
  "calibration_personnel =
     [\<lparr>name = ''Alice'', workstream = ''Finance''\<rparr>,
      \<lparr>name = ''Bob'', workstream = ''Logistics''\<rparr>,
      \<lparr>name = ''Charlie'', workstream = ''IT''\<rparr>]"

definition calibration_scenarios :: "scenario list" where
  "calibration_scenarios =
     [\<lparr>sc_name = ''P2P End-to-End'', duration_hours = 12,
       required_workstreams = [''Finance'', ''Logistics'', ''IT'']\<rparr>,
      \<lparr>sc_name = ''Invoice Posting'', duration_hours = 6,
       required_workstreams = [''Finance'']\<rparr>]"

definition calibration_values :: assignment where
  "calibration_values v =
     (case v of
        StartVar i \<Rightarrow> if i = 0 then 0 else 12
      | EndVar i \<Rightarrow> if i = 0 then 12 else 18
      | PersonVar i k \<Rightarrow> if i = 0 then int k else 0
      | IsAssignedVar n j \<Rightarrow> if (n = 3 \<and> j = 0) \<or> (n < 3 \<and> n = j) then 1 else 0
      | MaxEndTime \<Rightarrow> 18)"

definition calibration_answer :: cp_solver where
  "calibration_answer =
     \<lparr>status = OPTIMAL, Value = calibration_values, ObjectiveValue = 18\<rparr>"

definition calibration_schedule :: "string \<Rightarrow> int \<Rightarrow> int \<Rightarrow> string result_row list" where
  "calibration_schedule d s0 s1 =
     [\<lparr>Scenario = ''P2P End-to-End'', Duration_Hours = 12,
       Start_Time = Timestamp d s0, End_Time = Timestamp d (s0 + 12),
       Assigned_Persons = ''Alice, Bob, Charlie'', Workstreams = ''Finance, IT, Logistics''\<rparr>,
      \<lparr>Scenario = ''Invoice Posting'', Duration_Hours = 6,
       Start_Time = Timestamp d s1, End_Time = Timestamp d (s1 + 6),
       Assigned_Persons = ''Alice'', Workstreams = ''Finance''\<rparr>]"

text \<open>A scenario that requires Finance twice, with two Finance persons.\<close>

definition pair_personnel :: "person list" where
  "pair_personnel =
     [\<lparr>name = ''Alice'', workstream = ''Finance''\<rparr>,
      \<lparr>name = ''Dana'', workstream = ''Finance''\<rparr>]"

definition pair_scenarios :: "scenario list" where
  "pair_scenarios =
     [\<lparr>sc_name = ''Month-End Close'', duration_hours = 4,
       required_workstreams = [''Finance'', ''Finance'']\<rparr>]"

definition pair_values :: assignment where
  "pair_values v =
     (case v of
        StartVar i \<Rightarrow> 0
      | EndVar i \<Rightarrow> 4
      | PersonVar i k \<Rightarrow> int k
      | IsAssignedVar n j \<Rightarrow> if n = j then 1 else 0
      | MaxEndTime \<Rightarrow> 4)"

definition pair_answer :: cp_solver where
  "pair_answer = \<lparr>status = OPTIMAL, Value = pair_values, ObjectiveValue = 4\<rparr>"

text \<open>A scenario that requires a workstream nobody has.\<close>

definition unstaffed_personnel :: "person list" where
  "unstaffed_personnel = [\<lparr>name = ''Alice'', workstream = ''Finance''\<rparr>]"

definition unstaffed_scenarios :: "scenario list" where
  "unstaffed_scenarios =
     [\<lparr>sc_name = ''Server Audit'', duration_hours = 1, required_workstreams = [''IT'']\<rparr>]"

definition unstaffed_values :: assignment where
  "unstaffed_values v =
     (case v of
        StartVar i \<Rightarrow> 0
      | EndVar i \<Rightarrow> 1
      | PersonVar i k \<Rightarrow> 0
      | IsAssignedVar n j \<Rightarrow> 1
      | MaxEndTime \<Rightarrow> 1)"

definition unstaffed_answer :: cp_solver where
  "unstaffed_answer = \<lparr>status = OPTIMAL, Value = unstaffed_values, ObjectiveValue = 1\<rparr>"

definition unstaffed_schedule :: "string \<Rightarrow> string result_row list" where
  "unstaffed_schedule d =
     [\<lparr>Scenario = ''Server Audit'', Duration_Hours = 1,
       Start_Time = Timestamp d 0, End_Time = Timestamp d 1,
       Assigned_Persons = ''Alice'', Workstreams = ''Finance''\<rparr>]"

text \<open>A scenario that requires a covered and an uncovered workstream.\<close>

definition mixed_personnel :: "person list" where
  "mixed_personnel =
     [\<lparr>name = ''Alice'', workstream = ''Finance''\<rparr>,
      \<lparr>name = ''Bob'', workstream = ''Logistics''\<rparr>]"

definition mixed_scenarios :: "scenario list" where
  "mixed_scenarios =
     [\<lparr>sc_name = ''System Rollout'', duration_hours = 2,
       required_workstreams = [''Finance'', ''IT'']\<rparr>]"

definition mixed_values :: assignment where
  "mixed_values v =
     (case v of
        StartVar i \<Rightarrow> 0
      | EndVar i \<Rightarrow> 2
      | PersonVar i k \<Rightarrow> int k
      | IsAssignedVar n j \<Rightarrow> if n = j then 1 else 0
      | MaxEndTime \<Rightarrow> 2)"

definition mixed_answer :: cp_solver where
  "mixed_answer = \<lparr>status = OPTIMAL, Value = mixed_values, ObjectiveValue = 2\<rparr>"

text \<open>A scenario with sub-tasks followed by one without required workstreams.\<close>

definition skipped_personnel :: "person list" where
  "skipped_personnel = [\<lparr>name = ''Alice'', workstream = ''Finance''\<rparr>]"

definition skipped_scenarios :: "scenario list" where
  "skipped_scenarios =
     [\<lparr>sc_name = ''Ledger Review'', duration_hours = 1, required_workstreams = [''Finance'']\<rparr>,
      \<lparr>sc_name = ''Unparsed Row'', duration_hours = 5, required_workstreams = []\<rparr>]"

definition skipped_values :: assignment where
  "skipped_values v =
     (case v of
        StartVar i \<Rightarrow> 0
      | EndVar i \<Rightarrow> if i = 0 then 1 else 5
      | PersonVar i k \<Rightarrow> 0
      | IsAssignedVar n j \<Rightarrow> 1
      | MaxEndTime \<Rightarrow> 1)"

definition skipped_answer :: cp_solver where
  "skipped_answer = \<lparr>status = OPTIMAL, Value = skipped_values, ObjectiveValue = 1\<rparr>"

text \<open>An answer that reports infeasibility, and one that reports a solution of all
  zeros.\<close>

definition no_solution_answer :: cp_solver where
  "no_solution_answer = \<lparr>status = INFEASIBLE, Value = (\<lambda>v. 0), ObjectiveValue = 0\<rparr>"

definition zero_answer :: cp_solver where
  "zero_answer = \<lparr>status = OPTIMAL, Value = (\<lambda>v. 0), ObjectiveValue = 0\<rparr>"

definition mixed_schedule :: "string \<Rightarrow> string result_row list" where
  "mixed_schedule d =
     [\<lparr>Scenario = ''System Rollout'', Duration_Hours = 2,
       Start_Time = Timestamp d 0, End_Time = Timestamp d 2,
       Assigned_Persons = ''Alice, Bob'', Workstreams = ''Finance, Logistics''\<rparr>]"

text \<open>
  The closed form of the extraction loop: the keys in the order of their first
  occurrence, the sub-tasks of a name, the person at the solved index, and the entry of a
  name.
\<close>

definition keys_in_order :: "'a list \<Rightarrow> 'a list" where
  "keys_in_order xs = rev (remdups (rev xs))"

definition named :: "subtask list \<Rightarrow> string \<Rightarrow> subtask list" where
  "named sts k = filter (\<lambda>st. scenario_name st = k) sts"

definition assigned :: "cp_solver \<Rightarrow> person list \<Rightarrow> subtask \<Rightarrow> person" where
  "assigned solver personnel st = personnel ! nat (Value solver (person_var st))"

definition result_for ::
  "cp_solver \<Rightarrow> person list \<Rightarrow> string \<Rightarrow> subtask list \<Rightarrow> string \<Rightarrow> string list result_row" where
  "result_for solver personnel d sts k =
     \<lparr>Scenario = k,
      Duration_Hours = duration (hd (named sts k)),
      Start_Time = Timestamp d (Value solver (start_var (hd (named sts k)))),
      End_Time = Timestamp d (Value solver (end_var (hd (named sts k)))),
      Assigned_Persons = map (\<lambda>st. name (assigned solver personnel st)) (named sts k),
      Workstreams = map (\<lambda>st. workstream (assigned solver personnel st)) (named sts k)\<rparr>"

definition results_of :: "cp_solver \<Rightarrow> person list \<Rightarrow> string \<Rightarrow> subtask list \<Rightarrow> results" where
  "results_of solver personnel d sts =
     map (\<lambda>k. (k, result_for solver personnel d sts k)) (keys_in_order (map scenario_name sts))"

text \<open>Two scenarios of the same name.\<close>

definition merged_personnel :: "person list" where
  "merged_personnel =
     [\<lparr>name = ''Alice'', workstream = ''Finance''\<rparr>,
      \<lparr>name = ''Bob'', workstream = ''Logistics''\<rparr>]"

definition merged_scenarios :: "scenario list" where
  "merged_scenarios =
     [\<lparr>sc_name = ''Cutover'', duration_hours = 3, required_workstreams = [''Finance'']\<rparr>,
      \<lparr>sc_name = ''Cutover'', duration_hours = 2, required_workstreams = [''Logistics'']\<rparr>]"

definition merged_values :: assignment where
  "merged_values v =
     (case v of
        StartVar i \<Rightarrow> 0
      | EndVar i \<Rightarrow> if i = 0 then 3 else 2
      | PersonVar i k \<Rightarrow> int i
      | IsAssignedVar n j \<Rightarrow> if n = j then 1 else 0
      | MaxEndTime \<Rightarrow> 3)"

definition merged_answer :: cp_solver where
  "merged_answer = \<lparr>status = OPTIMAL, Value = merged_values, ObjectiveValue = 3\<rparr>"

definition merged_schedule :: "string \<Rightarrow> string result_row list" where
  "merged_schedule d =
     [\<lparr>Scenario = ''Cutover'', Duration_Hours = 3,
       Start_Time = Timestamp d 0, End_Time = Timestamp d 3,
       Assigned_Persons = ''Alice, Bob'', Workstreams = ''Finance, Logistics''\<rparr>]"

text \<open>
  Inserting a scenario at index \<open>i\<close> moves the scenarios from \<open>i\<close> on up by one.  \<open>shift_var\<close>
  renames the variables accordingly, the \<open>rename\<close> functions carry a renaming through
  constraints, domains and sub-tasks, and \<open>with_scenario\<close> extends an assignment of the
  smaller model by values for the start and end variable of the inserted scenario.
\<close>

definition bump :: "nat \<Rightarrow> nat \<Rightarrow> nat" where
  "bump i j = (if j < i then j else Suc j)"

fun shift_var :: "nat \<Rightarrow> var \<Rightarrow> var" where
  "shift_var i (StartVar j) = StartVar (bump i j)"
| "shift_var i (EndVar j) = EndVar (bump i j)"
| "shift_var i (PersonVar j k) = PersonVar (bump i j) k"
| "shift_var i (IsAssignedVar n p) = IsAssignedVar n p"
| "shift_var i MaxEndTime = MaxEndTime"

fun rename_interval :: "(var \<Rightarrow> var) \<Rightarrow> interval_var \<Rightarrow> interval_var" where
  "rename_interval f (IntervalVar s d e p) = IntervalVar (f s) d (f e) (map_option f p)"

fun rename_constr :: "(var \<Rightarrow> var) \<Rightarrow> constr \<Rightarrow> constr" where
  "rename_constr f (EqualPlus x y c) = EqualPlus (f x) (f y) c"
| "rename_constr f (AllowedAssignments x vs) = AllowedAssignments (f x) vs"
| "rename_constr f (IntervalCt iv) = IntervalCt (rename_interval f iv)"
| "rename_constr f (EqualIf x c b) = EqualIf (f x) c (f b)"
| "rename_constr f (NotEqualIfNot x c b) = NotEqualIfNot (f x) c (f b)"
| "rename_constr f (NoOverlap ivs) = NoOverlap (map (rename_interval f) ivs)"
| "rename_constr f (MaxEquality t xs) = MaxEquality (f t) (map f xs)"

definition rename_domain :: "(var \<Rightarrow> var) \<Rightarrow> var \<times> int \<times> int \<Rightarrow> var \<times> int \<times> int" where
  "rename_domain f = (\<lambda>(v, lb, ub). (f v, lb, ub))"

definition rename_subtask :: "(var \<Rightarrow> var) \<Rightarrow> subtask \<Rightarrow> subtask" where
  "rename_subtask f st =
     st\<lparr>start_var := f (start_var st), end_var := f (end_var st),
        person_var := f (person_var st), interval := rename_interval f (interval st)\<rparr>"

definition unbump :: "nat \<Rightarrow> nat \<Rightarrow> nat" where
  "unbump i j = (if j < i then j else j - 1)"

definition with_scenario :: "nat \<Rightarrow> int \<Rightarrow> assignment \<Rightarrow> assignment" where
  "with_scenario i d \<sigma> v =
     (case v of
        StartVar j \<Rightarrow> if j = i then (if 0 \<le> d then 0 else - d) else \<sigma> (StartVar (unbump i j))
      | EndVar j \<Rightarrow> if j = i then (if 0 \<le> d then d else 0) else \<sigma> (EndVar (unbump i j))
      | PersonVar j k \<Rightarrow> \<sigma> (PersonVar (unbump i j) k)
      | IsAssignedVar n p \<Rightarrow> \<sigma> (IsAssignedVar n p)
      | MaxEndTime \<Rightarrow> \<sigma> MaxEndTime)"

text \<open>One scenario alone, the same followed by a scenario of 2000 hours without
  required workstreams, and the schedule of the first.\<close>

definition base_scenarios :: "scenario list" where
  "base_scenarios =
     [\<lparr>sc_name = ''Ledger Review'', duration_hours = 1, required_workstreams = [''Finance'']\<rparr>]"

definition long_scenarios :: "scenario list" where
  "long_scenarios =
     [\<lparr>sc_name = ''Ledger Review'', duration_hours = 1, required_workstreams = [''Finance'']\<rparr>,
      \<lparr>sc_name = ''Unparsed Row'', duration_hours = 2000, required_workstreams = []\<rparr>]"

definition ledger_schedule :: "string \<Rightarrow> string result_row list" where
  "ledger_schedule d =
     [\<lparr>Scenario = ''Ledger Review'', Duration_Hours = 1,
       Start_Time = Timestamp d 0, End_Time = Timestamp d 1,
       Assigned_Persons = ''Alice'', Workstreams = ''Finance''\<rparr>]"

section \<open>The model that is built\<close>

subsection \<open>The loops, one step and then the whole loop\<close>

lemma subtask_step_vars:
  "variables (fst (subtask_step P i sc kw st)) =
     variables (fst st) @ [(PersonVar i (fst kw), 0, int (length P) - 1)]"
  by (cases kw; cases st) (simp add: subtask_step_def NewIntVar_def Add_def Let_def)

lemma subtask_step_constrs:
  "constraints (fst (subtask_step P i sc kw st)) = constraints (fst st) @ subtask_constrs P i sc kw"
  by (cases kw; cases st)
    (simp add: subtask_step_def subtask_constrs_def NewIntVar_def Add_def Let_def)

lemma subtask_step_objective:
  "objective (fst (subtask_step P i sc kw st)) = objective (fst st)"
  by (cases kw; cases st) (simp add: subtask_step_def NewIntVar_def Add_def Let_def)

lemma subtask_step_subtasks:
  "snd (subtask_step P i sc kw st) = snd st @ [the_subtask i sc kw]"
  by (cases kw; cases st) (simp add: subtask_step_def the_subtask_def Let_def)

lemma fold_subtask_step_vars:
  "variables (fst (fold (subtask_step P i sc) kws st)) =
     variables (fst st) @ map (\<lambda>(k, w). (PersonVar i k, 0, int (length P) - 1)) kws"
  by (induction kws arbitrary: st) (auto simp: subtask_step_vars)

lemma fold_subtask_step_constrs:
  "constraints (fst (fold (subtask_step P i sc) kws st)) =
     constraints (fst st) @ concat (map (subtask_constrs P i sc) kws)"
  by (induction kws arbitrary: st) (auto simp: subtask_step_constrs)

lemma fold_subtask_step_objective:
  "objective (fst (fold (subtask_step P i sc) kws st)) = objective (fst st)"
  by (induction kws arbitrary: st) (auto simp: subtask_step_objective)

lemma fold_subtask_step_subtasks:
  "snd (fold (subtask_step P i sc) kws st) = snd st @ map (the_subtask i sc) kws"
  by (induction kws arbitrary: st) (auto simp: subtask_step_subtasks)

lemma scenario_step_vars:
  "variables (fst (scenario_step P isc st)) = variables (fst st) @ scenario_vars P isc"
  by (cases isc; cases st)
    (simp add: scenario_step_def scenario_vars_def fold_subtask_step_vars NewIntVar_def Add_def
      Let_def earliest_start_def)

lemma scenario_step_constrs:
  "constraints (fst (scenario_step P isc st)) = constraints (fst st) @ scenario_constrs P isc"
  by (cases isc; cases st)
    (simp add: scenario_step_def scenario_constrs_def fold_subtask_step_constrs NewIntVar_def
      Add_def Let_def)

lemma scenario_step_objective:
  "objective (fst (scenario_step P isc st)) = objective (fst st)"
  by (cases isc; cases st)
    (simp add: scenario_step_def fold_subtask_step_objective NewIntVar_def Add_def Let_def)

lemma scenario_step_subtasks:
  "snd (scenario_step P isc st) = snd st @ scenario_subtasks isc"
  by (cases isc; cases st)
    (simp add: scenario_step_def scenario_subtasks_def fold_subtask_step_subtasks Let_def)

lemma fold_scenario_step_vars:
  "variables (fst (fold (scenario_step P) iscs st)) =
     variables (fst st) @ concat (map (scenario_vars P) iscs)"
  by (induction iscs arbitrary: st) (auto simp: scenario_step_vars)

lemma fold_scenario_step_constrs:
  "constraints (fst (fold (scenario_step P) iscs st)) =
     constraints (fst st) @ concat (map (scenario_constrs P) iscs)"
  by (induction iscs arbitrary: st) (auto simp: scenario_step_constrs)

lemma fold_scenario_step_objective:
  "objective (fst (fold (scenario_step P) iscs st)) = objective (fst st)"
  by (induction iscs arbitrary: st) (auto simp: scenario_step_objective)

lemma fold_scenario_step_subtasks:
  "snd (fold (scenario_step P) iscs st) = snd st @ concat (map scenario_subtasks iscs)"
  by (induction iscs arbitrary: st) (auto simp: scenario_step_subtasks)

text \<open>The loop over the sub-tasks and the persons.\<close>

lemma person_step_vars:
  "variables (fst (person_step n t j st)) = variables (fst st) @ [(IsAssignedVar n j, 0, 1)]"
  by (cases st) (simp add: person_step_def NewBoolVar_def NewIntVar_def Add_def Let_def)

lemma person_step_constrs:
  "constraints (fst (person_step n t j st)) = constraints (fst st) @ person_constrs (n, t) j"
  by (cases st)
    (simp add: person_step_def person_constrs_def optional_interval_of_def NewBoolVar_def
      NewIntVar_def Add_def Let_def)

lemma person_step_objective:
  "objective (fst (person_step n t j st)) = objective (fst st)"
  by (cases st) (simp add: person_step_def NewBoolVar_def NewIntVar_def Add_def Let_def)

lemma person_step_intervals:
  "snd (person_step n t j st) = (snd st)[j := snd st ! j @ [optional_interval_of (n, t) j]]"
  by (cases st) (simp add: person_step_def optional_interval_of_def Let_def)

lemma fold_person_step_vars:
  "variables (fst (fold (person_step n t) js st)) =
     variables (fst st) @ map (\<lambda>j. (IsAssignedVar n j, 0, 1)) js"
  by (induction js arbitrary: st) (auto simp: person_step_vars)

lemma fold_person_step_constrs:
  "constraints (fst (fold (person_step n t) js st)) =
     constraints (fst st) @ concat (map (person_constrs (n, t)) js)"
  by (induction js arbitrary: st) (auto simp: person_step_constrs)

lemma fold_person_step_objective:
  "objective (fst (fold (person_step n t) js st)) = objective (fst st)"
  by (induction js arbitrary: st) (auto simp: person_step_objective)

lemma fold_person_step_length:
  "length (snd (fold (person_step n t) js st)) = length (snd st)"
  by (induction js arbitrary: st) (auto simp: person_step_intervals)

lemma fold_person_step_nth:
  "distinct js \<Longrightarrow> j < length (snd st) \<Longrightarrow>
   snd (fold (person_step n t) js st) ! j =
     (if j \<in> set js then snd st ! j @ [optional_interval_of (n, t) j] else snd st ! j)"
proof (induction js arbitrary: st)
  case Nil
  then show ?case by simp
next
  case (Cons a js)
  have len: "j < length (snd (person_step n t a st))"
    using Cons.prems by (simp add: person_step_intervals)
  show ?case
  proof (cases "a = j")
    case True
    then show ?thesis
      using Cons.prems Cons.IH [OF _ len] by (simp add: person_step_intervals)
  next
    case False
    then show ?thesis
      using Cons.prems Cons.IH [OF _ len] by (simp add: person_step_intervals)
  qed
qed

lemma link_step_vars:
  "variables (fst (link_step P nt st)) =
     variables (fst st) @ map (\<lambda>j. (IsAssignedVar (fst nt) j, 0, 1)) [0..<length P]"
  by (cases nt) (simp add: link_step_def fold_person_step_vars)

lemma link_step_constrs:
  "constraints (fst (link_step P nt st)) =
     constraints (fst st) @ concat (map (person_constrs nt) [0..<length P])"
  by (cases nt) (simp add: link_step_def fold_person_step_constrs)

lemma link_step_objective:
  "objective (fst (link_step P nt st)) = objective (fst st)"
  by (cases nt) (simp add: link_step_def fold_person_step_objective)

lemma link_step_length:
  "length (snd (link_step P nt st)) = length (snd st)"
  by (cases nt) (simp add: link_step_def fold_person_step_length)

lemma link_step_nth:
  "j < length (snd st) \<Longrightarrow> length (snd st) = length P \<Longrightarrow>
   snd (link_step P nt st) ! j = snd st ! j @ [optional_interval_of nt j]"
  by (cases nt) (simp add: link_step_def fold_person_step_nth)

lemma fold_link_step_vars:
  "variables (fst (fold (link_step P) nts st)) =
     variables (fst st) @
     concat (map (\<lambda>nt. map (\<lambda>j. (IsAssignedVar (fst nt) j, 0, 1)) [0..<length P]) nts)"
  by (induction nts arbitrary: st) (auto simp: link_step_vars)

lemma fold_link_step_constrs:
  "constraints (fst (fold (link_step P) nts st)) =
     constraints (fst st) @
     concat (map (\<lambda>nt. concat (map (person_constrs nt) [0..<length P])) nts)"
  by (induction nts arbitrary: st) (auto simp: link_step_constrs)

lemma fold_link_step_objective:
  "objective (fst (fold (link_step P) nts st)) = objective (fst st)"
  by (induction nts arbitrary: st) (auto simp: link_step_objective)

lemma fold_link_step_length:
  "length (snd (fold (link_step P) nts st)) = length (snd st)"
  by (induction nts arbitrary: st) (auto simp: link_step_length)

lemma fold_link_step_nth:
  "j < length P \<Longrightarrow> length (snd st) = length P \<Longrightarrow>
   snd (fold (link_step P) nts st) ! j = snd st ! j @ map (\<lambda>nt. optional_interval_of nt j) nts"
proof (induction nts arbitrary: st)
  case Nil
  then show ?case by simp
next
  case (Cons nt nts)
  have len: "length (snd (link_step P nt st)) = length P"
    using Cons.prems by (simp add: link_step_length)
  show ?case
    using Cons.prems Cons.IH [OF Cons.prems(1) len]
    by (simp add: link_step_nth)
qed

lemma fold_Add_NoOverlap_vars:
  "variables (fold (\<lambda>ivs. Add (NoOverlap ivs)) pti m) = variables m"
  by (induction pti arbitrary: m) (auto simp: Add_def)

lemma fold_Add_NoOverlap_constrs:
  "constraints (fold (\<lambda>ivs. Add (NoOverlap ivs)) pti m) = constraints m @ map NoOverlap pti"
  by (induction pti arbitrary: m) (auto simp: Add_def)

subsection \<open>The model when the solver is called\<close>

lemma build_model_subtasks: "snd (build_model S P) = all_subtasks_of S"
  by (simp add: build_model_def all_subtasks_of_def Let_def split_beta fold_scenario_step_subtasks)

lemma build_model_objective: "objective (fst (build_model S P)) = Some MaxEndTime"
  by (simp add: build_model_def Let_def split_beta Minimize_def)

lemma build_model_vars:
  "variables (fst (build_model S P)) =
     concat (map (scenario_vars P) (enumerate 0 S)) @
     concat (map (\<lambda>nt. map (\<lambda>j. (IsAssignedVar (fst nt) j, 0, 1)) [0..<length P])
               (enumerate 0 (all_subtasks_of S))) @
     [(MaxEndTime, 0, horizon)]"
  by (simp add: build_model_def all_subtasks_of_def Let_def split_beta Minimize_def NewIntVar_def
      Add_def fold_Add_NoOverlap_vars fold_link_step_vars fold_scenario_step_vars
      fold_scenario_step_subtasks CpModel_def)

lemma person_to_intervals_closed:
  "snd (fold (link_step P) (enumerate 0 subs) (m, map (\<lambda>_. []) P)) =
     map (intervals_of_person subs) [0..<length P]"
  by (rule nth_equalityI)
    (simp_all add: fold_link_step_length fold_link_step_nth intervals_of_person_def)

lemma build_model_constrs:
  "constraints (fst (build_model S P)) =
     concat (map (scenario_constrs P) (enumerate 0 S)) @
     concat (map (\<lambda>nt. concat (map (person_constrs nt) [0..<length P]))
               (enumerate 0 (all_subtasks_of S))) @
     map (\<lambda>j. NoOverlap (intervals_of_person (all_subtasks_of S) j)) [0..<length P] @
     [MaxEquality MaxEndTime (remdups (map end_var (all_subtasks_of S)))]"
  by (simp add: build_model_def all_subtasks_of_def Let_def split_beta Minimize_def NewIntVar_def
      Add_def fold_Add_NoOverlap_constrs fold_link_step_constrs fold_scenario_step_constrs
      fold_scenario_step_subtasks CpModel_def person_to_intervals_closed comp_def)

subsection \<open>Which constraints and domains the model contains\<close>

lemma feasible_sat: "feasible m \<sigma> \<Longrightarrow> c \<in> set (constraints m) \<Longrightarrow> sat \<sigma> c"
  by (simp add: feasible_def list_all_iff)

lemma feasible_domain:
  "feasible m \<sigma> \<Longrightarrow> (v, lb, ub) \<in> set (variables m) \<Longrightarrow> lb \<le> \<sigma> v \<and> \<sigma> v \<le> ub"
  by (auto simp: feasible_def list_all_iff in_domain_def)

lemma in_enumerate0: "(i, x) \<in> set (enumerate 0 xs) \<longleftrightarrow> i < length xs \<and> xs ! i = x"
  by (auto simp: in_set_enumerate_eq)

lemma in_scenario_subtasks:
  "t \<in> set (scenario_subtasks (i, sc)) \<longleftrightarrow>
     (\<exists>k. k < length (required_workstreams sc) \<and>
        t = the_subtask i sc (k, required_workstreams sc ! k))"
  unfolding scenario_subtasks_def by (auto simp: in_enumerate0 image_iff)

lemma in_all_subtasks_of:
  "t \<in> set (all_subtasks_of S) \<longleftrightarrow>
     (\<exists>i k. i < length S \<and> k < length (required_workstreams (S ! i)) \<and>
        t = the_subtask i (S ! i) (k, required_workstreams (S ! i) ! k))"
proof -
  have "t \<in> set (all_subtasks_of S) \<longleftrightarrow>
        (\<exists>i. i < length S \<and> t \<in> set (scenario_subtasks (i, S ! i)))"
    unfolding all_subtasks_of_def by (auto simp: in_enumerate0)
  then show ?thesis
    by (simp add: in_scenario_subtasks)
qed

lemma model_has_EqualPlus:
  "i < length S \<Longrightarrow>
   EqualPlus (EndVar i) (StartVar i) (duration_hours (S ! i)) \<in> set (constraints (fst (build_model S P)))"
proof -
  assume "i < length S"
  then have "(i, S ! i) \<in> set (enumerate 0 S)" by (simp add: in_enumerate0)
  moreover have "EqualPlus (EndVar i) (StartVar i) (duration_hours (S ! i))
      \<in> set (scenario_constrs P (i, S ! i))"
    by (simp add: scenario_constrs_def)
  ultimately show ?thesis
    unfolding build_model_constrs by (simp only: set_append set_concat set_map) blast
qed

lemma model_has_start_end_domain:
  "i < length S \<Longrightarrow>
   (StartVar i, 0, horizon) \<in> set (variables (fst (build_model S P))) \<and>
   (EndVar i, 0, horizon) \<in> set (variables (fst (build_model S P)))"
proof -
  assume "i < length S"
  then have "(i, S ! i) \<in> set (enumerate 0 S)" by (simp add: in_enumerate0)
  moreover have "(StartVar i, 0, horizon) \<in> set (scenario_vars P (i, S ! i))"
    "(EndVar i, 0, horizon) \<in> set (scenario_vars P (i, S ! i))"
    by (simp_all add: scenario_vars_def)
  ultimately show ?thesis
    unfolding build_model_vars by (simp only: set_append set_concat set_map) blast
qed

lemma concat_map_subset: "x \<in> set xs \<Longrightarrow> set (f x) \<subseteq> set (concat (map f xs))"
  by auto

lemma scenario_parts_in_model:
  assumes "i < length S"
  shows "set (scenario_vars P (i, S ! i)) \<subseteq> set (variables (fst (build_model S P)))"
    and "set (scenario_constrs P (i, S ! i)) \<subseteq> set (constraints (fst (build_model S P)))"
proof -
  from assms have mem: "(i, S ! i) \<in> set (enumerate 0 S)" by (simp add: in_enumerate0)
  show "set (scenario_vars P (i, S ! i)) \<subseteq> set (variables (fst (build_model S P)))"
    unfolding build_model_vars set_append
    using concat_map_subset [OF mem, of "scenario_vars P"] by blast
  show "set (scenario_constrs P (i, S ! i)) \<subseteq> set (constraints (fst (build_model S P)))"
    unfolding build_model_constrs set_append
    using concat_map_subset [OF mem, of "scenario_constrs P"] by blast
qed

lemma subtask_parts_in_scenario:
  assumes "k < length (required_workstreams sc)"
  shows "(PersonVar i k, 0, int (length P) - 1) \<in> set (scenario_vars P (i, sc))"
    and "set (subtask_constrs P i sc (k, required_workstreams sc ! k))
           \<subseteq> set (scenario_constrs P (i, sc))"
proof -
  from assms have mem: "(k, required_workstreams sc ! k) \<in> set (enumerate 0 (required_workstreams sc))"
    by (simp add: in_enumerate0)
  have "(\<lambda>(k, w). (PersonVar i k, 0, int (length P) - 1)) (k, required_workstreams sc ! k)
      \<in> (\<lambda>(k, w). (PersonVar i k, 0, int (length P) - 1)) ` set (enumerate 0 (required_workstreams sc))"
    using mem by (rule imageI)
  then show "(PersonVar i k, 0, int (length P) - 1) \<in> set (scenario_vars P (i, sc))"
    by (simp add: scenario_vars_def)
  show "set (subtask_constrs P i sc (k, required_workstreams sc ! k))
           \<subseteq> set (scenario_constrs P (i, sc))"
    using concat_map_subset [OF mem, of "subtask_constrs P i sc"]
    by (simp add: scenario_constrs_def subset_insertI2)
qed

lemma model_has_person_domain:
  assumes "t \<in> set (all_subtasks_of S)"
  shows "(person_var t, 0, int (length P) - 1) \<in> set (variables (fst (build_model S P)))"
proof -
  from assms obtain i k where ik: "i < length S" "k < length (required_workstreams (S ! i))"
    and t: "t = the_subtask i (S ! i) (k, required_workstreams (S ! i) ! k)"
    unfolding in_all_subtasks_of by blast
  have "person_var t = PersonVar i k" by (simp add: t the_subtask_def)
  then show ?thesis
    using subtask_parts_in_scenario(1) [OF ik(2), of i P] scenario_parts_in_model(1) [OF ik(1), of P]
    by (simp add: subset_iff)
qed

lemma model_has_AllowedAssignments:
  assumes "t \<in> set (all_subtasks_of S)" and "valid_people_indices P (sub_workstream t) \<noteq> []"
  shows "AllowedAssignments (person_var t) (valid_people_indices P (sub_workstream t))
     \<in> set (constraints (fst (build_model S P)))"
proof -
  from assms obtain i k where ik: "i < length S" "k < length (required_workstreams (S ! i))"
    and t: "t = the_subtask i (S ! i) (k, required_workstreams (S ! i) ! k)"
    unfolding in_all_subtasks_of by blast
  have "AllowedAssignments (person_var t) (valid_people_indices P (sub_workstream t))
      \<in> set (subtask_constrs P i (S ! i) (k, required_workstreams (S ! i) ! k))"
    using assms(2) by (simp add: t the_subtask_def subtask_constrs_def)
  then show ?thesis
    using subtask_parts_in_scenario(2) [OF ik(2), of P i] scenario_parts_in_model(2) [OF ik(1), of P]
    by (meson subsetD)
qed

lemma model_has_interval:
  assumes "t \<in> set (all_subtasks_of S)"
  shows "IntervalCt (interval t) \<in> set (constraints (fst (build_model S P)))"
proof -
  from assms obtain i k where ik: "i < length S" "k < length (required_workstreams (S ! i))"
    and t: "t = the_subtask i (S ! i) (k, required_workstreams (S ! i) ! k)"
    unfolding in_all_subtasks_of by blast
  have "IntervalCt (interval t)
      \<in> set (subtask_constrs P i (S ! i) (k, required_workstreams (S ! i) ! k))"
    by (simp add: t the_subtask_def subtask_constrs_def)
  then show ?thesis
    using subtask_parts_in_scenario(2) [OF ik(2), of P i] scenario_parts_in_model(2) [OF ik(1), of P]
    by (meson subsetD)
qed

lemma model_has_person_constrs:
  assumes "n < length (all_subtasks_of S)" and "j < length P"
  shows "set (person_constrs (n, all_subtasks_of S ! n) j)
           \<subseteq> set (constraints (fst (build_model S P)))"
proof -
  let ?nt = "(n, all_subtasks_of S ! n)"
  from assms(1) have mem: "?nt \<in> set (enumerate 0 (all_subtasks_of S))"
    by (simp add: in_enumerate0)
  from assms(2) have j: "j \<in> set [0..<length P]" by simp
  have "set (person_constrs ?nt j) \<subseteq> set (concat (map (person_constrs ?nt) [0..<length P]))"
    using j by (rule concat_map_subset)
  also have "\<dots> \<subseteq> set (concat (map (\<lambda>nt. concat (map (person_constrs nt) [0..<length P]))
               (enumerate 0 (all_subtasks_of S))))"
    using concat_map_subset [OF mem, of "\<lambda>nt. concat (map (person_constrs nt) [0..<length P])"] .
  also have "\<dots> \<subseteq> set (constraints (fst (build_model S P)))"
    unfolding build_model_constrs set_append by blast
  finally show ?thesis .
qed

lemma model_has_indicator_domain:
  assumes "n < length (all_subtasks_of S)" and "j < length P"
  shows "(IsAssignedVar n j, 0, 1) \<in> set (variables (fst (build_model S P)))"
proof -
  let ?nt = "(n, all_subtasks_of S ! n)"
  let ?f = "\<lambda>nt. map (\<lambda>j. (IsAssignedVar (fst nt) j, 0::int, 1::int)) [0..<length P]"
  from assms(1) have mem: "?nt \<in> set (enumerate 0 (all_subtasks_of S))"
    by (simp add: in_enumerate0)
  have "(IsAssignedVar n j, 0, 1) \<in> set (?f ?nt)"
    using assms(2) by (simp add: image_iff)
  also have "set (?f ?nt) \<subseteq> set (concat (map ?f (enumerate 0 (all_subtasks_of S))))"
    using concat_map_subset [OF mem, of ?f] .
  also have "\<dots> \<subseteq> set (variables (fst (build_model S P)))"
    unfolding build_model_vars set_append by blast
  finally show ?thesis .
qed

lemma model_has_NoOverlap:
  "j < length P \<Longrightarrow>
   NoOverlap (intervals_of_person (all_subtasks_of S) j) \<in> set (constraints (fst (build_model S P)))"
  by (simp add: build_model_constrs)

lemma model_has_MaxEquality:
  "MaxEquality MaxEndTime (remdups (map end_var (all_subtasks_of S)))
     \<in> set (constraints (fst (build_model S P)))"
  by (simp add: build_model_constrs)

lemma model_has_max_domain:
  "(MaxEndTime, 0, horizon) \<in> set (variables (fst (build_model S P)))"
  by (simp add: build_model_vars)

section \<open>Properties of every answer that satisfies the model\<close>

lemma disjoint_pair_sym: "disjoint_pair \<sigma> i1 i2 \<Longrightarrow> disjoint_pair \<sigma> i2 i1"
  by (auto simp: disjoint_pair_def)

lemma no_overlap_nth:
  "no_overlap \<sigma> ivs \<Longrightarrow> a < b \<Longrightarrow> b < length ivs \<Longrightarrow> disjoint_pair \<sigma> (ivs ! a) (ivs ! b)"
proof (induction ivs arbitrary: a b)
  case Nil
  then show ?case by simp
next
  case (Cons i ivs)
  show ?case
  proof (cases a)
    case 0
    with Cons.prems obtain b' where b: "b = Suc b'" "b' < length ivs"
      by (cases b) auto
    with Cons.prems(1) have "disjoint_pair \<sigma> i (ivs ! b')"
      by (simp add: list_all_length)
    with 0 b show ?thesis by simp
  next
    case (Suc a')
    with Cons.prems obtain b' where b: "b = Suc b'" "a' < b'" "b' < length ivs"
      by (cases b) auto
    with Cons.prems(1) Cons.IH [of a' b'] Suc show ?thesis by simp
  qed
qed

lemma person_value_in_range:
  assumes "feasible (fst (build_model S P)) \<sigma>" and "t \<in> set (all_subtasks_of S)"
  shows "0 \<le> \<sigma> (person_var t) \<and> \<sigma> (person_var t) < int (length P)"
  using feasible_domain [OF assms(1) model_has_person_domain [OF assms(2)]] by simp

lemma indicator_set:
  assumes feas: "feasible (fst (build_model S P)) \<sigma>"
    and n: "n < length (all_subtasks_of S)"
    and j: "j < length P"
    and v: "\<sigma> (person_var (all_subtasks_of S ! n)) = int j"
  shows "\<sigma> (IsAssignedVar n j) = 1"
proof -
  have "NotEqualIfNot (person_var (all_subtasks_of S ! n)) (int j) (IsAssignedVar n j)
      \<in> set (person_constrs (n, all_subtasks_of S ! n) j)"
    by (simp add: person_constrs_def)
  with model_has_person_constrs [OF n j, of ] have
    "NotEqualIfNot (person_var (all_subtasks_of S ! n)) (int j) (IsAssignedVar n j)
      \<in> set (constraints (fst (build_model S P)))"
    by blast
  from feasible_sat [OF feas this] v show ?thesis by auto
qed

lemma intervals_of_person_nth:
  "n < length subs \<Longrightarrow>
   intervals_of_person subs j ! n =
     IntervalVar (start_var (subs ! n)) (duration (subs ! n)) (end_var (subs ! n))
       (Some (IsAssignedVar n j))"
  by (simp add: intervals_of_person_def optional_interval_of_def nth_enumerate_eq)

lemma no_double_booking_lt:
  assumes feas: "feasible (fst (build_model S P)) \<sigma>"
    and lt: "n1 < n2" and n2: "n2 < length (all_subtasks_of S)"
    and same: "\<sigma> (person_var (all_subtasks_of S ! n1)) = \<sigma> (person_var (all_subtasks_of S ! n2))"
  shows "\<sigma> (end_var (all_subtasks_of S ! n1)) \<le> \<sigma> (start_var (all_subtasks_of S ! n2)) \<or>
         \<sigma> (end_var (all_subtasks_of S ! n2)) \<le> \<sigma> (start_var (all_subtasks_of S ! n1))"
proof -
  let ?subs = "all_subtasks_of S"
  from lt n2 have n1: "n1 < length ?subs" by simp
  define j where "j = nat (\<sigma> (person_var (?subs ! n1)))"
  have rng: "0 \<le> \<sigma> (person_var (?subs ! n1)) \<and> \<sigma> (person_var (?subs ! n1)) < int (length P)"
    using person_value_in_range [OF feas] n1 by simp
  then have j: "j < length P" and v1: "\<sigma> (person_var (?subs ! n1)) = int j"
    unfolding j_def by linarith+
  from same v1 have v2: "\<sigma> (person_var (?subs ! n2)) = int j" by simp
  have b1: "\<sigma> (IsAssignedVar n1 j) = 1" by (rule indicator_set [OF feas n1 j v1])
  have b2: "\<sigma> (IsAssignedVar n2 j) = 1" by (rule indicator_set [OF feas n2 j v2])
  have "no_overlap \<sigma> (intervals_of_person ?subs j)"
    using feasible_sat [OF feas model_has_NoOverlap [OF j]] by simp
  then have "disjoint_pair \<sigma> (intervals_of_person ?subs j ! n1) (intervals_of_person ?subs j ! n2)"
    by (rule no_overlap_nth) (simp_all add: lt n2 intervals_of_person_def)
  then show ?thesis
    using b1 b2 by (simp add: intervals_of_person_nth n1 n2 disjoint_pair_def)
qed

lemma no_double_booking:
  assumes feas: "feasible (fst (build_model S P)) \<sigma>"
    and ne: "n1 \<noteq> n2" and n1: "n1 < length (all_subtasks_of S)" and n2: "n2 < length (all_subtasks_of S)"
    and same: "\<sigma> (person_var (all_subtasks_of S ! n1)) = \<sigma> (person_var (all_subtasks_of S ! n2))"
  shows "\<sigma> (end_var (all_subtasks_of S ! n1)) \<le> \<sigma> (start_var (all_subtasks_of S ! n2)) \<or>
         \<sigma> (end_var (all_subtasks_of S ! n2)) \<le> \<sigma> (start_var (all_subtasks_of S ! n1))"
proof (cases "n1 < n2")
  case True
  then show ?thesis using no_double_booking_lt [OF feas True n2 same] by simp
next
  case False
  with ne have lt: "n2 < n1" by simp
  show ?thesis using no_double_booking_lt [OF feas lt n1 same [symmetric]] by blast
qed

lemma shared_interval:
  assumes feas: "feasible (fst (build_model S P)) \<sigma>"
    and i: "i < length S"
  shows "\<sigma> (EndVar i) = \<sigma> (StartVar i) + duration_hours (S ! i)"
  using feasible_sat [OF feas model_has_EqualPlus [OF i]] by simp

section \<open>Properties of the returned schedule\<close>

text \<open>
  The function returns a total only when the status is OPTIMAL or FEASIBLE; with the
  contract of the solver the values it reads then satisfy the model.
\<close>

lemma returned_status:
  assumes "find_optimal_schedule Solve S P d = Inr (schedule, Some total_days)"
  shows "status (Solve (fst (build_model S P))) = OPTIMAL \<or>
         status (Solve (fst (build_model S P))) = FEASIBLE"
  using assms
  by (auto simp: find_optimal_schedule_def Let_def split_beta split: if_splits)

lemma returned_total_days:
  assumes "find_optimal_schedule Solve S P d = Inr (schedule, Some total_days)"
  shows "total_days = real_of_int (ObjectiveValue (Solve (fst (build_model S P)))) / 24"
  using assms
  by (auto simp: find_optimal_schedule_def Let_def split_beta split: if_splits sum.splits)

lemma returned_feasible:
  assumes "find_optimal_schedule Solve S P d = Inr (schedule, Some total_days)"
    and "cp_sat_contract (fst (build_model S P)) (Solve (fst (build_model S P)))"
  shows "is_solution (fst (build_model S P)) (Solve (fst (build_model S P)))"
  using returned_status [OF assms(1)] assms(2) by (auto simp: cp_sat_contract_def)

lemma is_solution_feasible: "is_solution m r \<Longrightarrow> feasible m (Value r)"
  by (simp add: is_solution_def)

lemma is_solution_objective:
  "is_solution (fst (build_model S P)) r \<Longrightarrow> ObjectiveValue r = Value r MaxEndTime"
  by (simp add: is_solution_def build_model_objective)

lemma scenario_step_appends:
  "snd (scenario_step P (i, sc) (m0, [])) = scenario_subtasks (i, sc)"
  by (simp add: scenario_step_subtasks)

lemma scenario_subtasks_in_all:
  "i < length S \<Longrightarrow> t \<in> set (scenario_subtasks (i, S ! i)) \<Longrightarrow> t \<in> set (all_subtasks_of S)"
  unfolding in_all_subtasks_of in_scenario_subtasks by blast

text \<open>
  Claim C6.  Whenever a schedule is returned by a solver that keeps its contract, every
  sub-task that the loop body appends for scenario \<open>i\<close> is one of \<^verbatim>\<open>all_subtasks\<close>, its
  solved start is the value of the start variable of scenario \<open>i\<close> and its solved end the
  value of the end variable of scenario \<open>i\<close> (so all sub-tasks of the scenario have the
  same start and the same end), and end minus start is the duration of the scenario.
\<close>

theorem C6_shared_start_and_end:
  assumes ret: "find_optimal_schedule Solve scenarios personnel start_date_str =
                  Inr (schedule, Some total_days)"
    and contract: "cp_sat_contract (fst (build_model scenarios personnel))
                     (Solve (fst (build_model scenarios personnel)))"
    and i: "i < length scenarios"
    and st: "st \<in> set (snd (scenario_step personnel (i, scenarios ! i) (m0, [])))"
  shows "st \<in> set (snd (build_model scenarios personnel)) \<and>
         Value (Solve (fst (build_model scenarios personnel))) (start_var st) =
           Value (Solve (fst (build_model scenarios personnel))) (StartVar i) \<and>
         Value (Solve (fst (build_model scenarios personnel))) (end_var st) =
           Value (Solve (fst (build_model scenarios personnel))) (EndVar i) \<and>
         Value (Solve (fst (build_model scenarios personnel))) (end_var st) -
           Value (Solve (fst (build_model scenarios personnel))) (start_var st) =
           duration_hours (scenarios ! i)"
proof -
  let ?r = "Solve (fst (build_model scenarios personnel))"
  have feas: "feasible (fst (build_model scenarios personnel)) (Value ?r)"
    by (rule is_solution_feasible [OF returned_feasible [OF ret contract]])
  from st have st': "st \<in> set (scenario_subtasks (i, scenarios ! i))"
    by (simp add: scenario_step_appends)
  then have vars: "start_var st = StartVar i" "end_var st = EndVar i"
    by (auto simp: in_scenario_subtasks the_subtask_def)
  have mem: "st \<in> set (snd (build_model scenarios personnel))"
    using scenario_subtasks_in_all [OF i st'] by (simp add: build_model_subtasks)
  show ?thesis
    using shared_interval [OF feas i] mem by (simp add: vars)
qed

text \<open>
  Claim C7.  Whenever a schedule is returned by a solver that keeps its contract, two
  different sub-tasks whose solved person is the same have intervals that do not
  intersect with positive length: one ends no later than the other starts.
\<close>

theorem C7_no_double_booking:
  assumes ret: "find_optimal_schedule Solve scenarios personnel start_date_str =
                  Inr (schedule, Some total_days)"
    and contract: "cp_sat_contract (fst (build_model scenarios personnel))
                     (Solve (fst (build_model scenarios personnel)))"
    and n1: "n1 < length (snd (build_model scenarios personnel))"
    and n2: "n2 < length (snd (build_model scenarios personnel))"
    and ne: "n1 \<noteq> n2"
    and same: "Value (Solve (fst (build_model scenarios personnel)))
                 (person_var (snd (build_model scenarios personnel) ! n1)) =
               Value (Solve (fst (build_model scenarios personnel)))
                 (person_var (snd (build_model scenarios personnel) ! n2))"
  shows "Value (Solve (fst (build_model scenarios personnel)))
           (end_var (snd (build_model scenarios personnel) ! n1))
         \<le> Value (Solve (fst (build_model scenarios personnel)))
           (start_var (snd (build_model scenarios personnel) ! n2)) \<or>
         Value (Solve (fst (build_model scenarios personnel)))
           (end_var (snd (build_model scenarios personnel) ! n2))
         \<le> Value (Solve (fst (build_model scenarios personnel)))
           (start_var (snd (build_model scenarios personnel) ! n1))"
proof -
  let ?r = "Solve (fst (build_model scenarios personnel))"
  have feas: "feasible (fst (build_model scenarios personnel)) (Value ?r)"
    by (rule is_solution_feasible [OF returned_feasible [OF ret contract]])
  show ?thesis
    using no_double_booking [OF feas ne] n1 n2 same by (simp add: build_model_subtasks)
qed

lemma the_subtask_position:
  assumes "i < length S" and "k < length (required_workstreams (S ! i))"
  shows "\<exists>n < length (all_subtasks_of S).
           all_subtasks_of S ! n = the_subtask i (S ! i) (k, required_workstreams (S ! i) ! k)"
proof -
  have "the_subtask i (S ! i) (k, required_workstreams (S ! i) ! k) \<in> set (all_subtasks_of S)"
    unfolding in_all_subtasks_of using assms by blast
  then show ?thesis by (auto simp: in_set_conv_nth)
qed

text \<open>
  Claim C8.  Whenever a schedule is returned by a solver that keeps its contract, two
  different sub-tasks of one scenario of positive duration are solved to different
  persons; this holds for any two occurrences in \<^verbatim>\<open>required_workstreams\<close>, in particular
  for two occurrences of the same workstream.  By C6 the two persons are occupied over
  the same interval.
\<close>

theorem C8_distinct_persons_within_scenario:
  assumes ret: "find_optimal_schedule Solve scenarios personnel start_date_str =
                  Inr (schedule, Some total_days)"
    and contract: "cp_sat_contract (fst (build_model scenarios personnel))
                     (Solve (fst (build_model scenarios personnel)))"
    and i: "i < length scenarios"
    and pos: "0 < duration_hours (scenarios ! i)"
    and k1: "k1 < length (required_workstreams (scenarios ! i))"
    and k2: "k2 < length (required_workstreams (scenarios ! i))"
    and ne: "k1 \<noteq> k2"
  shows "Value (Solve (fst (build_model scenarios personnel))) (PersonVar i k1) \<noteq>
         Value (Solve (fst (build_model scenarios personnel))) (PersonVar i k2)"
proof
  let ?r = "Solve (fst (build_model scenarios personnel))"
  let ?subs = "all_subtasks_of scenarios"
  assume same: "Value ?r (PersonVar i k1) = Value ?r (PersonVar i k2)"
  have feas: "feasible (fst (build_model scenarios personnel)) (Value ?r)"
    by (rule is_solution_feasible [OF returned_feasible [OF ret contract]])
  from the_subtask_position [OF i k1] obtain n1 where n1: "n1 < length ?subs"
    and t1: "?subs ! n1 = the_subtask i (scenarios ! i) (k1, required_workstreams (scenarios ! i) ! k1)"
    by blast
  from the_subtask_position [OF i k2] obtain n2 where n2: "n2 < length ?subs"
    and t2: "?subs ! n2 = the_subtask i (scenarios ! i) (k2, required_workstreams (scenarios ! i) ! k2)"
    by blast
  have "n1 \<noteq> n2"
  proof
    assume "n1 = n2"
    with t1 t2 have "person_var (the_subtask i (scenarios ! i) (k1, required_workstreams (scenarios ! i) ! k1)) =
      person_var (the_subtask i (scenarios ! i) (k2, required_workstreams (scenarios ! i) ! k2))"
      by simp
    with ne show False by (simp add: the_subtask_def)
  qed
  moreover have "Value ?r (person_var (?subs ! n1)) = Value ?r (person_var (?subs ! n2))"
    using same by (simp add: t1 t2 the_subtask_def)
  ultimately have "Value ?r (end_var (?subs ! n1)) \<le> Value ?r (start_var (?subs ! n2)) \<or>
      Value ?r (end_var (?subs ! n2)) \<le> Value ?r (start_var (?subs ! n1))"
    using no_double_booking [OF feas _ n1 n2] by blast
  then have "Value ?r (EndVar i) \<le> Value ?r (StartVar i)"
    by (simp add: t1 t2 the_subtask_def)
  with shared_interval [OF feas i] pos show False by simp
qed

lemma end_vars_of_subtasks:
  "set (map end_var (all_subtasks_of S)) =
   set (map (\<lambda>(i, sc). EndVar i)
          (filter (\<lambda>(i, sc). required_workstreams sc \<noteq> []) (enumerate 0 S)))"
proof (rule set_eqI)
  fix v
  have "v \<in> set (map end_var (all_subtasks_of S)) \<longleftrightarrow>
        (\<exists>t. t \<in> set (all_subtasks_of S) \<and> v = end_var t)"
    by auto
  also have "\<dots> \<longleftrightarrow>
        (\<exists>i k. i < length S \<and> k < length (required_workstreams (S ! i)) \<and> v = EndVar i)"
  proof
    assume "\<exists>t. t \<in> set (all_subtasks_of S) \<and> v = end_var t"
    then obtain t where "t \<in> set (all_subtasks_of S)" "v = end_var t" by blast
    then obtain i k where "i < length S" "k < length (required_workstreams (S ! i))"
      "t = the_subtask i (S ! i) (k, required_workstreams (S ! i) ! k)"
      unfolding in_all_subtasks_of by blast
    with \<open>v = end_var t\<close>
    have "i < length S \<and> k < length (required_workstreams (S ! i)) \<and> v = EndVar i"
      by (simp add: the_subtask_def)
    then show "\<exists>i k. i < length S \<and> k < length (required_workstreams (S ! i)) \<and> v = EndVar i"
      by blast
  next
    assume "\<exists>i k. i < length S \<and> k < length (required_workstreams (S ! i)) \<and> v = EndVar i"
    then obtain i k where ik: "i < length S" "k < length (required_workstreams (S ! i))" "v = EndVar i"
      by blast
    let ?t = "the_subtask i (S ! i) (k, required_workstreams (S ! i) ! k)"
    have "?t \<in> set (all_subtasks_of S)"
      unfolding in_all_subtasks_of using ik by blast
    moreover have "v = end_var ?t" using ik by (simp add: the_subtask_def)
    ultimately show "\<exists>t. t \<in> set (all_subtasks_of S) \<and> v = end_var t" by blast
  qed
  also have "\<dots> \<longleftrightarrow> (\<exists>i. i < length S \<and> required_workstreams (S ! i) \<noteq> [] \<and> v = EndVar i)"
  proof -
    have "(\<exists>k. k < length (required_workstreams (S ! i))) \<longleftrightarrow> required_workstreams (S ! i) \<noteq> []"
      for i
      by (cases "required_workstreams (S ! i)") auto
    then show ?thesis by auto
  qed
  also have "\<dots> \<longleftrightarrow> v \<in> set (map (\<lambda>(i, sc). EndVar i)
          (filter (\<lambda>(i, sc). required_workstreams sc \<noteq> []) (enumerate 0 S)))"
    by (auto simp: in_enumerate0 image_iff)
  finally show "v \<in> set (map end_var (all_subtasks_of S)) \<longleftrightarrow>
     v \<in> set (map (\<lambda>(i, sc). EndVar i)
          (filter (\<lambda>(i, sc). required_workstreams sc \<noteq> []) (enumerate 0 S)))" .
qed

lemma max_equality_Max:
  assumes "list_all (\<lambda>x. \<sigma> x \<le> \<sigma> t) xs" and "list_ex (\<lambda>x. \<sigma> x = \<sigma> t) xs"
  shows "\<sigma> t = Max (\<sigma> ` set xs)"
proof -
  from assms(2) obtain x where x: "x \<in> set xs" "\<sigma> x = \<sigma> t"
    by (auto simp: list_ex_iff)
  have "Max (\<sigma> ` set xs) = \<sigma> t"
  proof (rule Max_eqI)
    show "finite (\<sigma> ` set xs)" by simp
    show "y \<le> \<sigma> t" if "y \<in> \<sigma> ` set xs" for y
      using that assms(1) by (auto simp: list_all_iff)
    show "\<sigma> t \<in> \<sigma> ` set xs" using x by (metis imageI)
  qed
  then show ?thesis by simp
qed

lemma makespan_is_max:
  assumes feas: "feasible (fst (build_model S P)) \<sigma>"
  shows "\<sigma> MaxEndTime =
     Max (set (map (\<lambda>(i, sc). \<sigma> (EndVar i))
            (filter (\<lambda>(i, sc). required_workstreams sc \<noteq> []) (enumerate 0 S))))"
proof -
  have "sat \<sigma> (MaxEquality MaxEndTime (remdups (map end_var (all_subtasks_of S))))"
    by (rule feasible_sat [OF feas model_has_MaxEquality])
  then have "\<sigma> MaxEndTime = Max (\<sigma> ` set (remdups (map end_var (all_subtasks_of S))))"
    by (intro max_equality_Max) simp_all
  also have "\<sigma> ` set (remdups (map end_var (all_subtasks_of S))) =
     \<sigma> ` set (map (\<lambda>(i, sc). EndVar i)
          (filter (\<lambda>(i, sc). required_workstreams sc \<noteq> []) (enumerate 0 S)))"
    using end_vars_of_subtasks [of S] by simp
  also have "\<dots> = set (map (\<lambda>(i, sc). \<sigma> (EndVar i))
            (filter (\<lambda>(i, sc). required_workstreams sc \<noteq> []) (enumerate 0 S)))"
    by (auto simp: image_iff)
  finally show ?thesis .
qed

text \<open>
  Claim C5, as amended.  Whenever a schedule is returned by a solver that keeps its
  contract, \<^verbatim>\<open>total_days\<close> times 24 is the greatest solved end over the scenarios that have
  at least one required workstream (the division being exact here).
\<close>

theorem C5_total_days_is_makespan:
  assumes ret: "find_optimal_schedule Solve scenarios personnel start_date_str =
                  Inr (schedule, Some total_days)"
    and contract: "cp_sat_contract (fst (build_model scenarios personnel))
                     (Solve (fst (build_model scenarios personnel)))"
  shows "total_days * 24 =
     real_of_int (Max (set (map (\<lambda>(i, sc). Value (Solve (fst (build_model scenarios personnel))) (EndVar i))
            (filter (\<lambda>(i, sc). required_workstreams sc \<noteq> []) (enumerate 0 scenarios)))))"
proof -
  let ?r = "Solve (fst (build_model scenarios personnel))"
  have sol: "is_solution (fst (build_model scenarios personnel)) ?r"
    by (rule returned_feasible [OF ret contract])
  have "total_days * 24 = real_of_int (ObjectiveValue ?r)"
    using returned_total_days [OF ret] by simp
  also have "ObjectiveValue ?r = Value ?r MaxEndTime"
    by (rule is_solution_objective [OF sol])
  also have "Value ?r MaxEndTime = Max (set (map (\<lambda>(i, sc). Value ?r (EndVar i))
            (filter (\<lambda>(i, sc). required_workstreams sc \<noteq> []) (enumerate 0 scenarios))))"
    by (rule makespan_is_max [OF is_solution_feasible [OF sol]])
  finally show ?thesis .
qed

section \<open>The index of a person\<close>

text \<open>
  Every name of the personnel list is a key of \<^verbatim>\<open>people_map\<close>.  When the names are
  pairwise different the map sends each name to the position of its person, and the
  allowed values of a person variable are the positions of the qualified persons.
\<close>

lemma snd_set_enumerate: "snd ` set (enumerate n xs) = set xs"
  by (simp only: set_map [symmetric] map_snd_enumerate)

lemma people_map_fold_other:
  "k \<notin> name ` snd ` set ips \<Longrightarrow>
   fold (\<lambda>(i, p) mp. mp(name p \<mapsto> int i)) ips mp k = mp k"
  by (induction ips arbitrary: mp) (auto simp: split_beta)

lemma people_map_fold_dom:
  "k \<in> name ` snd ` set ips \<Longrightarrow>
   fold (\<lambda>(i, p) mp. mp(name p \<mapsto> int i)) ips mp k \<noteq> None"
proof (induction ips arbitrary: mp)
  case Nil
  then show ?case by simp
next
  case (Cons ip ips)
  show ?case
  proof (cases "k \<in> name ` snd ` set ips")
    case True
    then show ?thesis using Cons.IH by (simp add: split_beta)
  next
    case False
    let ?F = "\<lambda>(i, p) mp. mp(name p \<mapsto> int i)"
    from False Cons.prems have k: "k = name (snd ip)" by auto
    have "fold ?F (ip # ips) mp k = fold ?F ips (?F ip mp) k" by simp
    also have "\<dots> = ?F ip mp k" using False by (rule people_map_fold_other)
    also have "\<dots> = Some (int (fst ip))" using k by (simp add: split_beta)
    finally have "fold ?F (ip # ips) mp k = Some (int (fst ip))" .
    then show ?thesis by (metis option.distinct(1))
  qed
qed

lemma people_map_defined:
  "p \<in> set personnel \<Longrightarrow> people_map personnel (name p) \<noteq> None"
proof -
  assume "p \<in> set personnel"
  then have "name p \<in> name ` snd ` set (enumerate 0 personnel)"
    by (simp only: snd_set_enumerate) (rule imageI)
  then show ?thesis
    unfolding people_map_def by (rule people_map_fold_dom)
qed

lemma people_map_fold_distinct:
  "distinct (map name ps) \<Longrightarrow> i < length ps \<Longrightarrow>
   fold (\<lambda>(i, p) mp. mp(name p \<mapsto> int i)) (enumerate n ps) mp (name (ps ! i)) = Some (int (n + i))"
proof (induction ps arbitrary: n mp i)
  case Nil
  then show ?case by simp
next
  case (Cons p ps)
  show ?case
  proof (cases i)
    case 0
    have notin: "name p \<notin> name ` snd ` set (enumerate (Suc n) ps)"
      using Cons.prems(1) by (simp only: snd_set_enumerate) simp
    let ?F = "\<lambda>(i, p) mp. mp(name p \<mapsto> int i)"
    have "fold ?F (enumerate n (p # ps)) mp (name ((p # ps) ! i)) =
        fold ?F (enumerate (Suc n) ps) (?F (n, p) mp) (name p)"
      using 0 by simp
    also have "\<dots> = ?F (n, p) mp (name p)"
      using notin by (rule people_map_fold_other)
    also have "\<dots> = Some (int (n + i))"
      using 0 by simp
    finally show ?thesis .
  next
    case (Suc i')
    with Cons.prems have "i' < length ps" "distinct (map name ps)" by simp_all
    from Cons.IH [OF this(2,1), of "Suc n"] Suc show ?thesis by simp
  qed
qed

lemma people_map_distinct:
  "distinct (map name personnel) \<Longrightarrow> i < length personnel \<Longrightarrow>
   people_map personnel (name (personnel ! i)) = Some (int i)"
  unfolding people_map_def using people_map_fold_distinct [of personnel i 0] by simp

lemma valid_people_indices_distinct:
  assumes "distinct (map name personnel)" and "v \<in> set (valid_people_indices personnel w)"
  shows "0 \<le> v \<and> v < int (length personnel) \<and> workstream (personnel ! nat v) = w"
proof -
  from assms(2) obtain p where p: "p \<in> set personnel" "workstream p = w"
    "v = the (people_map personnel (name p))"
    by (auto simp: valid_people_indices_def)
  from p(1) obtain i where i: "i < length personnel" "personnel ! i = p"
    by (auto simp: in_set_conv_nth)
  from people_map_distinct [OF assms(1) i(1)] i(2) p(3) have "v = int i" by simp
  with i p(2) show ?thesis by simp
qed

text \<open>
  What the model does ensure about workstreams: when the names are pairwise different
  and somebody has the workstream that a sub-task requires, every assignment satisfying
  the model gives the sub-task a person of that workstream.
\<close>

lemma qualified_person_is_assigned:
  assumes feas: "feasible (fst (build_model scenarios personnel)) \<sigma>"
    and st: "st \<in> set (snd (build_model scenarios personnel))"
    and names: "distinct (map name personnel)"
    and staffed: "valid_people_indices personnel (sub_workstream st) \<noteq> []"
  shows "py_index personnel (\<sigma> (person_var st)) = Inr (personnel ! nat (\<sigma> (person_var st))) \<and>
         workstream (personnel ! nat (\<sigma> (person_var st))) = sub_workstream st"
proof -
  from st have st': "st \<in> set (all_subtasks_of scenarios)" by (simp add: build_model_subtasks)
  have "\<sigma> (person_var st) \<in> set (valid_people_indices personnel (sub_workstream st))"
    using feasible_sat [OF feas model_has_AllowedAssignments [OF st' staffed]] by simp
  from valid_people_indices_distinct [OF names this] show ?thesis
    by (simp add: py_index_def)
qed

section \<open>The calibration input\<close>

text \<open>Only Alice covers Finance, so in every assignment that satisfies the model the two
  scenarios follow one another, and the makespan is at least 18 hours.\<close>

lemma calibration_feasible:
  "feasible (fst (build_model calibration_scenarios calibration_personnel)) calibration_values"
  by code_simp

lemma calibration_subtasks:
  "all_subtasks_of calibration_scenarios =
     [\<lparr>scenario_name = ''P2P End-to-End'', sub_workstream = ''Finance'', duration = 12,
       start_var = StartVar 0, end_var = EndVar 0, person_var = PersonVar 0 0,
       interval = IntervalVar (StartVar 0) 12 (EndVar 0) None\<rparr>,
      \<lparr>scenario_name = ''P2P End-to-End'', sub_workstream = ''Logistics'', duration = 12,
       start_var = StartVar 0, end_var = EndVar 0, person_var = PersonVar 0 1,
       interval = IntervalVar (StartVar 0) 12 (EndVar 0) None\<rparr>,
      \<lparr>scenario_name = ''P2P End-to-End'', sub_workstream = ''IT'', duration = 12,
       start_var = StartVar 0, end_var = EndVar 0, person_var = PersonVar 0 2,
       interval = IntervalVar (StartVar 0) 12 (EndVar 0) None\<rparr>,
      \<lparr>scenario_name = ''Invoice Posting'', sub_workstream = ''Finance'', duration = 6,
       start_var = StartVar 1, end_var = EndVar 1, person_var = PersonVar 1 0,
       interval = IntervalVar (StartVar 1) 6 (EndVar 1) None\<rparr>]"
  by (simp add: all_subtasks_of_def scenario_subtasks_def calibration_scenarios_def
      the_subtask_def numeral_2_eq_2)

lemma calibration_valid_people:
  "valid_people_indices calibration_personnel ''Finance'' = [0]"
  "valid_people_indices calibration_personnel ''Logistics'' = [1]"
  "valid_people_indices calibration_personnel ''IT'' = [2]"
  by (simp_all add: valid_people_indices_def people_map_def calibration_personnel_def)

lemma calibration_persons:
  assumes feas: "feasible (fst (build_model calibration_scenarios calibration_personnel)) \<sigma>"
  shows "\<sigma> (PersonVar 0 0) = 0" and "\<sigma> (PersonVar 0 1) = 1" and "\<sigma> (PersonVar 0 2) = 2"
    and "\<sigma> (PersonVar 1 0) = 0"
proof -
  have allowed: "\<sigma> (person_var t) \<in> set (valid_people_indices calibration_personnel (sub_workstream t))"
    if "t \<in> set (all_subtasks_of calibration_scenarios)"
      and "valid_people_indices calibration_personnel (sub_workstream t) \<noteq> []" for t
    using feasible_sat [OF feas model_has_AllowedAssignments [OF that]] by simp
  show "\<sigma> (PersonVar 0 0) = 0"
    using allowed [of "all_subtasks_of calibration_scenarios ! 0"]
    by (simp add: calibration_subtasks calibration_valid_people)
  show "\<sigma> (PersonVar 0 1) = 1"
    using allowed [of "all_subtasks_of calibration_scenarios ! 1"]
    by (simp add: calibration_subtasks calibration_valid_people)
  show "\<sigma> (PersonVar 0 2) = 2"
    using allowed [of "all_subtasks_of calibration_scenarios ! 2"]
    by (simp add: calibration_subtasks calibration_valid_people)
  show "\<sigma> (PersonVar 1 0) = 0"
    using allowed [of "all_subtasks_of calibration_scenarios ! 3"]
    by (simp add: calibration_subtasks calibration_valid_people)
qed

lemma calibration_sequenced:
  assumes feas: "feasible (fst (build_model calibration_scenarios calibration_personnel)) \<sigma>"
  shows "\<sigma> (EndVar 0) \<le> \<sigma> (StartVar 1) \<or> \<sigma> (EndVar 1) \<le> \<sigma> (StartVar 0)"
  using no_double_booking [OF feas, of 0 3] calibration_persons(1,4) [OF feas]
  by (simp add: calibration_subtasks)

lemma calibration_times:
  assumes feas: "feasible (fst (build_model calibration_scenarios calibration_personnel)) \<sigma>"
  shows "\<sigma> (EndVar 0) = \<sigma> (StartVar 0) + 12" and "\<sigma> (EndVar 1) = \<sigma> (StartVar 1) + 6"
    and "0 \<le> \<sigma> (StartVar 0)" and "0 \<le> \<sigma> (StartVar 1)"
    and "\<sigma> MaxEndTime = max (\<sigma> (EndVar 0)) (\<sigma> (EndVar 1))"
proof -
  show "\<sigma> (EndVar 0) = \<sigma> (StartVar 0) + 12"
    using shared_interval [OF feas, of 0] by (simp add: calibration_scenarios_def)
  show "\<sigma> (EndVar 1) = \<sigma> (StartVar 1) + 6"
    using shared_interval [OF feas, of 1] by (simp add: calibration_scenarios_def)
  show "0 \<le> \<sigma> (StartVar 0)"
    using feasible_domain [OF feas conjunct1 [OF model_has_start_end_domain [of 0]]]
    by (simp add: calibration_scenarios_def)
  show "0 \<le> \<sigma> (StartVar 1)"
    using feasible_domain [OF feas conjunct1 [OF model_has_start_end_domain [of 1]]]
    by (simp add: calibration_scenarios_def)
  show "\<sigma> MaxEndTime = max (\<sigma> (EndVar 0)) (\<sigma> (EndVar 1))"
    using makespan_is_max [OF feas] by (simp add: calibration_scenarios_def max.commute)
qed

lemma calibration_lower_bound:
  assumes feas: "feasible (fst (build_model calibration_scenarios calibration_personnel)) \<sigma>"
  shows "18 \<le> \<sigma> MaxEndTime"
  using calibration_sequenced [OF feas] calibration_times [OF feas] by linarith

lemma calibration_contract:
  "cp_sat_contract (fst (build_model calibration_scenarios calibration_personnel))
     calibration_answer"
proof -
  have "is_solution (fst (build_model calibration_scenarios calibration_personnel))
      calibration_answer"
    using calibration_feasible
    by (simp add: is_solution_def build_model_objective calibration_answer_def
        calibration_values_def)
  then show ?thesis
    using calibration_lower_bound
    by (simp add: cp_sat_contract_def build_model_objective calibration_answer_def)
qed

lemma calibration_makespan:
  assumes feas: "feasible (fst (build_model calibration_scenarios calibration_personnel)) \<sigma>"
    and le: "\<sigma> MaxEndTime \<le> 18"
  shows "\<sigma> (StartVar 0) = 0 \<and> \<sigma> (EndVar 0) = 12 \<and> \<sigma> (StartVar 1) = 12 \<and> \<sigma> (EndVar 1) = 18 \<or>
         \<sigma> (StartVar 0) = 6 \<and> \<sigma> (EndVar 0) = 18 \<and> \<sigma> (StartVar 1) = 0 \<and> \<sigma> (EndVar 1) = 6"
  using calibration_sequenced [OF feas] calibration_times [OF feas] le by linarith

lemma calibration_sorted:
  "sort [''Alice'', ''Bob'', ''Charlie''] = [''Alice'', ''Bob'', ''Charlie'']"
  "sort [''Finance'', ''Logistics'', ''IT''] = [''Finance'', ''IT'', ''Logistics'']"
  by code_simp+

lemma calibration_rows:
  assumes st: "status (Solve (fst (build_model calibration_scenarios calibration_personnel))) = OPTIMAL"
    and obj: "ObjectiveValue (Solve (fst (build_model calibration_scenarios calibration_personnel))) = 18"
    and p: "Value (Solve (fst (build_model calibration_scenarios calibration_personnel))) (PersonVar 0 0) = 0"
      "Value (Solve (fst (build_model calibration_scenarios calibration_personnel))) (PersonVar 0 1) = 1"
      "Value (Solve (fst (build_model calibration_scenarios calibration_personnel))) (PersonVar 0 2) = 2"
      "Value (Solve (fst (build_model calibration_scenarios calibration_personnel))) (PersonVar 1 0) = 0"
    and t: "Value (Solve (fst (build_model calibration_scenarios calibration_personnel))) (StartVar 0) = s0"
      "Value (Solve (fst (build_model calibration_scenarios calibration_personnel))) (EndVar 0) = s0 + 12"
      "Value (Solve (fst (build_model calibration_scenarios calibration_personnel))) (StartVar 1) = s1"
      "Value (Solve (fst (build_model calibration_scenarios calibration_personnel))) (EndVar 1) = s1 + 6"
  shows "find_optimal_schedule Solve calibration_scenarios calibration_personnel d =
           Inr (calibration_schedule d s0 s1, Some (3 / 4))"
proof -
  define r where "r = Solve (fst (build_model calibration_scenarios calibration_personnel))"
  note vals = p [folded r_def] t [folded r_def]
  have "extract_loop r calibration_personnel d (all_subtasks_of calibration_scenarios) [] =
     Inr [(''P2P End-to-End'',
           \<lparr>Scenario = ''P2P End-to-End'', Duration_Hours = 12,
            Start_Time = Timestamp d s0, End_Time = Timestamp d (s0 + 12),
            Assigned_Persons = [''Alice'', ''Bob'', ''Charlie''],
            Workstreams = [''Finance'', ''Logistics'', ''IT'']\<rparr>),
          (''Invoice Posting'',
           \<lparr>Scenario = ''Invoice Posting'', Duration_Hours = 6,
            Start_Time = Timestamp d s1, End_Time = Timestamp d (s1 + 6),
            Assigned_Persons = [''Alice''], Workstreams = [''Finance'']\<rparr>)]"
    using vals
    by (simp add: calibration_subtasks extract_step_def py_index_def
        calibration_personnel_def Let_def)
  then show ?thesis
    using st obj
    by (simp add: find_optimal_schedule_def split_beta build_model_subtasks r_def [symmetric]
        calibration_schedule_def format_row_def calibration_sorted Let_def)
qed

text \<open>
  Claim C4.  On the calibration input, a solver that keeps its contract and runs its
  search to the end (the function sets no limit, so the status is OPTIMAL or INFEASIBLE)
  makes \<^verbatim>\<open>find_optimal_schedule\<close> return a total of 18 hours, which is 0.75 days, together
  with one of the two schedules that place the scenarios back to back on Alice: the long
  one over hours 0 to 12 and the short one over 12 to 18, or the short one over 0 to 6 and
  the long one over 6 to 18.
\<close>

theorem C4_calibration_schedule:
  assumes contract: "cp_sat_contract (fst (build_model calibration_scenarios calibration_personnel))
                       (Solve (fst (build_model calibration_scenarios calibration_personnel)))"
    and completed: "status (Solve (fst (build_model calibration_scenarios calibration_personnel))) = OPTIMAL \<or>
                    status (Solve (fst (build_model calibration_scenarios calibration_personnel))) = INFEASIBLE"
  shows "find_optimal_schedule Solve calibration_scenarios calibration_personnel start_date_str =
           Inr (calibration_schedule start_date_str 0 12, Some (18 / 24)) \<or>
         find_optimal_schedule Solve calibration_scenarios calibration_personnel start_date_str =
           Inr (calibration_schedule start_date_str 6 0, Some (18 / 24))"
proof -
  let ?m = "fst (build_model calibration_scenarios calibration_personnel)"
  let ?r = "Solve ?m"
  have st: "status ?r = OPTIMAL"
    using completed contract calibration_feasible by (auto simp: cp_sat_contract_def)
  with contract have sol: "is_solution ?m ?r" by (simp add: cp_sat_contract_def)
  then have feas: "feasible ?m (Value ?r)" by (rule is_solution_feasible)
  have objv: "ObjectiveValue ?r = Value ?r MaxEndTime" by (rule is_solution_objective [OF sol])
  have "ObjectiveValue ?r \<le> calibration_values MaxEndTime"
    using contract st calibration_feasible
    by (simp add: cp_sat_contract_def build_model_objective)
  then have le: "Value ?r MaxEndTime \<le> 18" by (simp add: objv calibration_values_def)
  with calibration_lower_bound [OF feas] have obj: "ObjectiveValue ?r = 18" by (simp add: objv)
  from calibration_makespan [OF feas le] show ?thesis
  proof
    assume a: "Value ?r (StartVar 0) = 0 \<and> Value ?r (EndVar 0) = 12 \<and>
       Value ?r (StartVar 1) = 12 \<and> Value ?r (EndVar 1) = 18"
    have "find_optimal_schedule Solve calibration_scenarios calibration_personnel start_date_str =
           Inr (calibration_schedule start_date_str 0 12, Some (3 / 4))"
      by (rule calibration_rows) (use st obj calibration_persons [OF feas] a in simp_all)
    then show ?thesis by simp
  next
    assume a: "Value ?r (StartVar 0) = 6 \<and> Value ?r (EndVar 0) = 18 \<and>
       Value ?r (StartVar 1) = 0 \<and> Value ?r (EndVar 1) = 6"
    have "find_optimal_schedule Solve calibration_scenarios calibration_personnel start_date_str =
           Inr (calibration_schedule start_date_str 6 0, Some (3 / 4))"
      by (rule calibration_rows) (use st obj calibration_persons [OF feas] a in simp_all)
    then show ?thesis by simp
  qed
qed

lemma calibration_returns:
  "find_optimal_schedule (\<lambda>_. calibration_answer) calibration_scenarios calibration_personnel d =
     Inr (calibration_schedule d 0 12, Some (3 / 4))"
  by (rule calibration_rows) (simp_all add: calibration_answer_def calibration_values_def)

text \<open>An answer that meets the hypotheses of C4: it satisfies the contract with status
  OPTIMAL, and the function returns the first of the two schedules.\<close>

theorem C4_calibration_schedule_witness:
  "cp_sat_contract (fst (build_model calibration_scenarios calibration_personnel)) calibration_answer \<and>
   status calibration_answer = OPTIMAL \<and>
   find_optimal_schedule (\<lambda>_. calibration_answer) calibration_scenarios calibration_personnel
     ''2025-01-06'' = Inr (calibration_schedule ''2025-01-06'' 0 12, Some (18 / 24))"
proof -
  have st: "status calibration_answer = OPTIMAL" by (simp add: calibration_answer_def)
  have "find_optimal_schedule (\<lambda>_. calibration_answer) calibration_scenarios calibration_personnel
      ''2025-01-06'' = Inr (calibration_schedule ''2025-01-06'' 0 12, Some (18 / 24)) \<or>
    find_optimal_schedule (\<lambda>_. calibration_answer) calibration_scenarios calibration_personnel
      ''2025-01-06'' = Inr (calibration_schedule ''2025-01-06'' 6 0, Some (18 / 24))"
    using C4_calibration_schedule [of "\<lambda>_. calibration_answer" "''2025-01-06''"]
      calibration_contract st by simp
  then show ?thesis
    using calibration_contract st calibration_returns [of "''2025-01-06''"] by simp
qed

section \<open>Witnesses\<close>

lemma pair_feasible: "feasible (fst (build_model pair_scenarios pair_personnel)) pair_values"
  by code_simp

lemma pair_lower_bound:
  assumes feas: "feasible (fst (build_model pair_scenarios pair_personnel)) \<sigma>"
  shows "4 \<le> \<sigma> MaxEndTime"
proof -
  have "\<sigma> MaxEndTime = \<sigma> (EndVar 0)"
    using makespan_is_max [OF feas] by (simp add: pair_scenarios_def)
  moreover have "\<sigma> (EndVar 0) = \<sigma> (StartVar 0) + 4"
    using shared_interval [OF feas, of 0] by (simp add: pair_scenarios_def)
  moreover have "0 \<le> \<sigma> (StartVar 0)"
    using feasible_domain [OF feas conjunct1 [OF model_has_start_end_domain [of 0]]]
    by (simp add: pair_scenarios_def)
  ultimately show ?thesis by simp
qed

lemma pair_contract:
  "cp_sat_contract (fst (build_model pair_scenarios pair_personnel)) pair_answer"
proof -
  have "is_solution (fst (build_model pair_scenarios pair_personnel)) pair_answer"
    using pair_feasible
    by (simp add: is_solution_def build_model_objective pair_answer_def pair_values_def)
  then show ?thesis
    using pair_lower_bound
    by (simp add: cp_sat_contract_def build_model_objective pair_answer_def)
qed

lemma pair_returns:
  "find_optimal_schedule (\<lambda>_. pair_answer) pair_scenarios pair_personnel ''2025-01-06'' =
     Inr ([\<lparr>Scenario = ''Month-End Close'', Duration_Hours = 4,
            Start_Time = Timestamp ''2025-01-06'' 0, End_Time = Timestamp ''2025-01-06'' 4,
            Assigned_Persons = ''Alice, Dana'', Workstreams = ''Finance, Finance''\<rparr>],
          Some (1 / 6))"
  by code_simp

text \<open>The hypotheses of the amended C5 hold on the calibration input, where the total is
  three quarters of a day and the greatest end is 18.\<close>

theorem C5_total_days_is_makespan_witness:
  "find_optimal_schedule (\<lambda>_. calibration_answer) calibration_scenarios calibration_personnel
     ''2025-01-06'' = Inr (calibration_schedule ''2025-01-06'' 0 12, Some (3 / 4)) \<and>
   cp_sat_contract (fst (build_model calibration_scenarios calibration_personnel))
     calibration_answer \<and>
   (3 / 4 :: real) * 24 =
     real_of_int (Max (set (map (\<lambda>(i, sc). Value calibration_answer (EndVar i))
        (filter (\<lambda>(i, sc). required_workstreams sc \<noteq> []) (enumerate 0 calibration_scenarios)))))"
  using C5_total_days_is_makespan [OF calibration_returns [of "''2025-01-06''"]]
    calibration_returns [of "''2025-01-06''"] calibration_contract
  by simp

text \<open>The hypotheses of C6 hold on the calibration input, at the IT sub-task of the
  first scenario.\<close>

theorem C6_shared_start_and_end_witness:
  "find_optimal_schedule (\<lambda>_. calibration_answer) calibration_scenarios calibration_personnel
     ''2025-01-06'' = Inr (calibration_schedule ''2025-01-06'' 0 12, Some (3 / 4)) \<and>
   cp_sat_contract (fst (build_model calibration_scenarios calibration_personnel))
     calibration_answer \<and>
   (0::nat) < length calibration_scenarios \<and>
   snd (build_model calibration_scenarios calibration_personnel) ! 2
     \<in> set (snd (scenario_step calibration_personnel (0, calibration_scenarios ! 0) (CpModel, []))) \<and>
   Value calibration_answer
     (start_var (snd (build_model calibration_scenarios calibration_personnel) ! 2)) =
     Value calibration_answer (StartVar 0) \<and>
   Value calibration_answer
     (end_var (snd (build_model calibration_scenarios calibration_personnel) ! 2)) =
     Value calibration_answer (EndVar 0) \<and>
   Value calibration_answer
     (end_var (snd (build_model calibration_scenarios calibration_personnel) ! 2)) -
   Value calibration_answer
     (start_var (snd (build_model calibration_scenarios calibration_personnel) ! 2)) =
     duration_hours (calibration_scenarios ! 0) \<and>
   duration_hours (calibration_scenarios ! 0) = 12"
proof -
  have len: "(0::nat) < length calibration_scenarios"
    by (simp add: calibration_scenarios_def)
  have mem: "snd (build_model calibration_scenarios calibration_personnel) ! 2
     \<in> set (snd (scenario_step calibration_personnel (0, calibration_scenarios ! 0) (CpModel, [])))"
  proof -
    have "snd (build_model calibration_scenarios calibration_personnel) ! 2 =
        \<lparr>scenario_name = ''P2P End-to-End'', sub_workstream = ''IT'', duration = 12,
         start_var = StartVar 0, end_var = EndVar 0, person_var = PersonVar 0 2,
         interval = IntervalVar (StartVar 0) 12 (EndVar 0) None\<rparr>"
      by (simp add: build_model_subtasks calibration_subtasks)
    moreover have "\<lparr>scenario_name = ''P2P End-to-End'', sub_workstream = ''IT'', duration = 12,
         start_var = StartVar 0, end_var = EndVar 0, person_var = PersonVar 0 2,
         interval = IntervalVar (StartVar 0) 12 (EndVar 0) None\<rparr>
       \<in> set (snd (scenario_step calibration_personnel (0, calibration_scenarios ! 0) (CpModel, [])))"
      by (simp add: scenario_step_appends scenario_subtasks_def the_subtask_def
          calibration_scenarios_def numeral_2_eq_2)
    ultimately show ?thesis by simp
  qed
  show ?thesis
    using C6_shared_start_and_end [OF calibration_returns [of "''2025-01-06''"] _ len mem]
      calibration_returns [of "''2025-01-06''"] calibration_contract len mem
    by (simp add: calibration_scenarios_def)
qed

text \<open>The hypotheses of C7 hold on the calibration input: the two Finance sub-tasks
  are both on Alice, and the first ends when the second starts.\<close>

theorem C7_no_double_booking_witness:
  "find_optimal_schedule (\<lambda>_. calibration_answer) calibration_scenarios calibration_personnel
     ''2025-01-06'' = Inr (calibration_schedule ''2025-01-06'' 0 12, Some (3 / 4)) \<and>
   cp_sat_contract (fst (build_model calibration_scenarios calibration_personnel))
     calibration_answer \<and>
   length (snd (build_model calibration_scenarios calibration_personnel)) = 4 \<and>
   Value calibration_answer
     (person_var (snd (build_model calibration_scenarios calibration_personnel) ! 0)) = 0 \<and>
   Value calibration_answer
     (person_var (snd (build_model calibration_scenarios calibration_personnel) ! 3)) = 0 \<and>
   (Value calibration_answer
      (end_var (snd (build_model calibration_scenarios calibration_personnel) ! 0))
    \<le> Value calibration_answer
      (start_var (snd (build_model calibration_scenarios calibration_personnel) ! 3)) \<or>
    Value calibration_answer
      (end_var (snd (build_model calibration_scenarios calibration_personnel) ! 3))
    \<le> Value calibration_answer
      (start_var (snd (build_model calibration_scenarios calibration_personnel) ! 0)))"
proof -
  have len: "length (snd (build_model calibration_scenarios calibration_personnel)) = 4"
    by (simp add: build_model_subtasks calibration_subtasks)
  have p0: "Value calibration_answer
     (person_var (snd (build_model calibration_scenarios calibration_personnel) ! 0)) = 0"
    and p3: "Value calibration_answer
     (person_var (snd (build_model calibration_scenarios calibration_personnel) ! 3)) = 0"
    by (simp_all add: build_model_subtasks calibration_subtasks calibration_answer_def
        calibration_values_def)
  show ?thesis
    using C7_no_double_booking [OF calibration_returns [of "''2025-01-06''"], of 0 3]
      calibration_returns [of "''2025-01-06''"] calibration_contract len p0 p3
    by simp
qed

text \<open>The hypotheses of C8 hold for a scenario that lists Finance twice, with two
  Finance persons.\<close>

theorem C8_distinct_persons_within_scenario_witness:
  "find_optimal_schedule (\<lambda>_. pair_answer) pair_scenarios pair_personnel ''2025-01-06'' =
     Inr ([\<lparr>Scenario = ''Month-End Close'', Duration_Hours = 4,
            Start_Time = Timestamp ''2025-01-06'' 0, End_Time = Timestamp ''2025-01-06'' 4,
            Assigned_Persons = ''Alice, Dana'', Workstreams = ''Finance, Finance''\<rparr>],
          Some (1 / 6)) \<and>
   cp_sat_contract (fst (build_model pair_scenarios pair_personnel)) pair_answer \<and>
   required_workstreams (pair_scenarios ! 0) = [''Finance'', ''Finance''] \<and>
   0 < duration_hours (pair_scenarios ! 0) \<and>
   Value pair_answer (PersonVar 0 0) \<noteq> Value pair_answer (PersonVar 0 1)"
proof -
  have facts: "(0::nat) < length pair_scenarios" "0 < duration_hours (pair_scenarios ! 0)"
    "(0::nat) < length (required_workstreams (pair_scenarios ! 0))"
    "(1::nat) < length (required_workstreams (pair_scenarios ! 0))"
    "required_workstreams (pair_scenarios ! 0) = [''Finance'', ''Finance'']"
    by (simp_all add: pair_scenarios_def)
  show ?thesis
    using C8_distinct_persons_within_scenario [OF pair_returns _ facts(1-4)]
      pair_returns pair_contract facts
    by simp
qed

section \<open>A required workstream that nobody covers\<close>

text \<open>
  When \<^verbatim>\<open>valid_people_indices\<close> is empty the loop body adds no constraint on the person
  variable, although its comment says that this makes the problem infeasible.  The model
  then still has solutions, and the person variable ranges over everybody.
\<close>

lemma unstaffed_no_valid_people: "valid_people_indices unstaffed_personnel ''IT'' = []"
  by (simp add: valid_people_indices_def unstaffed_personnel_def)

lemma unstaffed_feasible:
  "feasible (fst (build_model unstaffed_scenarios unstaffed_personnel)) unstaffed_values"
  by code_simp

lemma unstaffed_subtasks:
  "all_subtasks_of unstaffed_scenarios =
     [\<lparr>scenario_name = ''Server Audit'', sub_workstream = ''IT'', duration = 1,
       start_var = StartVar 0, end_var = EndVar 0, person_var = PersonVar 0 0,
       interval = IntervalVar (StartVar 0) 1 (EndVar 0) None\<rparr>]"
  by (simp add: all_subtasks_of_def scenario_subtasks_def unstaffed_scenarios_def the_subtask_def)

lemma unstaffed_forced:
  assumes feas: "feasible (fst (build_model unstaffed_scenarios unstaffed_personnel)) \<sigma>"
  shows "\<sigma> (PersonVar 0 0) = 0" and "\<sigma> (EndVar 0) = \<sigma> (StartVar 0) + 1"
    and "0 \<le> \<sigma> (StartVar 0)" and "\<sigma> MaxEndTime = \<sigma> (EndVar 0)"
proof -
  show "\<sigma> (PersonVar 0 0) = 0"
    using person_value_in_range [OF feas, of "all_subtasks_of unstaffed_scenarios ! 0"]
    by (simp add: unstaffed_subtasks unstaffed_personnel_def)
  show "\<sigma> (EndVar 0) = \<sigma> (StartVar 0) + 1"
    using shared_interval [OF feas, of 0] by (simp add: unstaffed_scenarios_def)
  show "0 \<le> \<sigma> (StartVar 0)"
    using feasible_domain [OF feas conjunct1 [OF model_has_start_end_domain [of 0]]]
    by (simp add: unstaffed_scenarios_def)
  show "\<sigma> MaxEndTime = \<sigma> (EndVar 0)"
    using makespan_is_max [OF feas] by (simp add: unstaffed_scenarios_def)
qed

lemma unstaffed_contract:
  "cp_sat_contract (fst (build_model unstaffed_scenarios unstaffed_personnel)) unstaffed_answer"
proof -
  have "is_solution (fst (build_model unstaffed_scenarios unstaffed_personnel)) unstaffed_answer"
    using unstaffed_feasible
    by (simp add: is_solution_def build_model_objective unstaffed_answer_def unstaffed_values_def)
  moreover have "1 \<le> \<sigma> MaxEndTime"
    if "feasible (fst (build_model unstaffed_scenarios unstaffed_personnel)) \<sigma>" for \<sigma>
    using unstaffed_forced [OF that] by simp
  ultimately show ?thesis
    by (simp add: cp_sat_contract_def build_model_objective unstaffed_answer_def)
qed

lemma unstaffed_rows:
  assumes st: "status (Solve (fst (build_model unstaffed_scenarios unstaffed_personnel))) = OPTIMAL"
    and obj: "ObjectiveValue (Solve (fst (build_model unstaffed_scenarios unstaffed_personnel))) = 1"
    and vals:
      "Value (Solve (fst (build_model unstaffed_scenarios unstaffed_personnel))) (PersonVar 0 0) = 0"
      "Value (Solve (fst (build_model unstaffed_scenarios unstaffed_personnel))) (StartVar 0) = 0"
      "Value (Solve (fst (build_model unstaffed_scenarios unstaffed_personnel))) (EndVar 0) = 1"
  shows "find_optimal_schedule Solve unstaffed_scenarios unstaffed_personnel d =
           Inr (unstaffed_schedule d, Some (1 / 24))"
proof -
  define r where "r = Solve (fst (build_model unstaffed_scenarios unstaffed_personnel))"
  note vals' = vals [folded r_def]
  have "extract_loop r unstaffed_personnel d (all_subtasks_of unstaffed_scenarios) [] =
     Inr [(''Server Audit'',
           \<lparr>Scenario = ''Server Audit'', Duration_Hours = 1,
            Start_Time = Timestamp d 0, End_Time = Timestamp d 1,
            Assigned_Persons = [''Alice''], Workstreams = [''Finance'']\<rparr>)]"
    using vals'
    by (simp add: unstaffed_subtasks extract_step_def py_index_def unstaffed_personnel_def Let_def)
  then show ?thesis
    using st obj
    by (simp add: find_optimal_schedule_def split_beta build_model_subtasks r_def [symmetric]
        unstaffed_schedule_def format_row_def Let_def)
qed

text \<open>
  Claim C1, at a failing input.  Personnel: Alice of Finance.  Scenarios: one of one
  hour that requires IT.  Nobody is qualified for IT, and yet every solver that keeps its
  contract and completes its search makes \<^verbatim>\<open>find_optimal_schedule\<close> return a schedule, not
  the empty result: the IT sub-task is staffed with Alice, whose workstream is Finance.
\<close>

theorem C1_unstaffed_workstream_is_scheduled:
  assumes contract: "cp_sat_contract (fst (build_model unstaffed_scenarios unstaffed_personnel))
                       (Solve (fst (build_model unstaffed_scenarios unstaffed_personnel)))"
    and completed: "status (Solve (fst (build_model unstaffed_scenarios unstaffed_personnel))) = OPTIMAL \<or>
                    status (Solve (fst (build_model unstaffed_scenarios unstaffed_personnel))) = INFEASIBLE"
  shows "valid_people_indices unstaffed_personnel ''IT'' = [] \<and>
         find_optimal_schedule Solve unstaffed_scenarios unstaffed_personnel start_date_str =
           Inr (unstaffed_schedule start_date_str, Some (1 / 24))"
proof -
  let ?m = "fst (build_model unstaffed_scenarios unstaffed_personnel)"
  let ?r = "Solve ?m"
  have st: "status ?r = OPTIMAL"
    using completed contract unstaffed_feasible by (auto simp: cp_sat_contract_def)
  with contract have sol: "is_solution ?m ?r" by (simp add: cp_sat_contract_def)
  then have feas: "feasible ?m (Value ?r)" by (rule is_solution_feasible)
  have objv: "ObjectiveValue ?r = Value ?r MaxEndTime" by (rule is_solution_objective [OF sol])
  have "ObjectiveValue ?r \<le> unstaffed_values MaxEndTime"
    using contract st unstaffed_feasible
    by (simp add: cp_sat_contract_def build_model_objective)
  then have le: "Value ?r MaxEndTime \<le> 1" by (simp add: objv unstaffed_values_def)
  note forced = unstaffed_forced [OF feas]
  have "find_optimal_schedule Solve unstaffed_scenarios unstaffed_personnel start_date_str =
           Inr (unstaffed_schedule start_date_str, Some (1 / 24))"
    by (rule unstaffed_rows) (use st objv le forced in simp_all)
  then show ?thesis by (simp add: unstaffed_no_valid_people)
qed

text \<open>An answer that meets the hypotheses of the theorem above.\<close>

theorem C1_unstaffed_workstream_is_scheduled_witness:
  "cp_sat_contract (fst (build_model unstaffed_scenarios unstaffed_personnel)) unstaffed_answer \<and>
   status unstaffed_answer = OPTIMAL \<and>
   valid_people_indices unstaffed_personnel ''IT'' = [] \<and>
   find_optimal_schedule (\<lambda>_. unstaffed_answer) unstaffed_scenarios unstaffed_personnel
     ''2025-01-06'' = Inr (unstaffed_schedule ''2025-01-06'', Some (1 / 24))"
proof -
  have st: "status unstaffed_answer = OPTIMAL" by (simp add: unstaffed_answer_def)
  show ?thesis
    using C1_unstaffed_workstream_is_scheduled [of "\<lambda>_. unstaffed_answer" "''2025-01-06''"]
      unstaffed_contract st by simp
qed

lemma mixed_valid_people:
  "valid_people_indices mixed_personnel ''Finance'' = [0]"
  "valid_people_indices mixed_personnel ''IT'' = []"
  by (simp_all add: valid_people_indices_def people_map_def mixed_personnel_def)

lemma mixed_feasible:
  "feasible (fst (build_model mixed_scenarios mixed_personnel)) mixed_values"
  by code_simp

lemma mixed_subtasks:
  "all_subtasks_of mixed_scenarios =
     [\<lparr>scenario_name = ''System Rollout'', sub_workstream = ''Finance'', duration = 2,
       start_var = StartVar 0, end_var = EndVar 0, person_var = PersonVar 0 0,
       interval = IntervalVar (StartVar 0) 2 (EndVar 0) None\<rparr>,
      \<lparr>scenario_name = ''System Rollout'', sub_workstream = ''IT'', duration = 2,
       start_var = StartVar 0, end_var = EndVar 0, person_var = PersonVar 0 1,
       interval = IntervalVar (StartVar 0) 2 (EndVar 0) None\<rparr>]"
  by (simp add: all_subtasks_of_def scenario_subtasks_def mixed_scenarios_def the_subtask_def)

lemma mixed_forced:
  assumes feas: "feasible (fst (build_model mixed_scenarios mixed_personnel)) \<sigma>"
  shows "\<sigma> (PersonVar 0 0) = 0" and "\<sigma> (PersonVar 0 1) = 1"
    and "\<sigma> (EndVar 0) = \<sigma> (StartVar 0) + 2"
    and "0 \<le> \<sigma> (StartVar 0)" and "\<sigma> MaxEndTime = \<sigma> (EndVar 0)"
proof -
  show p0: "\<sigma> (PersonVar 0 0) = 0"
    using feasible_sat [OF feas model_has_AllowedAssignments
        [of "all_subtasks_of mixed_scenarios ! 0" mixed_scenarios mixed_personnel]]
    by (simp add: mixed_subtasks mixed_valid_people)
  show e: "\<sigma> (EndVar 0) = \<sigma> (StartVar 0) + 2"
    using shared_interval [OF feas, of 0] by (simp add: mixed_scenarios_def)
  have rng: "0 \<le> \<sigma> (PersonVar 0 1) \<and> \<sigma> (PersonVar 0 1) < 2"
    using person_value_in_range [OF feas, of "all_subtasks_of mixed_scenarios ! 1"]
    by (simp add: mixed_subtasks mixed_personnel_def)
  have "\<sigma> (PersonVar 0 0) \<noteq> \<sigma> (PersonVar 0 1)"
  proof
    assume "\<sigma> (PersonVar 0 0) = \<sigma> (PersonVar 0 1)"
    then have "\<sigma> (EndVar 0) \<le> \<sigma> (StartVar 0)"
      using no_double_booking [OF feas, of 0 1] by (simp add: mixed_subtasks)
    with e show False by simp
  qed
  with p0 rng show "\<sigma> (PersonVar 0 1) = 1" by linarith
  show "0 \<le> \<sigma> (StartVar 0)"
    using feasible_domain [OF feas conjunct1 [OF model_has_start_end_domain [of 0]]]
    by (simp add: mixed_scenarios_def)
  show "\<sigma> MaxEndTime = \<sigma> (EndVar 0)"
    using makespan_is_max [OF feas] by (simp add: mixed_scenarios_def)
qed

lemma mixed_contract:
  "cp_sat_contract (fst (build_model mixed_scenarios mixed_personnel)) mixed_answer"
proof -
  have "is_solution (fst (build_model mixed_scenarios mixed_personnel)) mixed_answer"
    using mixed_feasible
    by (simp add: is_solution_def build_model_objective mixed_answer_def mixed_values_def)
  moreover have "2 \<le> \<sigma> MaxEndTime"
    if "feasible (fst (build_model mixed_scenarios mixed_personnel)) \<sigma>" for \<sigma>
    using mixed_forced [OF that] by simp
  ultimately show ?thesis
    by (simp add: cp_sat_contract_def build_model_objective mixed_answer_def)
qed

lemma mixed_rows:
  assumes st: "status (Solve (fst (build_model mixed_scenarios mixed_personnel))) = OPTIMAL"
    and obj: "ObjectiveValue (Solve (fst (build_model mixed_scenarios mixed_personnel))) = 2"
    and vals:
      "Value (Solve (fst (build_model mixed_scenarios mixed_personnel))) (PersonVar 0 0) = 0"
      "Value (Solve (fst (build_model mixed_scenarios mixed_personnel))) (PersonVar 0 1) = 1"
      "Value (Solve (fst (build_model mixed_scenarios mixed_personnel))) (StartVar 0) = 0"
      "Value (Solve (fst (build_model mixed_scenarios mixed_personnel))) (EndVar 0) = 2"
  shows "find_optimal_schedule Solve mixed_scenarios mixed_personnel d =
           Inr (mixed_schedule d, Some (2 / 24))"
proof -
  define r where "r = Solve (fst (build_model mixed_scenarios mixed_personnel))"
  note vals' = vals [folded r_def]
  have srt: "sort [''Alice'', ''Bob''] = [''Alice'', ''Bob'']"
    "sort [''Finance'', ''Logistics''] = [''Finance'', ''Logistics'']"
    by code_simp+
  have "extract_loop r mixed_personnel d (all_subtasks_of mixed_scenarios) [] =
     Inr [(''System Rollout'',
           \<lparr>Scenario = ''System Rollout'', Duration_Hours = 2,
            Start_Time = Timestamp d 0, End_Time = Timestamp d 2,
            Assigned_Persons = [''Alice'', ''Bob''],
            Workstreams = [''Finance'', ''Logistics'']\<rparr>)]"
    using vals'
    by (simp add: mixed_subtasks extract_step_def py_index_def mixed_personnel_def Let_def)
  then show ?thesis
    using st obj
    by (simp add: find_optimal_schedule_def split_beta build_model_subtasks r_def [symmetric]
        mixed_schedule_def format_row_def srt Let_def)
qed

text \<open>
  Claim C2, at a failing input.  Personnel: Alice of Finance and Bob of Logistics.
  Scenarios: one of two hours that requires Finance and IT.  With every solver that keeps
  its contract and completes its search a schedule is returned in which the sub-task that
  requires IT is assigned to Bob, whose workstream is Logistics.
\<close>

theorem C2_other_workstream_is_assigned:
  assumes contract: "cp_sat_contract (fst (build_model mixed_scenarios mixed_personnel))
                       (Solve (fst (build_model mixed_scenarios mixed_personnel)))"
    and completed: "status (Solve (fst (build_model mixed_scenarios mixed_personnel))) = OPTIMAL \<or>
                    status (Solve (fst (build_model mixed_scenarios mixed_personnel))) = INFEASIBLE"
  shows "sub_workstream (snd (build_model mixed_scenarios mixed_personnel) ! 1) = ''IT'' \<and>
         py_index mixed_personnel
           (Value (Solve (fst (build_model mixed_scenarios mixed_personnel)))
              (person_var (snd (build_model mixed_scenarios mixed_personnel) ! 1))) =
           Inr \<lparr>name = ''Bob'', workstream = ''Logistics''\<rparr> \<and>
         find_optimal_schedule Solve mixed_scenarios mixed_personnel start_date_str =
           Inr (mixed_schedule start_date_str, Some (2 / 24))"
proof -
  let ?m = "fst (build_model mixed_scenarios mixed_personnel)"
  let ?r = "Solve ?m"
  have st: "status ?r = OPTIMAL"
    using completed contract mixed_feasible by (auto simp: cp_sat_contract_def)
  with contract have sol: "is_solution ?m ?r" by (simp add: cp_sat_contract_def)
  then have feas: "feasible ?m (Value ?r)" by (rule is_solution_feasible)
  have objv: "ObjectiveValue ?r = Value ?r MaxEndTime" by (rule is_solution_objective [OF sol])
  have "ObjectiveValue ?r \<le> mixed_values MaxEndTime"
    using contract st mixed_feasible
    by (simp add: cp_sat_contract_def build_model_objective)
  then have le: "Value ?r MaxEndTime \<le> 2" by (simp add: objv mixed_values_def)
  note forced = mixed_forced [OF feas]
  have ret: "find_optimal_schedule Solve mixed_scenarios mixed_personnel start_date_str =
           Inr (mixed_schedule start_date_str, Some (2 / 24))"
    by (rule mixed_rows) (use st objv le forced in simp_all)
  have ws: "sub_workstream (snd (build_model mixed_scenarios mixed_personnel) ! 1) = ''IT''"
    and pv: "person_var (snd (build_model mixed_scenarios mixed_personnel) ! 1) = PersonVar 0 1"
    by (simp_all add: build_model_subtasks mixed_subtasks)
  have "py_index mixed_personnel (Value ?r (PersonVar 0 1)) =
      Inr \<lparr>name = ''Bob'', workstream = ''Logistics''\<rparr>"
    using forced(2) by (simp add: py_index_def mixed_personnel_def)
  with ret ws pv show ?thesis by simp
qed

text \<open>An answer that meets the hypotheses of the theorem above.\<close>

theorem C2_other_workstream_is_assigned_witness:
  "cp_sat_contract (fst (build_model mixed_scenarios mixed_personnel)) mixed_answer \<and>
   status mixed_answer = OPTIMAL \<and>
   sub_workstream (snd (build_model mixed_scenarios mixed_personnel) ! 1) = ''IT'' \<and>
   py_index mixed_personnel
     (Value mixed_answer (person_var (snd (build_model mixed_scenarios mixed_personnel) ! 1))) =
     Inr \<lparr>name = ''Bob'', workstream = ''Logistics''\<rparr> \<and>
   find_optimal_schedule (\<lambda>_. mixed_answer) mixed_scenarios mixed_personnel ''2025-01-06'' =
     Inr (mixed_schedule ''2025-01-06'', Some (2 / 24))"
proof -
  have st: "status mixed_answer = OPTIMAL" by (simp add: mixed_answer_def)
  show ?thesis
    using C2_other_workstream_is_assigned [of "\<lambda>_. mixed_answer" "''2025-01-06''"]
      mixed_contract st by simp
qed

section \<open>A scenario without required workstreams and the makespan\<close>

lemma skipped_feasible:
  "feasible (fst (build_model skipped_scenarios skipped_personnel)) skipped_values"
  by code_simp

lemma skipped_lower_bound:
  assumes feas: "feasible (fst (build_model skipped_scenarios skipped_personnel)) \<sigma>"
  shows "1 \<le> \<sigma> MaxEndTime"
proof -
  have "\<sigma> MaxEndTime = \<sigma> (EndVar 0)"
    using makespan_is_max [OF feas] by (simp add: skipped_scenarios_def)
  moreover have "\<sigma> (EndVar 0) = \<sigma> (StartVar 0) + 1"
    using shared_interval [OF feas, of 0] by (simp add: skipped_scenarios_def)
  moreover have "0 \<le> \<sigma> (StartVar 0)"
    using feasible_domain [OF feas conjunct1 [OF model_has_start_end_domain [of 0]]]
    by (simp add: skipped_scenarios_def)
  ultimately show ?thesis by simp
qed

lemma skipped_contract:
  "cp_sat_contract (fst (build_model skipped_scenarios skipped_personnel)) skipped_answer"
proof -
  have "is_solution (fst (build_model skipped_scenarios skipped_personnel)) skipped_answer"
    using skipped_feasible
    by (simp add: is_solution_def build_model_objective skipped_answer_def skipped_values_def)
  then show ?thesis
    using skipped_lower_bound
    by (simp add: cp_sat_contract_def build_model_objective skipped_answer_def)
qed

lemma skipped_returns:
  "find_optimal_schedule (\<lambda>_. skipped_answer) skipped_scenarios skipped_personnel ''2025-01-06'' =
     Inr ([\<lparr>Scenario = ''Ledger Review'', Duration_Hours = 1,
            Start_Time = Timestamp ''2025-01-06'' 0, End_Time = Timestamp ''2025-01-06'' 1,
            Assigned_Persons = ''Alice'', Workstreams = ''Finance''\<rparr>],
          Some (1 / 24))"
  by code_simp

text \<open>
  Claim C5 as stated fails.  Personnel: Alice of Finance.  Scenarios: one of one hour
  that requires Finance, and one of five hours whose list of required workstreams is
  empty.  The optimal answer has objective 1, so the total is 1/24 of a day, while the
  greatest solved end over all scenarios is 5.
\<close>

theorem C5_all_scenarios_counterexample:
  "cp_sat_contract (fst (build_model skipped_scenarios skipped_personnel)) skipped_answer \<and>
   status skipped_answer = OPTIMAL \<and>
   find_optimal_schedule (\<lambda>_. skipped_answer) skipped_scenarios skipped_personnel ''2025-01-06'' =
     Inr ([\<lparr>Scenario = ''Ledger Review'', Duration_Hours = 1,
            Start_Time = Timestamp ''2025-01-06'' 0, End_Time = Timestamp ''2025-01-06'' 1,
            Assigned_Persons = ''Alice'', Workstreams = ''Finance''\<rparr>],
          Some (1 / 24)) \<and>
   Max (set (map (\<lambda>(i, sc). Value skipped_answer (EndVar i)) (enumerate 0 skipped_scenarios))) = 5 \<and>
   (1 / 24 :: real) * 24 \<noteq>
     real_of_int (Max (set (map (\<lambda>(i, sc). Value skipped_answer (EndVar i))
                              (enumerate 0 skipped_scenarios))))"
proof -
  have mx: "Max (set (map (\<lambda>(i, sc). Value skipped_answer (EndVar i))
                       (enumerate 0 skipped_scenarios))) = 5"
    by (simp add: skipped_scenarios_def skipped_answer_def skipped_values_def)
  have st: "status skipped_answer = OPTIMAL" by (simp add: skipped_answer_def)
  have ne: "(1 / 24 :: real) * 24 \<noteq>
     real_of_int (Max (set (map (\<lambda>(i, sc). Value skipped_answer (EndVar i))
                              (enumerate 0 skipped_scenarios))))"
    unfolding mx by simp
  from skipped_contract st skipped_returns mx ne show ?thesis by blast
qed

section \<open>Empty input\<close>

text \<open>
  \<^verbatim>\<open>find_optimal_schedule\<close> has no check for empty lists.  With no scenario there is no
  end variable for the maximum, and with no person the domain of a person variable is
  empty: the model has no solution.
\<close>

lemma all_subtasks_of_Nil: "all_subtasks_of [] = []"
  by (simp add: all_subtasks_of_def)

lemma empty_input_infeasible:
  assumes empty: "personnel = [] \<or> scenarios = []"
  shows "\<not> feasible (fst (build_model scenarios personnel)) \<sigma>"
proof
  assume feas: "feasible (fst (build_model scenarios personnel)) \<sigma>"
  show False
  proof (cases "all_subtasks_of scenarios = []")
    case True
    have "sat \<sigma> (MaxEquality MaxEndTime (remdups (map end_var (all_subtasks_of scenarios))))"
      by (rule feasible_sat [OF feas model_has_MaxEquality])
    with True show False by simp
  next
    case False
    then obtain t where t: "t \<in> set (all_subtasks_of scenarios)"
      by (cases "all_subtasks_of scenarios") auto
    from False have "scenarios \<noteq> []" by (auto simp: all_subtasks_of_Nil)
    with empty have "personnel = []" by simp
    with person_value_in_range [OF feas t] show False by auto
  qed
qed

lemma not_returned_without_solution:
  assumes contract: "cp_sat_contract (fst (build_model scenarios personnel))
                       (Solve (fst (build_model scenarios personnel)))"
    and none: "\<And>\<sigma>. \<not> feasible (fst (build_model scenarios personnel)) \<sigma>"
  shows "find_optimal_schedule Solve scenarios personnel d = Inr ([], None)"
proof -
  have "\<not> (status (Solve (fst (build_model scenarios personnel))) = OPTIMAL \<or>
           status (Solve (fst (build_model scenarios personnel))) = FEASIBLE)"
    using contract none by (auto simp: cp_sat_contract_def is_solution_def)
  then show ?thesis
    by (simp add: find_optimal_schedule_def split_beta Let_def)
qed

text \<open>
  Claim C3, as amended.  When the personnel list or the scenarios list is empty, the
  caller \<^verbatim>\<open>app\<close> shows its message and returns, whatever the solver would answer, so that
  on this path no model is built and nothing is solved; \<^verbatim>\<open>find_optimal_schedule\<close> itself,
  called with such input and a solver that keeps its contract, returns the empty result
  (an empty schedule and no total) and no error.
\<close>

theorem C3_empty_input_checked_by_caller:
  assumes empty: "personnel_data = [] \<or> scenario_data = []"
    and contract: "cp_sat_contract (fst (build_model scenario_data personnel_data))
                     (Solve (fst (build_model scenario_data personnel_data)))"
  shows "app Solve' scenario_data personnel_data start_date_str = Inr Tables_Empty_Message \<and>
         find_optimal_schedule Solve scenario_data personnel_data start_date_str = Inr ([], None)"
proof
  show "app Solve' scenario_data personnel_data start_date_str = Inr Tables_Empty_Message"
    using empty by (auto simp: app_def)
  show "find_optimal_schedule Solve scenario_data personnel_data start_date_str = Inr ([], None)"
    by (rule not_returned_without_solution
        [of scenario_data personnel_data Solve, OF contract empty_input_infeasible [OF empty]])
qed

lemma no_personnel_contract:
  "cp_sat_contract (fst (build_model calibration_scenarios [])) no_solution_answer"
  using empty_input_infeasible [of "[]" calibration_scenarios]
  by (simp add: cp_sat_contract_def no_solution_answer_def)

text \<open>The hypotheses of the amended C3 hold for the calibration scenarios and no
  person.\<close>

theorem C3_empty_input_checked_by_caller_witness:
  "([] :: person list) = [] \<and>
   cp_sat_contract (fst (build_model calibration_scenarios [])) no_solution_answer \<and>
   app (\<lambda>_. zero_answer) calibration_scenarios [] ''2025-01-06'' = Inr Tables_Empty_Message \<and>
   find_optimal_schedule (\<lambda>_. no_solution_answer) calibration_scenarios [] ''2025-01-06'' =
     Inr ([], None)"
  using C3_empty_input_checked_by_caller
    [of "[]" calibration_scenarios "\<lambda>_. no_solution_answer" "\<lambda>_. zero_answer" "''2025-01-06''"]
    no_personnel_contract
  by simp

text \<open>
  Claim C3 as stated fails.  With both lists empty \<^verbatim>\<open>find_optimal_schedule\<close> builds a
  model (one variable, one constraint and the objective), and what it returns is decided
  by the answer of the solver: a normal return in both cases, not an error raised before
  the model is built.
\<close>

theorem C3_engine_builds_and_solves_counterexample:
  "fst (build_model [] []) =
     \<lparr>variables = [(MaxEndTime, 0, 1440)],
      constraints = [MaxEquality MaxEndTime []],
      objective = Some MaxEndTime\<rparr> \<and>
   find_optimal_schedule (\<lambda>_. no_solution_answer) [] [] ''2025-01-06'' = Inr ([], None) \<and>
   find_optimal_schedule (\<lambda>_. zero_answer) [] [] ''2025-01-06'' = Inr ([], Some 0)"
  by (simp add: find_optimal_schedule_def build_model_def CpModel_def NewIntVar_def Add_def
      Minimize_def horizon_def no_solution_answer_def zero_answer_def Let_def)

section \<open>The result extraction\<close>

text \<open>
  The loop over \<^verbatim>\<open>all_subtasks\<close> keeps one entry per scenario name, in the order in which
  the names first appear; the entry is created from the first sub-task of that name and
  collects the person and workstream read for every sub-task of that name.
\<close>

lemma keys_in_order_snoc:
  "keys_in_order (xs @ [x]) = (if x \<in> set xs then keys_in_order xs else keys_in_order xs @ [x])"
  by (simp add: keys_in_order_def)

lemma distinct_keys_in_order: "distinct (keys_in_order xs)"
  by (simp add: keys_in_order_def)

lemma set_keys_in_order: "set (keys_in_order xs) = set xs"
  by (simp add: keys_in_order_def)

lemma append_to_other:
  "k \<notin> fst ` set rs \<Longrightarrow> append_to k p w rs = rs"
  by (induction rs) auto

lemma append_to_map:
  "distinct ks \<Longrightarrow>
   append_to k p w (map (\<lambda>k'. (k', f k')) ks) =
     map (\<lambda>k'. (k', if k' = k
                    then (f k')\<lparr>Assigned_Persons := Assigned_Persons (f k') @ [p],
                               Workstreams := Workstreams (f k') @ [w]\<rparr>
                    else f k')) ks"
proof (induction ks)
  case Nil
  then show ?case by simp
next
  case (Cons a ks)
  show ?case
  proof (cases "a = k")
    case True
    with Cons.prems have "k \<notin> set ks" by simp
    then have "map (\<lambda>k'. (k', if k' = k
                    then (f k')\<lparr>Assigned_Persons := Assigned_Persons (f k') @ [p],
                               Workstreams := Workstreams (f k') @ [w]\<rparr>
                    else f k')) ks = map (\<lambda>k'. (k', f k')) ks"
      by (intro map_cong) auto
    with True show ?thesis by simp
  next
    case False
    with Cons show ?thesis by simp
  qed
qed

lemma named_snoc:
  "named (sts @ [st]) k = (if scenario_name st = k then named sts k @ [st] else named sts k)"
  by (simp add: named_def)

lemma named_Nil_iff: "named sts k = [] \<longleftrightarrow> k \<notin> scenario_name ` set sts"
  by (auto simp: named_def filter_empty_conv)

lemma result_for_other:
  "scenario_name st \<noteq> k \<Longrightarrow>
   result_for solver personnel d (sts @ [st]) k = result_for solver personnel d sts k"
  by (simp add: result_for_def named_snoc)

lemma result_for_new:
  "scenario_name st \<notin> scenario_name ` set sts \<Longrightarrow>
   result_for solver personnel d (sts @ [st]) (scenario_name st) =
     \<lparr>Scenario = scenario_name st,
      Duration_Hours = duration st,
      Start_Time = Timestamp d (Value solver (start_var st)),
      End_Time = Timestamp d (Value solver (end_var st)),
      Assigned_Persons = [name (assigned solver personnel st)],
      Workstreams = [workstream (assigned solver personnel st)]\<rparr>"
  using named_Nil_iff [of sts "scenario_name st"]
  by (simp add: result_for_def named_snoc)

lemma result_for_more:
  "scenario_name st \<in> scenario_name ` set sts \<Longrightarrow>
   result_for solver personnel d (sts @ [st]) (scenario_name st) =
     (result_for solver personnel d sts (scenario_name st))
       \<lparr>Assigned_Persons := Assigned_Persons (result_for solver personnel d sts (scenario_name st))
                              @ [name (assigned solver personnel st)],
        Workstreams := Workstreams (result_for solver personnel d sts (scenario_name st))
                         @ [workstream (assigned solver personnel st)]\<rparr>"
  using named_Nil_iff [of sts "scenario_name st"]
  by (simp add: result_for_def named_snoc)

lemma py_index_in_range:
  "0 \<le> i \<Longrightarrow> i < int (length xs) \<Longrightarrow> py_index xs i = Inr (xs ! nat i)"
  by (simp add: py_index_def)

lemma extract_step_results:
  assumes rng: "0 \<le> Value solver (person_var st)"
    "Value solver (person_var st) < int (length personnel)"
  shows "extract_step solver personnel d st (results_of solver personnel d sts) =
           Inr (results_of solver personnel d (sts @ [st]))"
proof -
  let ?k = "scenario_name st"
  let ?ks = "keys_in_order (map scenario_name sts)"
  let ?p = "name (assigned solver personnel st)"
  let ?w = "workstream (assigned solver personnel st)"
  have keys: "fst ` set (results_of solver personnel d sts) = scenario_name ` set sts"
    by (simp add: results_of_def image_image set_keys_in_order)
  have idx: "py_index personnel (Value solver (person_var st)) = Inr (assigned solver personnel st)"
    using rng by (simp add: py_index_in_range assigned_def)
  show ?thesis
  proof (cases "?k \<in> scenario_name ` set sts")
    case True
    have "append_to ?k ?p ?w (results_of solver personnel d sts) =
        map (\<lambda>k'. (k', if k' = ?k
                    then (result_for solver personnel d sts k')
                           \<lparr>Assigned_Persons := Assigned_Persons (result_for solver personnel d sts k') @ [?p],
                            Workstreams := Workstreams (result_for solver personnel d sts k') @ [?w]\<rparr>
                    else result_for solver personnel d sts k')) ?ks"
      unfolding results_of_def by (rule append_to_map [OF distinct_keys_in_order])
    also have "\<dots> = map (\<lambda>k'. (k', result_for solver personnel d (sts @ [st]) k')) ?ks"
      using True by (intro map_cong) (auto simp: result_for_other result_for_more)
    also have "\<dots> = results_of solver personnel d (sts @ [st])"
      using True by (simp add: results_of_def keys_in_order_snoc)
    finally show ?thesis
      using True by (simp add: extract_step_def idx keys Let_def)
  next
    case False
    let ?new = "\<lparr>Scenario = ?k, Duration_Hours = duration st,
                  Start_Time = Timestamp d (Value solver (start_var st)),
                  End_Time = Timestamp d (Value solver (end_var st)),
                  Assigned_Persons = [] :: string list, Workstreams = [] :: string list\<rparr>"
    have "append_to ?k ?p ?w (results_of solver personnel d sts @ [(?k, ?new)]) =
        append_to ?k ?p ?w (map (\<lambda>k'. (k', if k' = ?k then ?new
                                          else result_for solver personnel d sts k')) (?ks @ [?k]))"
    proof -
      have ne: "k' \<noteq> ?k" if "k' \<in> set ?ks" for k'
        using that False by (metis set_keys_in_order set_map)
      have eq: "map (\<lambda>k'. (k', if k' = ?k then ?new else result_for solver personnel d sts k')) ?ks =
            map (\<lambda>k'. (k', result_for solver personnel d sts k')) ?ks"
        by (intro map_cong) (simp_all add: ne)
      show ?thesis
        unfolding results_of_def map_append eq by simp
    qed
    also have "\<dots> = map (\<lambda>k'. (k', if k' = ?k
                    then (if k' = ?k then ?new else result_for solver personnel d sts k')
                           \<lparr>Assigned_Persons :=
                              Assigned_Persons (if k' = ?k then ?new
                                                else result_for solver personnel d sts k') @ [?p],
                            Workstreams :=
                              Workstreams (if k' = ?k then ?new
                                           else result_for solver personnel d sts k') @ [?w]\<rparr>
                    else (if k' = ?k then ?new else result_for solver personnel d sts k')))
                (?ks @ [?k])"
      using False
      by (intro append_to_map) (simp add: distinct_keys_in_order set_keys_in_order)
    also have "\<dots> = map (\<lambda>k'. (k', result_for solver personnel d (sts @ [st]) k')) (?ks @ [?k])"
      using False by (intro map_cong) (auto simp: result_for_other result_for_new)
    also have "\<dots> = results_of solver personnel d (sts @ [st])"
      using False by (simp add: results_of_def keys_in_order_snoc)
    finally show ?thesis
      using False by (simp add: extract_step_def idx keys Let_def)
  qed
qed

lemma extract_loop_results:
  assumes "\<forall>st \<in> set sts. 0 \<le> Value solver (person_var st) \<and>
             Value solver (person_var st) < int (length personnel)"
  shows "extract_loop solver personnel d sts (results_of solver personnel d pre) =
           Inr (results_of solver personnel d (pre @ sts))"
  using assms
proof (induction sts arbitrary: pre)
  case Nil
  then show ?case by simp
next
  case (Cons st sts)
  have "extract_step solver personnel d st (results_of solver personnel d pre) =
      Inr (results_of solver personnel d (pre @ [st]))"
    using Cons.prems by (intro extract_step_results) simp_all
  moreover have "extract_loop solver personnel d sts (results_of solver personnel d (pre @ [st])) =
      Inr (results_of solver personnel d ((pre @ [st]) @ sts))"
    using Cons.prems by (intro Cons.IH) simp
  ultimately show ?case by simp
qed

lemma extract_loop_from_empty:
  assumes "\<forall>st \<in> set sts. 0 \<le> Value solver (person_var st) \<and>
             Value solver (person_var st) < int (length personnel)"
  shows "extract_loop solver personnel d sts [] = Inr (results_of solver personnel d sts)"
proof -
  have "results_of solver personnel d [] = []"
    by (simp add: results_of_def keys_in_order_def)
  with extract_loop_results [OF assms, of d "[]"] show ?thesis by simp
qed

lemma returned_rows:
  assumes ret: "find_optimal_schedule Solve scenarios personnel d = Inr (schedule, Some total_days)"
    and contract: "cp_sat_contract (fst (build_model scenarios personnel))
                     (Solve (fst (build_model scenarios personnel)))"
  shows "schedule =
     map (format_row \<circ> snd)
       (results_of (Solve (fst (build_model scenarios personnel))) personnel d
          (snd (build_model scenarios personnel)))"
proof -
  let ?r = "Solve (fst (build_model scenarios personnel))"
  have feas: "feasible (fst (build_model scenarios personnel)) (Value ?r)"
    by (rule is_solution_feasible [OF returned_feasible [OF ret contract]])
  have "\<forall>st \<in> set (snd (build_model scenarios personnel)).
          0 \<le> Value ?r (person_var st) \<and> Value ?r (person_var st) < int (length personnel)"
    using person_value_in_range [OF feas] by (simp add: build_model_subtasks)
  then have "extract_loop ?r personnel d (snd (build_model scenarios personnel)) [] =
      Inr (results_of ?r personnel d (snd (build_model scenarios personnel)))"
    by (rule extract_loop_from_empty)
  with ret show ?thesis
    by (auto simp: find_optimal_schedule_def split_beta Let_def split: if_splits)
qed

lemma Scenario_format_row: "Scenario (format_row res) = Scenario res"
  by (simp add: format_row_def)

lemma names_of_results:
  "map (Scenario \<circ> format_row \<circ> snd) (results_of solver personnel d sts) =
     keys_in_order (map scenario_name sts)"
  by (simp add: results_of_def comp_def Scenario_format_row result_for_def)

lemma names_of_subtasks:
  "set (map scenario_name (all_subtasks_of S)) =
   set (map sc_name (filter (\<lambda>sc. required_workstreams sc \<noteq> []) S))"
proof (rule set_eqI)
  fix k
  have "k \<in> set (map scenario_name (all_subtasks_of S)) \<longleftrightarrow>
        (\<exists>t. t \<in> set (all_subtasks_of S) \<and> k = scenario_name t)"
    by auto
  also have "\<dots> \<longleftrightarrow>
        (\<exists>i n. i < length S \<and> n < length (required_workstreams (S ! i)) \<and> k = sc_name (S ! i))"
  proof
    assume "\<exists>t. t \<in> set (all_subtasks_of S) \<and> k = scenario_name t"
    then obtain t where "t \<in> set (all_subtasks_of S)" "k = scenario_name t" by blast
    then obtain i n where "i < length S" "n < length (required_workstreams (S ! i))"
      "t = the_subtask i (S ! i) (n, required_workstreams (S ! i) ! n)"
      unfolding in_all_subtasks_of by blast
    with \<open>k = scenario_name t\<close>
    have "i < length S \<and> n < length (required_workstreams (S ! i)) \<and> k = sc_name (S ! i)"
      by (simp add: the_subtask_def)
    then show "\<exists>i n. i < length S \<and> n < length (required_workstreams (S ! i)) \<and> k = sc_name (S ! i)"
      by blast
  next
    assume "\<exists>i n. i < length S \<and> n < length (required_workstreams (S ! i)) \<and> k = sc_name (S ! i)"
    then obtain i n where ik: "i < length S" "n < length (required_workstreams (S ! i))"
      "k = sc_name (S ! i)"
      by blast
    let ?t = "the_subtask i (S ! i) (n, required_workstreams (S ! i) ! n)"
    have "?t \<in> set (all_subtasks_of S)"
      unfolding in_all_subtasks_of using ik by blast
    moreover have "k = scenario_name ?t" using ik by (simp add: the_subtask_def)
    ultimately show "\<exists>t. t \<in> set (all_subtasks_of S) \<and> k = scenario_name t" by blast
  qed
  also have "\<dots> \<longleftrightarrow> (\<exists>i. i < length S \<and> required_workstreams (S ! i) \<noteq> [] \<and> k = sc_name (S ! i))"
  proof -
    have "(\<exists>n. n < length (required_workstreams (S ! i))) \<longleftrightarrow> required_workstreams (S ! i) \<noteq> []"
      for i
      by (cases "required_workstreams (S ! i)") auto
    then show ?thesis by auto
  qed
  also have "\<dots> \<longleftrightarrow> k \<in> set (map sc_name (filter (\<lambda>sc. required_workstreams sc \<noteq> []) S))"
    by (auto simp: in_set_conv_nth image_iff)
  finally show "k \<in> set (map scenario_name (all_subtasks_of S)) \<longleftrightarrow>
     k \<in> set (map sc_name (filter (\<lambda>sc. required_workstreams sc \<noteq> []) S))" .
qed

text \<open>
  Claim C10.  Whenever a schedule is returned by a solver that keeps its contract, its
  rows have pairwise different names, and the names are those of the scenarios that have
  sub-tasks (a scenario without required workstreams has none, see C9): one row per
  distinct name, not one per scenario.  The row of a name carries the duration and the
  start and end of the first sub-task of that name, and the persons and workstreams read
  for all sub-tasks of that name, of whichever scenario, collected in order and then
  sorted and joined.  \<open>named\<close> selects the sub-tasks of a name and \<open>assigned\<close> is the person
  at the solved index.
\<close>

theorem C10_rows_merged_by_name:
  assumes ret: "find_optimal_schedule Solve scenarios personnel start_date_str =
                  Inr (schedule, Some total_days)"
    and contract: "cp_sat_contract (fst (build_model scenarios personnel))
                     (Solve (fst (build_model scenarios personnel)))"
  shows "distinct (map Scenario schedule) \<and>
         set (map Scenario schedule) =
           set (map sc_name (filter (\<lambda>sc. required_workstreams sc \<noteq> []) scenarios)) \<and>
         (\<forall>row \<in> set schedule.
            Duration_Hours row =
              duration (hd (named (snd (build_model scenarios personnel)) (Scenario row))) \<and>
            Start_Time row =
              Timestamp start_date_str
                (Value (Solve (fst (build_model scenarios personnel)))
                   (start_var (hd (named (snd (build_model scenarios personnel)) (Scenario row))))) \<and>
            End_Time row =
              Timestamp start_date_str
                (Value (Solve (fst (build_model scenarios personnel)))
                   (end_var (hd (named (snd (build_model scenarios personnel)) (Scenario row))))) \<and>
            Assigned_Persons row =
              join '', ''
                (sort (map (\<lambda>st. name (assigned (Solve (fst (build_model scenarios personnel)))
                                           personnel st))
                         (named (snd (build_model scenarios personnel)) (Scenario row)))) \<and>
            Workstreams row =
              join '', ''
                (sort (map (\<lambda>st. workstream (assigned (Solve (fst (build_model scenarios personnel)))
                                                 personnel st))
                         (named (snd (build_model scenarios personnel)) (Scenario row)))))"
proof -
  let ?r = "Solve (fst (build_model scenarios personnel))"
  let ?subs = "snd (build_model scenarios personnel)"
  have rows: "schedule = map (format_row \<circ> snd) (results_of ?r personnel start_date_str ?subs)"
    by (rule returned_rows [OF ret contract])
  have names: "map Scenario schedule = keys_in_order (map scenario_name ?subs)"
    using names_of_results [of ?r personnel start_date_str ?subs] by (simp add: rows comp_def)
  have fields: "row = format_row (result_for ?r personnel start_date_str ?subs (Scenario row))"
    if "row \<in> set schedule" for row
  proof -
    from that obtain k where "row = format_row (result_for ?r personnel start_date_str ?subs k)"
      by (auto simp: rows results_of_def)
    moreover from this have "Scenario row = k"
      by (simp add: format_row_def result_for_def)
    ultimately show ?thesis by simp
  qed
  have "Duration_Hours row = duration (hd (named ?subs (Scenario row))) \<and>
        Start_Time row =
          Timestamp start_date_str (Value ?r (start_var (hd (named ?subs (Scenario row))))) \<and>
        End_Time row =
          Timestamp start_date_str (Value ?r (end_var (hd (named ?subs (Scenario row))))) \<and>
        Assigned_Persons row =
          join '', '' (sort (map (\<lambda>st. name (assigned ?r personnel st))
                               (named ?subs (Scenario row)))) \<and>
        Workstreams row =
          join '', '' (sort (map (\<lambda>st. workstream (assigned ?r personnel st))
                               (named ?subs (Scenario row))))"
    if "row \<in> set schedule" for row
  proof -
    define k where "k = Scenario row"
    have "row = format_row (result_for ?r personnel start_date_str ?subs k)"
      using fields [OF that] by (simp add: k_def)
    then show ?thesis
      unfolding k_def [symmetric] by (simp add: format_row_def result_for_def)
  qed
  moreover have "set (map Scenario schedule) =
      set (map sc_name (filter (\<lambda>sc. required_workstreams sc \<noteq> []) scenarios))"
    using names_of_subtasks [of scenarios]
    by (simp add: names set_keys_in_order build_model_subtasks)
  moreover have "distinct (map Scenario schedule)"
    by (simp add: names distinct_keys_in_order)
  ultimately show ?thesis by blast
qed

lemma merged_feasible:
  "feasible (fst (build_model merged_scenarios merged_personnel)) merged_values"
  by code_simp

lemma merged_lower_bound:
  assumes feas: "feasible (fst (build_model merged_scenarios merged_personnel)) \<sigma>"
  shows "3 \<le> \<sigma> MaxEndTime"
proof -
  have "\<sigma> MaxEndTime = max (\<sigma> (EndVar 0)) (\<sigma> (EndVar 1))"
    using makespan_is_max [OF feas] by (simp add: merged_scenarios_def max.commute)
  moreover have "\<sigma> (EndVar 0) = \<sigma> (StartVar 0) + 3"
    using shared_interval [OF feas, of 0] by (simp add: merged_scenarios_def)
  moreover have "0 \<le> \<sigma> (StartVar 0)"
    using feasible_domain [OF feas conjunct1 [OF model_has_start_end_domain [of 0]]]
    by (simp add: merged_scenarios_def)
  ultimately show ?thesis by simp
qed

lemma merged_contract:
  "cp_sat_contract (fst (build_model merged_scenarios merged_personnel)) merged_answer"
proof -
  have "is_solution (fst (build_model merged_scenarios merged_personnel)) merged_answer"
    using merged_feasible
    by (simp add: is_solution_def build_model_objective merged_answer_def merged_values_def)
  then show ?thesis
    using merged_lower_bound
    by (simp add: cp_sat_contract_def build_model_objective merged_answer_def)
qed

lemma merged_returns:
  "find_optimal_schedule (\<lambda>_. merged_answer) merged_scenarios merged_personnel ''2025-01-06'' =
     Inr (merged_schedule ''2025-01-06'', Some (1 / 8))"
  by code_simp

text \<open>The hypotheses of C10 hold for two scenarios that are both named Cutover: one row
  is returned, with the duration of the first scenario and the persons of both.\<close>

theorem C10_rows_merged_by_name_witness:
  "find_optimal_schedule (\<lambda>_. merged_answer) merged_scenarios merged_personnel ''2025-01-06'' =
     Inr (merged_schedule ''2025-01-06'', Some (1 / 8)) \<and>
   cp_sat_contract (fst (build_model merged_scenarios merged_personnel)) merged_answer \<and>
   sc_name (merged_scenarios ! 0) = sc_name (merged_scenarios ! 1) \<and>
   length (merged_schedule ''2025-01-06'') = 1 \<and>
   distinct (map Scenario (merged_schedule ''2025-01-06'')) \<and>
   set (map Scenario (merged_schedule ''2025-01-06'')) =
     set (map sc_name (filter (\<lambda>sc. required_workstreams sc \<noteq> []) merged_scenarios)) \<and>
   Duration_Hours (merged_schedule ''2025-01-06'' ! 0) =
     duration (hd (named (snd (build_model merged_scenarios merged_personnel)) ''Cutover'')) \<and>
   Assigned_Persons (merged_schedule ''2025-01-06'' ! 0) =
     join '', ''
       (sort (map (\<lambda>st. name (assigned merged_answer merged_personnel st))
                (named (snd (build_model merged_scenarios merged_personnel)) ''Cutover'')))"
proof -
  have same: "sc_name (merged_scenarios ! 0) = sc_name (merged_scenarios ! 1)"
    by (simp add: merged_scenarios_def)
  have row: "merged_schedule ''2025-01-06'' ! 0 \<in> set (merged_schedule ''2025-01-06'')"
    "Scenario (merged_schedule ''2025-01-06'' ! 0) = ''Cutover''"
    "length (merged_schedule ''2025-01-06'') = 1"
    by (simp_all add: merged_schedule_def)
  note inst = C10_rows_merged_by_name [OF merged_returns merged_contract]
  from inst have d: "distinct (map Scenario (merged_schedule ''2025-01-06''))"
    and s: "set (map Scenario (merged_schedule ''2025-01-06'')) =
     set (map sc_name (filter (\<lambda>sc. required_workstreams sc \<noteq> []) merged_scenarios))"
    by blast+
  from inst row(1) have
    "Duration_Hours (merged_schedule ''2025-01-06'' ! 0) =
       duration (hd (named (snd (build_model merged_scenarios merged_personnel))
                       (Scenario (merged_schedule ''2025-01-06'' ! 0)))) \<and>
     Assigned_Persons (merged_schedule ''2025-01-06'' ! 0) =
       join '', ''
         (sort (map (\<lambda>st. name (assigned merged_answer merged_personnel st))
                  (named (snd (build_model merged_scenarios merged_personnel))
                     (Scenario (merged_schedule ''2025-01-06'' ! 0)))))"
    by blast
  then have f: "Duration_Hours (merged_schedule ''2025-01-06'' ! 0) =
       duration (hd (named (snd (build_model merged_scenarios merged_personnel)) ''Cutover'')) \<and>
     Assigned_Persons (merged_schedule ''2025-01-06'' ! 0) =
       join '', ''
         (sort (map (\<lambda>st. name (assigned merged_answer merged_personnel st))
                  (named (snd (build_model merged_scenarios merged_personnel)) ''Cutover'')))"
    unfolding row(2) .
  from merged_returns merged_contract same row(3) d s f show ?thesis by blast
qed

section \<open>A scenario without required workstreams\<close>

text \<open>
  Inserting a scenario \<open>s\<close> without required workstreams after the scenarios \<open>xs\<close> moves
  the variables of the later scenarios up by one index and adds the start variable, the
  end variable and the constraint \<open>end = start + duration\<close> of \<open>s\<close>; nothing else
  changes.  So an assignment satisfies the larger model exactly when it satisfies these
  three and, read through the renaming, the smaller model.
\<close>

lemma present_rename: "present \<sigma> (rename_interval f iv) = present (\<lambda>v. \<sigma> (f v)) iv"
  by (cases iv; cases "iv_presence iv") auto

lemma interval_ok_rename: "interval_ok \<sigma> (rename_interval f iv) = interval_ok (\<lambda>v. \<sigma> (f v)) iv"
  by (cases iv; cases "iv_presence iv") auto

lemma iv_start_rename: "iv_start (rename_interval f iv) = f (iv_start iv)"
  and iv_end_rename: "iv_end (rename_interval f iv) = f (iv_end iv)"
  by (cases iv; simp)+

lemma disjoint_pair_rename:
  "disjoint_pair \<sigma> (rename_interval f i1) (rename_interval f i2) = disjoint_pair (\<lambda>v. \<sigma> (f v)) i1 i2"
  by (simp add: disjoint_pair_def present_rename iv_start_rename iv_end_rename)

lemma no_overlap_rename:
  "no_overlap \<sigma> (map (rename_interval f) ivs) = no_overlap (\<lambda>v. \<sigma> (f v)) ivs"
  by (induction ivs) (simp_all add: list_all_iff disjoint_pair_rename)

lemma sat_rename: "sat \<sigma> (rename_constr f c) = sat (\<lambda>v. \<sigma> (f v)) c"
  by (cases c) (simp_all add: interval_ok_rename no_overlap_rename list_all_iff list_ex_iff)

lemma in_domain_rename: "in_domain \<sigma> (rename_domain f x) = in_domain (\<lambda>v. \<sigma> (f v)) x"
  by (cases x) (simp add: in_domain_def rename_domain_def)

lemma unbump_bump: "unbump i (bump i j) = j"
  by (simp add: unbump_def bump_def)

lemma bump_neq: "bump i j \<noteq> i"
  by (simp add: bump_def)

lemma with_scenario_shift: "with_scenario i d \<sigma> (shift_var i v) = \<sigma> v"
  by (cases v) (simp_all add: with_scenario_def unbump_bump bump_neq)

lemma with_scenario_shift_comp: "(\<lambda>v. with_scenario i d \<sigma> (shift_var i v)) = \<sigma>"
  by (rule ext) (simp add: with_scenario_shift)

lemma the_subtask_bump:
  "the_subtask (bump i j) sc kw = rename_subtask (shift_var i) (the_subtask j sc kw)"
  by (cases kw) (simp add: the_subtask_def rename_subtask_def)

lemma scenario_subtasks_bump:
  "scenario_subtasks (bump i j, sc) = map (rename_subtask (shift_var i)) (scenario_subtasks (j, sc))"
  by (simp add: scenario_subtasks_def the_subtask_bump)

lemma subtask_constrs_bump:
  "subtask_constrs P (bump i j) sc =
     (\<lambda>kw. map (rename_constr (shift_var i)) (subtask_constrs P j sc kw))"
  by (rule ext) (simp add: subtask_constrs_def split_beta)

lemma scenario_constrs_bump:
  "scenario_constrs P (bump i j, sc) =
     map (rename_constr (shift_var i)) (scenario_constrs P (j, sc))"
  by (simp add: scenario_constrs_def subtask_constrs_bump map_concat comp_def)

lemma scenario_vars_bump:
  "scenario_vars P (bump i j, sc) = map (rename_domain (shift_var i)) (scenario_vars P (j, sc))"
  by (simp add: scenario_vars_def rename_domain_def split_beta)

lemma enumerate_map_snd: "enumerate n (map f xs) = map (apsnd f) (enumerate n xs)"
  by (induction xs arbitrary: n) simp_all

lemma enumerate_before: "map (apfst (bump (length xs))) (enumerate 0 xs) = enumerate 0 xs"
  by (rule map_idI) (auto simp: in_set_enumerate_eq bump_def)

lemma enumerate_after: "map (apfst (bump i)) (enumerate i ys) = enumerate (Suc i) ys"
proof -
  have "map (apfst (bump i)) (enumerate i ys) = map (apfst Suc) (enumerate i ys)"
    by (rule map_cong) (auto simp: in_set_enumerate_eq bump_def)
  then show ?thesis by (simp add: enumerate_Suc_eq)
qed

lemma enumerate_insert:
  "enumerate 0 (xs @ s # ys) =
     map (apfst (bump (length xs))) (enumerate 0 xs) @
     (length xs, s) # map (apfst (bump (length xs))) (enumerate (length xs) ys)"
  by (simp add: enumerate_append_eq enumerate_before enumerate_after)

lemma enumerate_without:
  "enumerate 0 (xs @ ys) = enumerate 0 xs @ enumerate (length xs) ys"
  by (simp add: enumerate_append_eq)

lemma concat_map_bump:
  assumes "\<And>j sc. g (bump i j, sc) = map R (g (j, sc))"
  shows "concat (map (g \<circ> apfst (bump i)) E) = map R (concat (map g E))"
proof (induction E)
  case Nil
  then show ?case by simp
next
  case (Cons p E)
  obtain j sc where p: "p = (j, sc)" by (cases p)
  show ?case using Cons.IH by (simp add: p assms)
qed

lemma concat_map_insert:
  assumes "\<And>j sc. g (bump (length xs) j, sc) = map R (g (j, sc))"
  shows "concat (map g (enumerate 0 (xs @ s # ys))) =
           map R (concat (map g (enumerate 0 xs))) @ g (length xs, s) @
           map R (concat (map g (enumerate (length xs) ys)))"
  unfolding enumerate_insert by (simp add: concat_map_bump [OF assms])

lemma all_subtasks_of_insert:
  assumes "required_workstreams s = []"
  shows "all_subtasks_of (xs @ s # ys) =
           map (rename_subtask (shift_var (length xs))) (all_subtasks_of (xs @ ys))"
proof -
  let ?R = "rename_subtask (shift_var (length xs))"
  have none: "scenario_subtasks (length xs, s) = []"
    using assms by (simp add: scenario_subtasks_def)
  have "all_subtasks_of (xs @ s # ys) =
      map ?R (concat (map scenario_subtasks (enumerate 0 xs))) @ [] @
      map ?R (concat (map scenario_subtasks (enumerate (length xs) ys)))"
    by (simp only: all_subtasks_of_def none
        concat_map_insert [of scenario_subtasks, OF scenario_subtasks_bump])
  also have "\<dots> = map ?R (all_subtasks_of (xs @ ys))"
    by (simp only: all_subtasks_of_def enumerate_without map_append concat_append append_Nil)
  finally show ?thesis .
qed

lemma inj_bump: "inj (bump i)"
  by (auto simp: inj_def bump_def split: if_splits)

lemma inj_shift_var: "inj (shift_var i)"
proof (rule injI)
  fix v w
  assume "shift_var i v = shift_var i w"
  then show "v = w"
    using inj_bump [of i] by (cases v; cases w) (auto dest: injD)
qed

lemma remdups_map_inj: "inj f \<Longrightarrow> remdups (map f xs) = map f (remdups xs)"
  by (induction xs) (auto simp: inj_image_mem_iff)

lemma optional_interval_of_rename:
  "optional_interval_of (n, rename_subtask (shift_var i) st) j =
     rename_interval (shift_var i) (optional_interval_of (n, st) j)"
  by (simp add: optional_interval_of_def rename_subtask_def)

lemma person_constrs_rename:
  "person_constrs (n, rename_subtask (shift_var i) st) =
     (\<lambda>j. map (rename_constr (shift_var i)) (person_constrs (n, st) j))"
  by (rule ext) (simp add: person_constrs_def optional_interval_of_rename, simp add: rename_subtask_def)

lemma link_constrs_rename:
  "concat (map (\<lambda>nt. concat (map (person_constrs nt) js))
             (enumerate n (map (rename_subtask (shift_var i)) sts))) =
   map (rename_constr (shift_var i))
     (concat (map (\<lambda>nt. concat (map (person_constrs nt) js)) (enumerate n sts)))"
proof (induction sts arbitrary: n)
  case Nil
  then show ?case by simp
next
  case (Cons st sts)
  have "concat (map (person_constrs (n, rename_subtask (shift_var i) st)) js) =
        map (rename_constr (shift_var i)) (concat (map (person_constrs (n, st)) js))"
    by (simp add: person_constrs_rename map_concat comp_def)
  with Cons.IH [of "Suc n"] show ?case by simp
qed

lemma link_vars_rename:
  "map (\<lambda>nt. map (\<lambda>j. (IsAssignedVar (fst nt) j, 0 :: int, 1 :: int)) js)
     (enumerate n (map (rename_subtask (shift_var i)) sts)) =
   map (\<lambda>nt. map (\<lambda>j. (IsAssignedVar (fst nt) j, 0, 1)) js) (enumerate n sts)"
  by (simp add: enumerate_map_snd comp_def)

lemma intervals_of_person_rename:
  "intervals_of_person (map (rename_subtask (shift_var i)) sts) j =
     map (rename_interval (shift_var i)) (intervals_of_person sts j)"
  by (simp add: intervals_of_person_def enumerate_map_snd comp_def split_beta
      optional_interval_of_def rename_subtask_def)

lemma end_vars_rename:
  "remdups (map end_var (map (rename_subtask (shift_var i)) sts)) =
     map (shift_var i) (remdups (map end_var sts))"
proof -
  have "map end_var (map (rename_subtask (shift_var i)) sts) = map (shift_var i) (map end_var sts)"
    by (simp add: rename_subtask_def)
  then show ?thesis by (simp only: remdups_map_inj [OF inj_shift_var])
qed

lemma scenario_constrs_empty:
  "required_workstreams s = [] \<Longrightarrow>
   scenario_constrs P (i, s) = [EqualPlus (EndVar i) (StartVar i) (duration_hours s)]"
  by (simp add: scenario_constrs_def)

lemma scenario_vars_empty:
  "required_workstreams s = [] \<Longrightarrow>
   scenario_vars P (i, s) = [(StartVar i, 0, horizon), (EndVar i, 0, horizon)]"
  by (simp add: scenario_vars_def)

lemma constraints_insert:
  assumes empty: "required_workstreams s = []"
  shows "\<exists>B1 B2. constraints (fst (build_model (xs @ ys) P)) = B1 @ B2 \<and>
           constraints (fst (build_model (xs @ s # ys) P)) =
             map (rename_constr (shift_var (length xs))) B1 @
             [EqualPlus (EndVar (length xs)) (StartVar (length xs)) (duration_hours s)] @
             map (rename_constr (shift_var (length xs))) B2"
proof -
  let ?f = "shift_var (length xs)"
  let ?Rc = "rename_constr ?f"
  let ?subs = "all_subtasks_of (xs @ ys)"
  let ?A1 = "concat (map (scenario_constrs P) (enumerate 0 xs))"
  let ?A2 = "concat (map (scenario_constrs P) (enumerate (length xs) ys))"
  let ?L = "concat (map (\<lambda>nt. concat (map (person_constrs nt) [0..<length P])) (enumerate 0 ?subs))"
  let ?N = "map (\<lambda>j. NoOverlap (intervals_of_person ?subs j)) [0..<length P]"
  let ?M = "MaxEquality MaxEndTime (remdups (map end_var ?subs))"
  have small: "constraints (fst (build_model (xs @ ys) P)) = ?A1 @ (?A2 @ ?L @ ?N @ [?M])"
    by (simp only: build_model_constrs enumerate_without map_append concat_append append_assoc)
  have scen: "concat (map (scenario_constrs P) (enumerate 0 (xs @ s # ys))) =
      map ?Rc ?A1 @ [EqualPlus (EndVar (length xs)) (StartVar (length xs)) (duration_hours s)] @
      map ?Rc ?A2"
    by (simp only: concat_map_insert [of "scenario_constrs P", OF scenario_constrs_bump]
        scenario_constrs_empty [OF empty])
  have nov: "map (\<lambda>j. NoOverlap (intervals_of_person (map (rename_subtask ?f) ?subs) j)) [0..<length P] =
      map ?Rc ?N"
    by (simp add: intervals_of_person_rename)
  have mx: "MaxEquality MaxEndTime (remdups (map end_var (map (rename_subtask ?f) ?subs))) = ?Rc ?M"
    by (simp only: end_vars_rename rename_constr.simps shift_var.simps)
  have big: "constraints (fst (build_model (xs @ s # ys) P)) =
      map ?Rc ?A1 @ [EqualPlus (EndVar (length xs)) (StartVar (length xs)) (duration_hours s)] @
      map ?Rc (?A2 @ ?L @ ?N @ [?M])"
    by (simp only: build_model_constrs all_subtasks_of_insert [OF empty] scen link_constrs_rename
        nov mx map_append list.map append_assoc)
  from small big show ?thesis by blast
qed

lemma variables_insert:
  assumes empty: "required_workstreams s = []"
  shows "\<exists>B1 B2. variables (fst (build_model (xs @ ys) P)) = B1 @ B2 \<and>
           variables (fst (build_model (xs @ s # ys) P)) =
             map (rename_domain (shift_var (length xs))) B1 @
             [(StartVar (length xs), 0, horizon), (EndVar (length xs), 0, horizon)] @
             map (rename_domain (shift_var (length xs))) B2"
proof -
  let ?f = "shift_var (length xs)"
  let ?Rd = "rename_domain ?f"
  let ?subs = "all_subtasks_of (xs @ ys)"
  let ?A1 = "concat (map (scenario_vars P) (enumerate 0 xs))"
  let ?A2 = "concat (map (scenario_vars P) (enumerate (length xs) ys))"
  let ?L = "concat (map (\<lambda>nt. map (\<lambda>j. (IsAssignedVar (fst nt) j, 0 :: int, 1 :: int)) [0..<length P])
                     (enumerate 0 ?subs))"
  have small: "variables (fst (build_model (xs @ ys) P)) = ?A1 @ (?A2 @ ?L @ [(MaxEndTime, 0, horizon)])"
    by (simp only: build_model_vars enumerate_without map_append concat_append append_assoc)
  have scen: "concat (map (scenario_vars P) (enumerate 0 (xs @ s # ys))) =
      map ?Rd ?A1 @ [(StartVar (length xs), 0, horizon), (EndVar (length xs), 0, horizon)] @
      map ?Rd ?A2"
    by (simp only: concat_map_insert [of "scenario_vars P", OF scenario_vars_bump]
        scenario_vars_empty [OF empty])
  have fixL: "map ?Rd ?L = ?L"
    by (rule map_idI) (auto simp: rename_domain_def)
  have fixM: "?Rd (MaxEndTime, 0, horizon) = (MaxEndTime, 0, horizon)"
    by (simp add: rename_domain_def)
  have big: "variables (fst (build_model (xs @ s # ys) P)) =
      map ?Rd ?A1 @ [(StartVar (length xs), 0, horizon), (EndVar (length xs), 0, horizon)] @
      map ?Rd (?A2 @ ?L @ [(MaxEndTime, 0, horizon)])"
    by (simp only: build_model_vars all_subtasks_of_insert [OF empty] scen link_vars_rename
        fixL fixM map_append list.map append_assoc)
  from small big show ?thesis by blast
qed

lemma list_all_sat_rename:
  "list_all (sat \<sigma>) (map (rename_constr f) cs) = list_all (sat (\<lambda>v. \<sigma> (f v))) cs"
  by (induction cs) (simp_all add: sat_rename)

lemma list_all_in_domain_rename:
  "list_all (in_domain \<sigma>) (map (rename_domain f) ds) = list_all (in_domain (\<lambda>v. \<sigma> (f v))) ds"
  by (induction ds) (simp_all add: in_domain_rename)

lemma in_domain_triple: "in_domain \<sigma> (v, lb, ub) = (lb \<le> \<sigma> v \<and> \<sigma> v \<le> ub)"
  by (simp add: in_domain_def)

lemma feasible_insert:
  assumes empty: "required_workstreams s = []"
  shows "feasible (fst (build_model (xs @ s # ys) P)) \<sigma> \<longleftrightarrow>
           feasible (fst (build_model (xs @ ys) P)) (\<lambda>v. \<sigma> (shift_var (length xs) v)) \<and>
           0 \<le> \<sigma> (StartVar (length xs)) \<and> \<sigma> (StartVar (length xs)) \<le> horizon \<and>
           0 \<le> \<sigma> (EndVar (length xs)) \<and> \<sigma> (EndVar (length xs)) \<le> horizon \<and>
           \<sigma> (EndVar (length xs)) = \<sigma> (StartVar (length xs)) + duration_hours s"
proof -
  from constraints_insert [OF empty, of xs ys P] obtain B1 B2 where
    c: "constraints (fst (build_model (xs @ ys) P)) = B1 @ B2"
      "constraints (fst (build_model (xs @ s # ys) P)) =
         map (rename_constr (shift_var (length xs))) B1 @
         [EqualPlus (EndVar (length xs)) (StartVar (length xs)) (duration_hours s)] @
         map (rename_constr (shift_var (length xs))) B2"
    by blast
  from variables_insert [OF empty, of xs ys P] obtain D1 D2 where
    v: "variables (fst (build_model (xs @ ys) P)) = D1 @ D2"
      "variables (fst (build_model (xs @ s # ys) P)) =
         map (rename_domain (shift_var (length xs))) D1 @
         [(StartVar (length xs), 0, horizon), (EndVar (length xs), 0, horizon)] @
         map (rename_domain (shift_var (length xs))) D2"
    by blast
  show ?thesis
    unfolding feasible_def c v
    by (simp add: list_all_sat_rename list_all_in_domain_rename in_domain_triple) blast
qed

lemma extract_step_rename:
  "extract_step r P d (rename_subtask f st) acc =
     extract_step (r\<lparr>Value := \<lambda>v. Value r (f v)\<rparr>) P d st acc"
  by (simp add: extract_step_def rename_subtask_def Let_def split: sum.splits)

lemma extract_loop_rename:
  "extract_loop r P d (map (rename_subtask f) sts) acc =
     extract_loop (r\<lparr>Value := \<lambda>v. Value r (f v)\<rparr>) P d sts acc"
  by (induction sts arbitrary: acc) (simp_all add: extract_step_rename split: sum.splits)

lemma find_optimal_schedule_answer:
  "find_optimal_schedule (\<lambda>_. r) S P d =
     (if status r = OPTIMAL \<or> status r = FEASIBLE then
        (case extract_loop r P d (all_subtasks_of S) [] of
           Inl e \<Rightarrow> Inl e
         | Inr rs \<Rightarrow> Inr (map (format_row \<circ> snd) rs, Some (real_of_int (ObjectiveValue r) / 24)))
      else Inr ([], None))"
  by (simp add: find_optimal_schedule_def split_beta Let_def build_model_subtasks)

lemma with_scenario_feasible:
  assumes empty: "required_workstreams s = []"
    and fits: "- horizon \<le> duration_hours s \<and> duration_hours s \<le> horizon"
    and feas: "feasible (fst (build_model (xs @ ys) P)) \<sigma>"
  shows "feasible (fst (build_model (xs @ s # ys) P))
           (with_scenario (length xs) (duration_hours s) \<sigma>)"
  unfolding feasible_insert [OF empty] with_scenario_shift_comp
  using feas fits by (simp add: with_scenario_def)

lemma without_scenario_feasible:
  assumes empty: "required_workstreams s = []"
    and feas: "feasible (fst (build_model (xs @ s # ys) P)) \<sigma>"
  shows "feasible (fst (build_model (xs @ ys) P)) (\<lambda>v. \<sigma> (shift_var (length xs) v))"
  using feas unfolding feasible_insert [OF empty] by simp

lemma cp_sat_contractI:
  assumes "objective m = Some x"
    and "status r = OPTIMAL \<or> status r = FEASIBLE \<Longrightarrow> is_solution m r"
    and "\<And>\<sigma>. status r = OPTIMAL \<Longrightarrow> feasible m \<sigma> \<Longrightarrow> ObjectiveValue r \<le> \<sigma> x"
    and "\<And>\<sigma>. status r = INFEASIBLE \<Longrightarrow> \<not> feasible m \<sigma>"
  shows "cp_sat_contract m r"
  unfolding cp_sat_contract_def using assms by auto

lemma contract_solution:
  "cp_sat_contract m r \<Longrightarrow> status r = OPTIMAL \<or> status r = FEASIBLE \<Longrightarrow> is_solution m r"
  unfolding cp_sat_contract_def by blast

lemma contract_optimal:
  "cp_sat_contract m r \<Longrightarrow> status r = OPTIMAL \<Longrightarrow> objective m = Some x \<Longrightarrow> feasible m \<sigma>
     \<Longrightarrow> ObjectiveValue r \<le> \<sigma> x"
  unfolding cp_sat_contract_def by blast

lemma contract_infeasible:
  "cp_sat_contract m r \<Longrightarrow> status r = INFEASIBLE \<Longrightarrow> \<not> feasible m \<sigma>"
  unfolding cp_sat_contract_def by blast

lemma answer_without_scenario:
  assumes empty: "required_workstreams s = []"
    and fits: "- horizon \<le> duration_hours s \<and> duration_hours s \<le> horizon"
    and contract: "cp_sat_contract (fst (build_model (xs @ s # ys) P)) r"
  shows "cp_sat_contract (fst (build_model (xs @ ys) P))
           (r\<lparr>Value := \<lambda>v. Value r (shift_var (length xs) v)\<rparr>) \<and>
         find_optimal_schedule (\<lambda>_. r\<lparr>Value := \<lambda>v. Value r (shift_var (length xs) v)\<rparr>) (xs @ ys) P d =
           find_optimal_schedule (\<lambda>_. r) (xs @ s # ys) P d"
proof
  define r' where "r' = r\<lparr>Value := \<lambda>v. Value r (shift_var (length xs) v)\<rparr>"
  have r': "status r' = status r" "ObjectiveValue r' = ObjectiveValue r"
    "Value r' = (\<lambda>v. Value r (shift_var (length xs) v))"
    by (simp_all add: r'_def)
  have loop: "extract_loop r P d (all_subtasks_of (xs @ s # ys)) [] =
      extract_loop r' P d (all_subtasks_of (xs @ ys)) []"
    by (simp only: all_subtasks_of_insert [OF empty] extract_loop_rename r'_def)
  show "find_optimal_schedule (\<lambda>_. r\<lparr>Value := \<lambda>v. Value r (shift_var (length xs) v)\<rparr>) (xs @ ys) P d =
      find_optimal_schedule (\<lambda>_. r) (xs @ s # ys) P d"
    unfolding r'_def [symmetric] find_optimal_schedule_answer loop r' by (rule refl)
  show "cp_sat_contract (fst (build_model (xs @ ys) P))
      (r\<lparr>Value := \<lambda>v. Value r (shift_var (length xs) v)\<rparr>)"
    unfolding r'_def [symmetric]
  proof (rule cp_sat_contractI [OF build_model_objective])
    assume "status r' = OPTIMAL \<or> status r' = FEASIBLE"
    then have "is_solution (fst (build_model (xs @ s # ys) P)) r"
      using contract_solution [OF contract] by (simp add: r')
    then show "is_solution (fst (build_model (xs @ ys) P)) r'"
      using without_scenario_feasible [OF empty, of xs ys P "Value r"]
      by (simp add: is_solution_def build_model_objective r')
  next
    fix \<sigma>
    assume st: "status r' = OPTIMAL" and feas: "feasible (fst (build_model (xs @ ys) P)) \<sigma>"
    have "ObjectiveValue r \<le> with_scenario (length xs) (duration_hours s) \<sigma> MaxEndTime"
      using contract_optimal [OF contract _ build_model_objective
          with_scenario_feasible [OF empty fits feas]] st
      by (simp add: r')
    then show "ObjectiveValue r' \<le> \<sigma> MaxEndTime" by (simp add: with_scenario_def r')
  next
    fix \<sigma>
    assume st: "status r' = INFEASIBLE"
    show "\<not> feasible (fst (build_model (xs @ ys) P)) \<sigma>"
    proof
      assume "feasible (fst (build_model (xs @ ys) P)) \<sigma>"
      from with_scenario_feasible [OF empty fits this]
        contract_infeasible [OF contract, of "with_scenario (length xs) (duration_hours s) \<sigma>"] st
      show False by (simp add: r')
    qed
  qed
qed

lemma answer_with_scenario:
  assumes empty: "required_workstreams s = []"
    and fits: "- horizon \<le> duration_hours s \<and> duration_hours s \<le> horizon"
    and contract: "cp_sat_contract (fst (build_model (xs @ ys) P)) r"
  shows "cp_sat_contract (fst (build_model (xs @ s # ys) P))
           (r\<lparr>Value := with_scenario (length xs) (duration_hours s) (Value r)\<rparr>) \<and>
         find_optimal_schedule
           (\<lambda>_. r\<lparr>Value := with_scenario (length xs) (duration_hours s) (Value r)\<rparr>)
           (xs @ s # ys) P d =
           find_optimal_schedule (\<lambda>_. r) (xs @ ys) P d"
proof
  define r' where "r' = r\<lparr>Value := with_scenario (length xs) (duration_hours s) (Value r)\<rparr>"
  have r': "status r' = status r" "ObjectiveValue r' = ObjectiveValue r"
    "Value r' = with_scenario (length xs) (duration_hours s) (Value r)"
    by (simp_all add: r'_def)
  have restore: "r'\<lparr>Value := \<lambda>v. Value r' (shift_var (length xs) v)\<rparr> = r"
    by (simp add: r'_def with_scenario_shift)
  have loop: "extract_loop r' P d (all_subtasks_of (xs @ s # ys)) [] =
      extract_loop r P d (all_subtasks_of (xs @ ys)) []"
    by (simp only: all_subtasks_of_insert [OF empty] extract_loop_rename restore)
  show "find_optimal_schedule
      (\<lambda>_. r\<lparr>Value := with_scenario (length xs) (duration_hours s) (Value r)\<rparr>) (xs @ s # ys) P d =
      find_optimal_schedule (\<lambda>_. r) (xs @ ys) P d"
    unfolding r'_def [symmetric] find_optimal_schedule_answer loop r' by (rule refl)
  show "cp_sat_contract (fst (build_model (xs @ s # ys) P))
      (r\<lparr>Value := with_scenario (length xs) (duration_hours s) (Value r)\<rparr>)"
    unfolding r'_def [symmetric]
  proof (rule cp_sat_contractI [OF build_model_objective])
    assume "status r' = OPTIMAL \<or> status r' = FEASIBLE"
    then have "is_solution (fst (build_model (xs @ ys) P)) r"
      using contract_solution [OF contract] by (simp add: r')
    then show "is_solution (fst (build_model (xs @ s # ys) P)) r'"
      using with_scenario_feasible [OF empty fits, of xs ys P "Value r"]
      by (simp add: is_solution_def build_model_objective r' with_scenario_def)
  next
    fix \<sigma>
    assume st: "status r' = OPTIMAL" and feas: "feasible (fst (build_model (xs @ s # ys) P)) \<sigma>"
    have "ObjectiveValue r \<le> (\<lambda>v. \<sigma> (shift_var (length xs) v)) MaxEndTime"
      using contract_optimal [OF contract _ build_model_objective
          without_scenario_feasible [OF empty feas]] st
      by (simp add: r')
    then show "ObjectiveValue r' \<le> \<sigma> MaxEndTime" by (simp add: r')
  next
    fix \<sigma>
    assume st: "status r' = INFEASIBLE"
    show "\<not> feasible (fst (build_model (xs @ s # ys) P)) \<sigma>"
    proof
      assume "feasible (fst (build_model (xs @ s # ys) P)) \<sigma>"
      from without_scenario_feasible [OF empty this]
        contract_infeasible [OF contract, of "\<lambda>v. \<sigma> (shift_var (length xs) v)"] st
      show False by (simp add: r')
    qed
  qed
qed

lemma end_var_of_empty_scenario:
  assumes empty: "required_workstreams s = []"
  shows "EndVar (length xs) \<notin> end_var ` set (all_subtasks_of (xs @ s # ys))"
proof
  assume "EndVar (length xs) \<in> end_var ` set (all_subtasks_of (xs @ s # ys))"
  then obtain t where t: "t \<in> set (all_subtasks_of (xs @ s # ys))" "end_var t = EndVar (length xs)"
    by auto
  from t(1) obtain j k where jk: "j < length (xs @ s # ys)"
    "k < length (required_workstreams ((xs @ s # ys) ! j))"
    "t = the_subtask j ((xs @ s # ys) ! j) (k, required_workstreams ((xs @ s # ys) ! j) ! k)"
    unfolding in_all_subtasks_of by blast
  from jk(3) t(2) have "j = length xs" by (simp add: the_subtask_def)
  with jk(2) empty show False by simp
qed

text \<open>
  Claim C9, as amended.  A scenario \<open>s\<close> whose \<^verbatim>\<open>required_workstreams\<close> is empty contributes
  no sub-task, and its end variable is not among the end variables under the maximum.
  If moreover its duration fits the horizon (between -1440 and 1440 hours), it changes
  nothing in what can be returned: for every status, the results (rows and total days)
  that a solver keeping its contract can produce for the scenarios with \<open>s\<close> are those it
  can produce for the scenarios without \<open>s\<close>.
\<close>

theorem C9_scenario_without_workstreams:
  assumes empty: "required_workstreams s = []"
    and fits: "- horizon \<le> duration_hours s \<and> duration_hours s \<le> horizon"
  shows "snd (scenario_step personnel (length xs, s) (m0, sts)) = sts \<and>
         EndVar (length xs) \<notin> end_var ` set (snd (build_model (xs @ s # ys) personnel)) \<and>
         ((\<exists>r. cp_sat_contract (fst (build_model (xs @ s # ys) personnel)) r \<and> status r = st \<and>
               find_optimal_schedule (\<lambda>_. r) (xs @ s # ys) personnel start_date_str = outcome) \<longleftrightarrow>
          (\<exists>r. cp_sat_contract (fst (build_model (xs @ ys) personnel)) r \<and> status r = st \<and>
               find_optimal_schedule (\<lambda>_. r) (xs @ ys) personnel start_date_str = outcome))"
proof (intro conjI iffI)
  show "snd (scenario_step personnel (length xs, s) (m0, sts)) = sts"
    using empty by (simp add: scenario_step_subtasks scenario_subtasks_def)
  show "EndVar (length xs) \<notin> end_var ` set (snd (build_model (xs @ s # ys) personnel))"
    using end_var_of_empty_scenario [OF empty] by (simp add: build_model_subtasks)
next
  assume "\<exists>r. cp_sat_contract (fst (build_model (xs @ s # ys) personnel)) r \<and> status r = st \<and>
    find_optimal_schedule (\<lambda>_. r) (xs @ s # ys) personnel start_date_str = outcome"
  then obtain r where r: "cp_sat_contract (fst (build_model (xs @ s # ys) personnel)) r"
    "status r = st"
    "find_optimal_schedule (\<lambda>_. r) (xs @ s # ys) personnel start_date_str = outcome"
    by blast
  let ?r' = "r\<lparr>Value := \<lambda>v. Value r (shift_var (length xs) v)\<rparr>"
  from answer_without_scenario [OF empty fits r(1), of start_date_str] r(2,3)
  have "cp_sat_contract (fst (build_model (xs @ ys) personnel)) ?r' \<and> status ?r' = st \<and>
    find_optimal_schedule (\<lambda>_. ?r') (xs @ ys) personnel start_date_str = outcome"
    by simp
  then show "\<exists>r. cp_sat_contract (fst (build_model (xs @ ys) personnel)) r \<and> status r = st \<and>
    find_optimal_schedule (\<lambda>_. r) (xs @ ys) personnel start_date_str = outcome"
    by blast
next
  assume "\<exists>r. cp_sat_contract (fst (build_model (xs @ ys) personnel)) r \<and> status r = st \<and>
    find_optimal_schedule (\<lambda>_. r) (xs @ ys) personnel start_date_str = outcome"
  then obtain r where r: "cp_sat_contract (fst (build_model (xs @ ys) personnel)) r"
    "status r = st"
    "find_optimal_schedule (\<lambda>_. r) (xs @ ys) personnel start_date_str = outcome"
    by blast
  let ?r' = "r\<lparr>Value := with_scenario (length xs) (duration_hours s) (Value r)\<rparr>"
  from answer_with_scenario [OF empty fits r(1), of start_date_str] r(2,3)
  have "cp_sat_contract (fst (build_model (xs @ s # ys) personnel)) ?r' \<and> status ?r' = st \<and>
    find_optimal_schedule (\<lambda>_. ?r') (xs @ s # ys) personnel start_date_str = outcome"
    by simp
  then show "\<exists>r. cp_sat_contract (fst (build_model (xs @ s # ys) personnel)) r \<and> status r = st \<and>
    find_optimal_schedule (\<lambda>_. r) (xs @ s # ys) personnel start_date_str = outcome"
    by blast
qed

lemma base_feasible:
  "feasible (fst (build_model base_scenarios skipped_personnel)) skipped_values"
  by code_simp

lemma base_lower_bound:
  assumes feas: "feasible (fst (build_model base_scenarios skipped_personnel)) \<sigma>"
  shows "1 \<le> \<sigma> MaxEndTime"
proof -
  have "\<sigma> MaxEndTime = \<sigma> (EndVar 0)"
    using makespan_is_max [OF feas] by (simp add: base_scenarios_def)
  moreover have "\<sigma> (EndVar 0) = \<sigma> (StartVar 0) + 1"
    using shared_interval [OF feas, of 0] by (simp add: base_scenarios_def)
  moreover have "0 \<le> \<sigma> (StartVar 0)"
    using feasible_domain [OF feas conjunct1 [OF model_has_start_end_domain [of 0]]]
    by (simp add: base_scenarios_def)
  ultimately show ?thesis by simp
qed

lemma base_contract:
  "cp_sat_contract (fst (build_model base_scenarios skipped_personnel)) skipped_answer"
proof (rule cp_sat_contractI [OF build_model_objective])
  show "is_solution (fst (build_model base_scenarios skipped_personnel)) skipped_answer"
    using base_feasible
    by (simp add: is_solution_def build_model_objective skipped_answer_def skipped_values_def)
  show "ObjectiveValue skipped_answer \<le> \<sigma> MaxEndTime"
    if "feasible (fst (build_model base_scenarios skipped_personnel)) \<sigma>" for \<sigma>
    using base_lower_bound [OF that] by (simp add: skipped_answer_def)
  show "\<not> feasible (fst (build_model base_scenarios skipped_personnel)) \<sigma>"
    if "status skipped_answer = INFEASIBLE" for \<sigma>
    using that by (simp add: skipped_answer_def)
qed

lemma base_returns:
  "find_optimal_schedule (\<lambda>_. skipped_answer) base_scenarios skipped_personnel ''2025-01-06'' =
     Inr (ledger_schedule ''2025-01-06'', Some (1 / 24))"
  by code_simp

lemma long_infeasible:
  "\<not> feasible (fst (build_model long_scenarios skipped_personnel)) \<sigma>"
proof
  assume feas: "feasible (fst (build_model long_scenarios skipped_personnel)) \<sigma>"
  have "\<sigma> (EndVar 1) = \<sigma> (StartVar 1) + 2000"
    using shared_interval [OF feas, of 1] by (simp add: long_scenarios_def)
  moreover have "0 \<le> \<sigma> (StartVar 1)"
    using feasible_domain [OF feas conjunct1 [OF model_has_start_end_domain [of 1]]]
    by (simp add: long_scenarios_def)
  moreover have "\<sigma> (EndVar 1) \<le> horizon"
    using feasible_domain [OF feas conjunct2 [OF model_has_start_end_domain [of 1]]]
    by (simp add: long_scenarios_def)
  ultimately show False by (simp add: horizon_def)
qed

lemma long_contract:
  "cp_sat_contract (fst (build_model long_scenarios skipped_personnel)) no_solution_answer"
  using long_infeasible by (simp add: cp_sat_contract_def no_solution_answer_def)

lemma long_never_returns_total:
  "\<not> (\<exists>r rows t. cp_sat_contract (fst (build_model long_scenarios skipped_personnel)) r \<and>
         find_optimal_schedule (\<lambda>_. r) long_scenarios skipped_personnel d = Inr (rows, Some t))"
proof
  assume "\<exists>r rows t. cp_sat_contract (fst (build_model long_scenarios skipped_personnel)) r \<and>
         find_optimal_schedule (\<lambda>_. r) long_scenarios skipped_personnel d = Inr (rows, Some t)"
  then obtain r rows t where
    c: "cp_sat_contract (fst (build_model long_scenarios skipped_personnel)) r"
    and ret: "find_optimal_schedule (\<lambda>_. r) long_scenarios skipped_personnel d = Inr (rows, Some t)"
    by blast
  from returned_status [OF ret] have "status r = OPTIMAL \<or> status r = FEASIBLE" by simp
  from contract_solution [OF c this] have "feasible (fst (build_model long_scenarios skipped_personnel)) (Value r)"
    by (rule is_solution_feasible)
  with long_infeasible show False by blast
qed

text \<open>
  Claim C9 as stated fails.  Personnel: Alice of Finance.  The scenario Ledger Review of
  one hour requiring Finance alone gives a total of 1/24 of a day.  Adding a scenario
  of 2000 hours with no required workstream, its constraint \<open>end = start + 2000\<close> has no
  solution within the horizon of 1440 hours: the model is infeasible, no solver keeping
  its contract returns a total, and the empty result is returned.
\<close>

theorem C9_long_scenario_counterexample:
  "required_workstreams (long_scenarios ! 1) = [] \<and>
   long_scenarios = base_scenarios @ [long_scenarios ! 1] \<and>
   cp_sat_contract (fst (build_model base_scenarios skipped_personnel)) skipped_answer \<and>
   status skipped_answer = OPTIMAL \<and>
   find_optimal_schedule (\<lambda>_. skipped_answer) base_scenarios skipped_personnel ''2025-01-06'' =
     Inr (ledger_schedule ''2025-01-06'', Some (1 / 24)) \<and>
   \<not> (\<exists>r rows t. cp_sat_contract (fst (build_model long_scenarios skipped_personnel)) r \<and>
         find_optimal_schedule (\<lambda>_. r) long_scenarios skipped_personnel ''2025-01-06'' =
           Inr (rows, Some t)) \<and>
   cp_sat_contract (fst (build_model long_scenarios skipped_personnel)) no_solution_answer \<and>
   find_optimal_schedule (\<lambda>_. no_solution_answer) long_scenarios skipped_personnel ''2025-01-06'' =
     Inr ([], None)"
proof -
  have a: "required_workstreams (long_scenarios ! 1) = []"
    and b: "long_scenarios = base_scenarios @ [long_scenarios ! 1]"
    by (simp_all add: long_scenarios_def base_scenarios_def)
  have st: "status skipped_answer = OPTIMAL" by (simp add: skipped_answer_def)
  have none: "find_optimal_schedule (\<lambda>_. no_solution_answer) long_scenarios skipped_personnel
      ''2025-01-06'' = Inr ([], None)"
    by (simp add: find_optimal_schedule_answer no_solution_answer_def)
  from a b base_contract st base_returns long_never_returns_total [of "''2025-01-06''"]
    long_contract none
  show ?thesis by blast
qed

text \<open>The hypotheses of the amended C9 hold for the scenario of five hours with no
  required workstream added after Ledger Review; with and without it the schedule of
  Ledger Review and the total of 1/24 of a day are returned.\<close>

theorem C9_scenario_without_workstreams_witness:
  "required_workstreams (skipped_scenarios ! 1) = [] \<and>
   - horizon \<le> duration_hours (skipped_scenarios ! 1) \<and>
   duration_hours (skipped_scenarios ! 1) \<le> horizon \<and>
   skipped_scenarios = base_scenarios @ [skipped_scenarios ! 1] \<and>
   snd (scenario_step skipped_personnel (1, skipped_scenarios ! 1) (CpModel, [])) = [] \<and>
   EndVar 1 \<notin> end_var ` set (snd (build_model skipped_scenarios skipped_personnel)) \<and>
   (\<exists>r. cp_sat_contract (fst (build_model skipped_scenarios skipped_personnel)) r \<and>
        status r = OPTIMAL \<and>
        find_optimal_schedule (\<lambda>_. r) skipped_scenarios skipped_personnel ''2025-01-06'' =
          Inr (ledger_schedule ''2025-01-06'', Some (1 / 24))) \<and>
   (\<exists>r. cp_sat_contract (fst (build_model base_scenarios skipped_personnel)) r \<and>
        status r = OPTIMAL \<and>
        find_optimal_schedule (\<lambda>_. r) base_scenarios skipped_personnel ''2025-01-06'' =
          Inr (ledger_schedule ''2025-01-06'', Some (1 / 24)))"
proof -
  let ?s = "skipped_scenarios ! 1"
  have empty: "required_workstreams ?s = []"
    and fits: "- horizon \<le> duration_hours ?s \<and> duration_hours ?s \<le> horizon"
    and split: "skipped_scenarios = base_scenarios @ [?s]"
    and len: "length base_scenarios = 1"
    by (simp_all add: skipped_scenarios_def base_scenarios_def horizon_def)
  note inst = C9_scenario_without_workstreams [OF empty fits, of skipped_personnel base_scenarios
      CpModel "[]" "[]" OPTIMAL "''2025-01-06''" "Inr (ledger_schedule ''2025-01-06'', Some (1 / 24))",
      folded split, unfolded len]
  have st: "status skipped_answer = OPTIMAL" by (simp add: skipped_answer_def)
  have big: "\<exists>r. cp_sat_contract (fst (build_model skipped_scenarios skipped_personnel)) r \<and>
        status r = OPTIMAL \<and>
        find_optimal_schedule (\<lambda>_. r) skipped_scenarios skipped_personnel ''2025-01-06'' =
          Inr (ledger_schedule ''2025-01-06'', Some (1 / 24))"
    using skipped_contract st skipped_returns by (auto simp: ledger_schedule_def)
  from inst big empty fits split show ?thesis by simp
qed

end
